theory Spec2Isabelle
  imports Complex_Main "HOL-Library.Word" "HOL-Library.AList" "HOL-Library.Sublist"
begin

unbundle bit_operations_syntax

section \<open>Data model\<close>

text \<open>
  The program (\<^verbatim>\<open>src/unnamed/part_000\<close>) reads a ZIP-packaged spreadsheet from a
  Node.js \<^verbatim>\<open>Buffer\<close> and decodes its sheets into row records.

  \<^item> A \<^verbatim>\<open>Buffer\<close> is a list of bytes (\<open>8 word\<close>).
  \<^item> A JavaScript string is a sequence of UTF-16 code units (\<open>16 word\<close>);
    \<open>js\<close> embeds an ASCII literal.
  \<^item> Every \<^verbatim>\<open>throw\<close> of the source is a value of \<open>error\<close>; the names follow
    the taxonomy of the specification, the comment gives the message of the source.
\<close>

type_synonym byte = "8 word"
type_synonym jschar = "16 word"
type_synonym jsstring = "jschar list"

definition js :: "string \<Rightarrow> jsstring" where
  "js s = map (\<lambda>c. of_nat (of_char c)) s"

lemma js_Nil [simp]: "js [] = []"
  by (simp add: js_def)

lemma js_Cons [simp]: "js (c # s) = of_nat (of_char c) # js s"
  by (simp add: js_def)

datatype error =
    ArchiveFormatError      \<comment> \<open>\<^verbatim>\<open>Unable to locate end of central directory\<close>\<close>
  | CentralDirectoryError   \<comment> \<open>\<^verbatim>\<open>Invalid central directory entry at offset\<close>\<close>
  | EntryNotFound           \<comment> \<open>\<^verbatim>\<open>Entry not found in archive\<close>\<close>
  | LocalHeaderError        \<comment> \<open>\<^verbatim>\<open>Invalid local file header\<close>\<close>
  | UnsupportedCompression  \<comment> \<open>\<^verbatim>\<open>Unsupported compression method\<close>\<close>
  | SheetNotFound           \<comment> \<open>\<^verbatim>\<open>Sheet not found\<close>\<close>
  | RelationshipMissing     \<comment> \<open>\<^verbatim>\<open>Relationship target missing for sheet\<close>\<close>
  | RangeError              \<comment> \<open>a \<^verbatim>\<open>Buffer\<close> read outside the buffer (thrown by Node)\<close>
  | InflateError            \<comment> \<open>\<^verbatim>\<open>zlib.inflateRawSync\<close> rejected the stream\<close>

section \<open>Numbers\<close>

text \<open>
  A JavaScript number is an IEEE 754 double. The model keeps the value of a finite double
  as an exact rational; \<open>-0\<close> is \<open>0\<close>. A \<^verbatim>\<open>Date\<close> is its time value, the milliseconds
  since the epoch, or invalid (time value \<^verbatim>\<open>NaN\<close>).
\<close>

datatype jsnumber = NaN | Finite rat | PosInfinity | NegInfinity

datatype jsdate = Date int | InvalidDate

text \<open>
  Arithmetic on doubles gives the double nearest to the exact result, a tie going to the
  even mantissa. \<open>toDouble\<close> is that rounding of a rational number:

  \<^item> an integer of at most 53 bits is a double (the first case; the general case gives
    the same value there);
  \<^item> otherwise the exponent \<open>e\<close> is that of the binade \<open>2^e \<le> |r| < 2^(e+1)\<close>, and \<open>-1022\<close>
    for the subnormal numbers; the doubles of the binade are the multiples of
    \<open>2^(e-52)\<close>, and \<open>|r|\<close> is rounded to the nearest of them;
  \<^item> the result is infinite from \<open>2^1024\<close> on.
\<close>

function bitLength :: "nat \<Rightarrow> nat" where
  "bitLength n = (if n = 0 then 0 else Suc (bitLength (n div 2)))"
  by pat_completeness auto

termination
  by (relation "measure id") auto

declare bitLength.simps [simp del]

definition floorLog2 :: "rat \<Rightarrow> int" where
  "floorLog2 r =
     (if 1 \<le> r then int (bitLength (nat \<lfloor>r\<rfloor>)) - 1
      else - int (bitLength (nat (\<lceil>1 / r\<rceil> - 1))))"

definition pow2 :: "int \<Rightarrow> rat" where
  "pow2 k = (if 0 \<le> k then 2 ^ nat k else 1 / 2 ^ nat (- k))"

definition roundHalfEven :: "rat \<Rightarrow> int" where
  "roundHalfEven q =
     (if q - of_int \<lfloor>q\<rfloor> < 1 / 2 then \<lfloor>q\<rfloor>
      else if 1 / 2 < q - of_int \<lfloor>q\<rfloor> then \<lfloor>q\<rfloor> + 1
      else if even \<lfloor>q\<rfloor> then \<lfloor>q\<rfloor>
      else \<lfloor>q\<rfloor> + 1)"

definition doubleExponent :: "rat \<Rightarrow> int" where
  "doubleExponent r = max (floorLog2 \<bar>r\<bar>) (- 1022)"

definition doubleMantissa :: "rat \<Rightarrow> int" where
  "doubleMantissa r = roundHalfEven (\<bar>r\<bar> / pow2 (doubleExponent r - 52))"

definition toDouble :: "rat \<Rightarrow> jsnumber" where
  "toDouble r =
     (if of_int \<lfloor>r\<rfloor> = r \<and> \<bar>r\<bar> \<le> 2 ^ 53 then Finite r
      else if doubleExponent r > 1023 \<or> (doubleExponent r = 1023 \<and> doubleMantissa r \<ge> 2 ^ 53)
      then (if 0 < r then PosInfinity else NegInfinity)
      else Finite (sgn r * of_int (doubleMantissa r) * pow2 (doubleExponent r - 52)))"

text \<open>
  An operation \<open>f\<close> with a finite constant that keeps \<^verbatim>\<open>NaN\<close> and the infinities: adding
  or subtracting a constant, multiplying by a positive constant. On a finite operand the
  result is the exact result, rounded.
\<close>

definition doubleOp :: "(rat \<Rightarrow> rat) \<Rightarrow> jsnumber \<Rightarrow> jsnumber" where
  "doubleOp f n = (case n of Finite r \<Rightarrow> toDouble (f r) | other \<Rightarrow> other)"

text \<open>
  The same rounding on integers, for a computation whose values are integers or infinite:
  \<open>2^1024\<close> stands for \<^verbatim>\<open>Infinity\<close> and \<open>-2^1024\<close> for \<^verbatim>\<open>-Infinity\<close>. Every finite double is
  smaller in absolute value, so the encoding keeps the order and the equality of the
  numbers, and the arithmetic below keeps an infinite value infinite. (\<open>toDouble\<close> never
  gives \<^verbatim>\<open>NaN\<close>.)
\<close>

definition roundInteger :: "int \<Rightarrow> int" where
  "roundInteger n =
     (case toDouble (of_int n) of
        Finite r \<Rightarrow> \<lfloor>r\<rfloor>
      | PosInfinity \<Rightarrow> 2 ^ 1024
      | NegInfinity \<Rightarrow> - (2 ^ 1024)
      | NaN \<Rightarrow> 0)"

section \<open>The runtime\<close>

text \<open>
  The value of a cell, a record of a row under the header names, and a row with its
  parsed create date, as the functions below exchange them.
\<close>

datatype cellvalue = Text jsstring | Number jsnumber | Boolean bool

type_synonym rowData = "(jsstring \<times> cellvalue) list"

type_synonym dated = "rowData \<times> jsdate option"

text \<open>
  Library functions of the JavaScript runtime that the program calls and whose code is
  not part of it. They are parameters of the model; every theorem holds for any runtime.
\<close>

record runtime =
  utf8ToString :: "byte list \<Rightarrow> jsstring"
    \<comment> \<open>\<^verbatim>\<open>Buffer.toString('utf8')\<close>\<close>
  inflateRawSync :: "byte list \<Rightarrow> byte list option"
    \<comment> \<open>\<^verbatim>\<open>zlib.inflateRawSync\<close>; \<open>None\<close> when it throws\<close>
  toNumber :: "jsstring \<Rightarrow> jsnumber"
    \<comment> \<open>\<^verbatim>\<open>Number(s)\<close> on a string\<close>
  numberToString :: "jsnumber \<Rightarrow> jsstring"
    \<comment> \<open>\<^verbatim>\<open>String(n)\<close> on a number\<close>
  toLowerCase :: "jsstring \<Rightarrow> jsstring"
    \<comment> \<open>\<^verbatim>\<open>s.toLowerCase()\<close>\<close>
  dateParse :: "jsstring \<Rightarrow> jsdate"
    \<comment> \<open>\<^verbatim>\<open>new Date(s)\<close> on a string; invalid when \<^verbatim>\<open>Date.parse(s)\<close> is \<^verbatim>\<open>NaN\<close>\<close>
  getFullYear :: "int \<Rightarrow> int"
    \<comment> \<open>\<^verbatim>\<open>getFullYear()\<close> of a valid time value: the year in the local time zone\<close>
  formatInTimeZone :: "int \<Rightarrow> jsstring \<Rightarrow> jsstring"
    \<comment> \<open>\<^verbatim>\<open>formatDateInTimezone(date, timeZone)\<close> of the source on a valid time value:
        \<^verbatim>\<open>Intl.DateTimeFormat\<close> rendered as \<^verbatim>\<open>MM/DD/YYYY HH:MM:SS\<close>\<close>
  formatLocal :: "int \<Rightarrow> jsstring"
    \<comment> \<open>the same rendering from \<^verbatim>\<open>getMonth()\<close>, \<^verbatim>\<open>getDate()\<close>, ... in the local time zone\<close>
  upperCharCode :: "jsstring \<Rightarrow> nat"
    \<comment> \<open>\<^verbatim>\<open>ch.toUpperCase().charCodeAt(0)\<close> on a non-empty string: the first code unit of
        its upper-case form, which is not empty\<close>
  sortRows :: "(dated \<Rightarrow> dated \<Rightarrow> jsnumber) \<Rightarrow> dated list \<Rightarrow> dated list"
    \<comment> \<open>\<^verbatim>\<open>rows.sort(compare)\<close>: \<^verbatim>\<open>Array.prototype.sort\<close> with a comparator, whose result is
        left to the implementation when the comparator is not a consistent order\<close>

section \<open>Column letters\<close>

text \<open>
  \<^verbatim>\<open>for (const char of letters)\<close> steps over the code points of a string: a high
  surrogate followed by a low surrogate is one step of two code units, every other code
  unit is a step of its own.
\<close>

definition isHighSurrogate :: "jschar \<Rightarrow> bool" where
  "isHighSurrogate c \<longleftrightarrow> 0xD800 \<le> c \<and> c \<le> 0xDBFF"

definition isLowSurrogate :: "jschar \<Rightarrow> bool" where
  "isLowSurrogate c \<longleftrightarrow> 0xDC00 \<le> c \<and> c \<le> 0xDFFF"

fun codePoints :: "jsstring \<Rightarrow> jsstring list" where
  "codePoints [] = []"
| "codePoints [c] = [[c]]"
| "codePoints (c # d # cs) =
     (if isHighSurrogate c \<and> isLowSurrogate d then [c, d] # codePoints cs
      else [c] # codePoints (d # cs))"

text \<open>
  \<^verbatim>\<open>char.toUpperCase().charCodeAt(0)\<close>. On an ASCII character \<^verbatim>\<open>toUpperCase\<close> maps the
  letters a to z to A to Z and leaves every other character unchanged; outside ASCII it
  follows the Unicode tables, and the code is the runtime's.
\<close>

definition toUpperCaseUnit :: "jschar \<Rightarrow> jschar" where
  "toUpperCaseUnit c = (if 97 \<le> c \<and> c \<le> 122 then c - 32 else c)"

definition upperCode :: "runtime \<Rightarrow> jsstring \<Rightarrow> int" where
  "upperCode R ch =
     (case ch of
        [c] \<Rightarrow> if c < 128 then int (unat (toUpperCaseUnit c)) else int (upperCharCode R ch)
      | _ \<Rightarrow> int (upperCharCode R ch))"

text \<open>The digit of one letter: \<^verbatim>\<open>char.toUpperCase().charCodeAt(0) - 64\<close>.\<close>

definition letterDigit :: "runtime \<Rightarrow> jsstring \<Rightarrow> int" where
  "letterDigit R ch = upperCode R ch - 64"

text \<open>
  \<^verbatim>\<open>
  function columnLettersToIndex(letters) {
    let index = 0;
    for (const char of letters) {
      index = index * 26 + (char.toUpperCase().charCodeAt(0) - 64);
    }
    return index;
  }\<close>
  \<^verbatim>\<open>index\<close> is a double: the product is rounded, then the sum. Both are exact as long as
  the index stays below \<open>2^53\<close>, which it does up to eleven letters. An index that
  overflows the doubles is \<^verbatim>\<open>Infinity\<close>, which \<open>roundInteger\<close> gives as \<open>2^1024\<close>.
\<close>

definition columnLettersToIndex :: "runtime \<Rightarrow> jsstring \<Rightarrow> int" where
  "columnLettersToIndex R letters =
     foldl (\<lambda>index ch. roundInteger (roundInteger (index * 26) + letterDigit R ch)) 0
       (codePoints letters)"

section \<open>The archive index\<close>

text \<open>Exceptions propagate: the first failing step decides the result.\<close>

definition bind :: "error + 'a \<Rightarrow> ('a \<Rightarrow> error + 'b) \<Rightarrow> error + 'b" where
  "bind m f = (case m of Inl e \<Rightarrow> Inl e | Inr x \<Rightarrow> f x)"

text \<open>
  \<^verbatim>\<open>buffer.readUInt16LE(off)\<close> and \<^verbatim>\<open>buffer.readUInt32LE(off)\<close>: little-endian reads, which
  throw a \<^verbatim>\<open>RangeError\<close> when the bytes are not all inside the buffer. Every offset of
  the program is a sum of unsigned fields, hence a natural number.
\<close>

definition le16 :: "byte list \<Rightarrow> nat \<Rightarrow> nat" where
  "le16 buf off = unat (buf ! off) + 256 * unat (buf ! (off + 1))"

definition le32 :: "byte list \<Rightarrow> nat \<Rightarrow> nat" where
  "le32 buf off = unat (buf ! off) + 256 * unat (buf ! (off + 1))
     + 65536 * unat (buf ! (off + 2)) + 16777216 * unat (buf ! (off + 3))"

definition readUInt16LE :: "byte list \<Rightarrow> nat \<Rightarrow> error + nat" where
  "readUInt16LE buf off = (if off + 2 \<le> length buf then Inr (le16 buf off) else Inl RangeError)"

definition readUInt32LE :: "byte list \<Rightarrow> nat \<Rightarrow> error + nat" where
  "readUInt32LE buf off = (if off + 4 \<le> length buf then Inr (le32 buf off) else Inl RangeError)"

text \<open>\<^verbatim>\<open>buffer.slice(start, end)\<close> for \<open>start \<le> end\<close>: clamped to the buffer, never an error.\<close>

definition slice :: "byte list \<Rightarrow> nat \<Rightarrow> nat \<Rightarrow> byte list" where
  "slice buf start end' = take (end' - start) (drop start buf)"

record entry =
  compressionMethod :: nat
  compressedSize :: nat
  uncompressedSize :: nat
  localHeaderOffset :: nat

record zipData =
  buffer :: "byte list"
  entries :: "jsstring \<rightharpoonup> entry"

text \<open>
  The backward scan for the end-of-central-directory record:
  \<^verbatim>\<open>
  for (let i = buffer.length - 22; i >= 0; i -= 1) {
    if (buffer.readUInt32LE(i) === eocdSignature) { eocdOffset = i; break; }
  }\<close>
  \<open>scanEocd buf i\<close> is the loop from \<open>i\<close> downwards; \<open>None\<close> is \<^verbatim>\<open>eocdOffset === -1\<close>.
\<close>

fun scanEocd :: "byte list \<Rightarrow> nat \<Rightarrow> error + nat option" where
  "scanEocd buf i =
     bind (readUInt32LE buf i) (\<lambda>v.
       if v = 0x06054b50 then Inr (Some i)
       else (case i of 0 \<Rightarrow> Inr None | Suc j \<Rightarrow> scanEocd buf j))"

definition locateEocd :: "byte list \<Rightarrow> error + nat option" where
  "locateEocd buf = (if length buf < 22 then Inr None else scanEocd buf (length buf - 22))"

text \<open>
  The loop over the central directory, \<open>n\<close> headers still to read from \<open>offset\<close>:
  \<^verbatim>\<open>
  for (let i = 0; i < totalEntries; i += 1) {
    const signature = buffer.readUInt32LE(offset);
    if (signature !== 0x02014b50) throw new Error(...);
    const compressionMethod = buffer.readUInt16LE(offset + 10);
    const compressedSize = buffer.readUInt32LE(offset + 20);
    const uncompressedSize = buffer.readUInt32LE(offset + 24);
    const fileNameLength = buffer.readUInt16LE(offset + 28);
    const extraLength = buffer.readUInt16LE(offset + 30);
    const commentLength = buffer.readUInt16LE(offset + 32);
    const localHeaderOffset = buffer.readUInt32LE(offset + 42);
    const fileName = buffer.slice(offset + 46, offset + 46 + fileNameLength).toString('utf8');
    entries.set(fileName, {...});
    offset += 46 + fileNameLength + extraLength + commentLength;
  }\<close>
\<close>

fun readCentralDirectory ::
  "runtime \<Rightarrow> byte list \<Rightarrow> nat \<Rightarrow> nat \<Rightarrow> (jsstring \<rightharpoonup> entry) \<Rightarrow> error + (jsstring \<rightharpoonup> entry)"
where
  "readCentralDirectory R buf offset 0 es = Inr es"
| "readCentralDirectory R buf offset (Suc n) es =
     bind (readUInt32LE buf offset) (\<lambda>signature.
     if signature \<noteq> 0x02014b50 then Inl CentralDirectoryError
     else
       bind (readUInt16LE buf (offset + 10)) (\<lambda>method.
       bind (readUInt32LE buf (offset + 20)) (\<lambda>csize.
       bind (readUInt32LE buf (offset + 24)) (\<lambda>usize.
       bind (readUInt16LE buf (offset + 28)) (\<lambda>fileNameLength.
       bind (readUInt16LE buf (offset + 30)) (\<lambda>extraLength.
       bind (readUInt16LE buf (offset + 32)) (\<lambda>commentLength.
       bind (readUInt32LE buf (offset + 42)) (\<lambda>lho.
         let fileName = utf8ToString R (slice buf (offset + 46) (offset + 46 + fileNameLength))
         in readCentralDirectory R buf
              (offset + (46 + fileNameLength + extraLength + commentLength)) n
              (es(fileName \<mapsto>
                 \<lparr>compressionMethod = method, compressedSize = csize,
                  uncompressedSize = usize, localHeaderOffset = lho\<rparr>))))))))))"

text \<open>
  \<^verbatim>\<open>readZipEntries(filePath)\<close>, on the bytes of the file (\<^verbatim>\<open>fs.readFileSync\<close>).
\<close>

definition readZipEntries :: "runtime \<Rightarrow> byte list \<Rightarrow> error + zipData" where
  "readZipEntries R buf =
     bind (locateEocd buf) (\<lambda>found.
     case found of
       None \<Rightarrow> Inl ArchiveFormatError
     | Some eocdOffset \<Rightarrow>
         bind (readUInt32LE buf (eocdOffset + 16)) (\<lambda>centralDirectoryOffset.
         bind (readUInt16LE buf (eocdOffset + 10)) (\<lambda>totalEntries.
         bind (readCentralDirectory R buf centralDirectoryOffset totalEntries Map.empty) (\<lambda>es.
         Inr \<lparr>buffer = buf, entries = es\<rparr>))))"

section \<open>Extracting one entry\<close>

text \<open>
  \<^verbatim>\<open>
  function extractZipEntry(zipData, entryName) {
    const entry = zipData.entries.get(entryName);
    if (!entry) throw new Error(`Entry not found in archive: ...`);
    const headerOffset = entry.localHeaderOffset;
    const signature = zipData.buffer.readUInt32LE(headerOffset);
    if (signature !== 0x04034b50) throw new Error(`Invalid local file header ...`);
    const fileNameLength = zipData.buffer.readUInt16LE(headerOffset + 26);
    const extraLength = zipData.buffer.readUInt16LE(headerOffset + 28);
    const dataStart = headerOffset + 30 + fileNameLength + extraLength;
    const compressedData = zipData.buffer.slice(dataStart, dataStart + entry.compressedSize);
    if (entry.compressionMethod === 0) return compressedData;
    if (entry.compressionMethod === 8) return zlib.inflateRawSync(compressedData);
    throw new Error(`Unsupported compression method ...`);
  }\<close>
\<close>

definition extractZipEntry :: "runtime \<Rightarrow> zipData \<Rightarrow> jsstring \<Rightarrow> error + byte list" where
  "extractZipEntry R z entryName =
     (case entries z entryName of
        None \<Rightarrow> Inl EntryNotFound
      | Some e \<Rightarrow>
          let headerOffset = localHeaderOffset e in
          bind (readUInt32LE (buffer z) headerOffset) (\<lambda>signature.
          if signature \<noteq> 0x04034b50 then Inl LocalHeaderError
          else
            bind (readUInt16LE (buffer z) (headerOffset + 26)) (\<lambda>fileNameLength.
            bind (readUInt16LE (buffer z) (headerOffset + 28)) (\<lambda>extraLength.
              let dataStart = headerOffset + 30 + fileNameLength + extraLength;
                  compressedData = slice (buffer z) dataStart (dataStart + compressedSize e)
              in if compressionMethod e = 0 then Inr compressedData
                 else if compressionMethod e = 8 then
                   (case inflateRawSync R compressedData of
                      None \<Rightarrow> Inl InflateError
                    | Some d \<Rightarrow> Inr d)
                 else Inl UnsupportedCompression))))"

section \<open>The layout of the central directory\<close>

text \<open>
  The offsets that the loop over the central directory visits, as the headers declare
  them: each header is 46 bytes plus its name, extra field and comment. The list stops
  at a header that does not lie inside the buffer. \<open>centralHeaderName\<close> is the name
  stored in the header at an offset.
\<close>

fun centralHeaderOffsets :: "byte list \<Rightarrow> nat \<Rightarrow> nat \<Rightarrow> nat list" where
  "centralHeaderOffsets buf off 0 = []"
| "centralHeaderOffsets buf off (Suc n) =
     off # (if off + 46 \<le> length buf
            then centralHeaderOffsets buf
                   (off + (46 + le16 buf (off + 28) + le16 buf (off + 30) + le16 buf (off + 32))) n
            else [])"

definition centralHeaderName :: "runtime \<Rightarrow> byte list \<Rightarrow> nat \<Rightarrow> jsstring" where
  "centralHeaderName R buf off =
     utf8ToString R (take (le16 buf (off + 28)) (drop (off + 46) buf))"

section \<open>Scanning text\<close>

text \<open>
  The program reads XML with regular expressions. Each expression of the source is a
  function here that scans the way the backtracking matcher of JavaScript does:
  leftmost match first, a greedy class taking the longest run, a lazy
  \<^verbatim>\<open>[\s\S]*?\<close> stopping at the first place where the rest of the expression matches.

  \<open>splitOn pat s\<close> finds the first occurrence of \<open>pat\<close> in \<open>s\<close> and returns the text before
  it and the text after it.
\<close>

fun splitOn :: "'a list \<Rightarrow> 'a list \<Rightarrow> ('a list \<times> 'a list) option" where
  "splitOn pat [] = (if pat = [] then Some ([], []) else None)"
| "splitOn pat (c # cs) =
     (if prefix pat (c # cs) then Some ([], drop (length pat) (c # cs))
      else map_option (\<lambda>(before, after). (c # before, after)) (splitOn pat cs))"

lemma splitOn_length:
  "splitOn pat s = Some (before, after) \<Longrightarrow> length before + length pat + length after = length s"
proof (induction s arbitrary: before)
  case Nil
  then show ?case by (auto split: if_splits)
next
  case (Cons c cs)
  show ?case
  proof (cases "prefix pat (c # cs)")
    case True
    then have "length pat \<le> length (c # cs)" by (rule prefix_length_le)
    then show ?thesis using Cons.prems True by auto
  next
    case False
    then obtain b where "splitOn pat cs = Some (b, after)" "before = c # b"
      using Cons.prems by auto
    then show ?thesis using Cons.IH[of b] by simp
  qed
qed

text \<open>
  \<^verbatim>\<open>value.replace(/pat/g, rep)\<close> for a literal pattern: every occurrence, left to right,
  without overlaps.
\<close>

fun replaceAll :: "jsstring \<Rightarrow> jsstring \<Rightarrow> jsstring \<Rightarrow> jsstring" where
  "replaceAll pat rep [] = []"
| "replaceAll pat rep (c # cs) =
     (if pat \<noteq> [] \<and> prefix pat (c # cs)
      then rep @ replaceAll pat rep (drop (length pat - 1) cs)
      else c # replaceAll pat rep cs)"

text \<open>
  Numeric entities: \<^verbatim>\<open>.replace(/&#x([0-9a-fA-F]+);/g, (_, hex) => String.fromCharCode(parseInt(hex, 16)))\<close>
  and \<^verbatim>\<open>.replace(/&#(\d+);/g, (_, num) => String.fromCharCode(parseInt(num, 10)))\<close>.
  The digits are the longest run after the introducer and must be followed by \<open>;\<close>.
  \<^verbatim>\<open>String.fromCharCode\<close> keeps the low 16 bits of the number. \<open>parseInt\<close> is exact here;
  JavaScript rounds a number of more than 53 bits before \<^verbatim>\<open>fromCharCode\<close> sees it.
\<close>

definition isDigit :: "jschar \<Rightarrow> bool" where
  "isDigit c \<longleftrightarrow> 48 \<le> c \<and> c \<le> 57"

definition isHexDigit :: "jschar \<Rightarrow> bool" where
  "isHexDigit c \<longleftrightarrow> isDigit c \<or> (65 \<le> c \<and> c \<le> 70) \<or> (97 \<le> c \<and> c \<le> 102)"

definition digitValue :: "jschar \<Rightarrow> nat" where
  "digitValue c = (if isDigit c then unat c - 48
                   else if 97 \<le> c then unat c - 87 else unat c - 55)"

definition parseInt :: "nat \<Rightarrow> jsstring \<Rightarrow> nat" where
  "parseInt radix digits = foldl (\<lambda>n c. n * radix + digitValue c) 0 digits"

definition fromCharCode :: "nat \<Rightarrow> jsstring" where
  "fromCharCode n = [of_nat n]"

definition entityDigits :: "jsstring \<Rightarrow> (jschar \<Rightarrow> bool) \<Rightarrow> jsstring \<Rightarrow> jsstring" where
  "entityDigits intro isDig s = takeWhile isDig (drop (length intro) s)"

definition entityRest :: "jsstring \<Rightarrow> (jschar \<Rightarrow> bool) \<Rightarrow> jsstring \<Rightarrow> jsstring" where
  "entityRest intro isDig s = dropWhile isDig (drop (length intro) s)"

lemma entityRest_shorter:
  "prefix [x] (entityRest intro isDig (c # cs)) \<Longrightarrow>
   length (entityRest intro isDig (c # cs)) - Suc 0 < Suc (length cs)"
proof -
  assume p: "prefix [x] (entityRest intro isDig (c # cs))"
  then have ne: "entityRest intro isDig (c # cs) \<noteq> []" by auto
  have "length (entityRest intro isDig (c # cs)) \<le> length (drop (length intro) (c # cs))"
    unfolding entityRest_def by (rule length_dropWhile_le)
  then have "length (entityRest intro isDig (c # cs)) \<le> Suc (length cs)" by simp
  then show ?thesis using ne by (cases "entityRest intro isDig (c # cs)") auto
qed

function replaceNumeric :: "jsstring \<Rightarrow> (jschar \<Rightarrow> bool) \<Rightarrow> nat \<Rightarrow> jsstring \<Rightarrow> jsstring" where
  "replaceNumeric intro isDig radix [] = []"
| "replaceNumeric intro isDig radix (c # cs) =
     (if prefix intro (c # cs) \<and> entityDigits intro isDig (c # cs) \<noteq> []
         \<and> prefix (js '';'') (entityRest intro isDig (c # cs))
      then fromCharCode (parseInt radix (entityDigits intro isDig (c # cs)))
           @ replaceNumeric intro isDig radix (tl (entityRest intro isDig (c # cs)))
      else c # replaceNumeric intro isDig radix cs)"
  by pat_completeness auto
termination
  by (relation "measure (\<lambda>(intro, isDig, radix, s). length s)")
     (auto simp: entityRest_shorter)

text \<open>
  \<^verbatim>\<open>
  function decodeXmlEntities(value) {
    if (!value) return '';
    return value
      .replace(/&amp;/g, '&')
      .replace(/&lt;/g, '<')
      .replace(/&gt;/g, '>')
      .replace(/&quot;/g, '"')
      .replace(/&apos;/g, "'")
      .replace(/&#x([0-9a-fA-F]+);/g, (_, hex) => String.fromCharCode(parseInt(hex, 16)))
      .replace(/&#(\d+);/g, (_, num) => String.fromCharCode(parseInt(num, 10)));
  }\<close>
  The replacements run one after the other, each over the result of the one before.
\<close>

definition decodeXmlEntities :: "jsstring \<Rightarrow> jsstring" where
  "decodeXmlEntities v =
     (if v = [] then []
      else replaceNumeric (js ''&#'') isDigit 10
          (replaceNumeric (js ''&#x'') isHexDigit 16
          (replaceAll (js ''&apos;'') (js [CHR 0x27])
          (replaceAll (js ''&quot;'') (js [CHR 0x22])
          (replaceAll (js ''&gt;'') (js ''>'')
          (replaceAll (js ''&lt;'') (js ''<'')
          (replaceAll (js ''&amp;'') (js ''&'') v)))))))"

text \<open>
  An expression of the shape \<^verbatim>\<open><name[^>]*>([\s\S]*?)</name>\<close>: the first occurrence of the
  opening text, the first \<open>>\<close> after it, and the first occurrence of the closing text after
  that; the result is the captured text and the text after the match. When this fails at
  the first opening text, it fails at every later one too (the \<open>>\<close> and the closing text
  found from a later start lie no earlier), so the leftmost match is this one.
\<close>

definition matchElement :: "jsstring \<Rightarrow> jsstring \<Rightarrow> jsstring \<Rightarrow> (jsstring \<times> jsstring) option" where
  "matchElement opening closing s =
     (case splitOn opening s of
        None \<Rightarrow> None
      | Some (_, r1) \<Rightarrow>
          (case splitOn (js ''>'') r1 of
             None \<Rightarrow> None
           | Some (_, r2) \<Rightarrow>
               (case splitOn closing r2 of
                  None \<Rightarrow> None
                | Some (content, rest) \<Rightarrow> Some (content, rest))))"

lemma matchElement_shorter:
  "matchElement opening closing s = Some (content, rest) \<Longrightarrow> length rest < length s"
  by (auto simp: matchElement_def js_def split: option.splits dest!: splitOn_length)

text \<open>All matches of such an expression with the \<^verbatim>\<open>g\<close> flag, each search starting
  where the match before ended.\<close>

function matchAllElements :: "jsstring \<Rightarrow> jsstring \<Rightarrow> jsstring \<Rightarrow> jsstring list" where
  "matchAllElements opening closing s =
     (case matchElement opening closing s of
        None \<Rightarrow> []
      | Some (content, rest) \<Rightarrow> content # matchAllElements opening closing rest)"
  by pat_completeness auto
termination
  by (relation "measure (\<lambda>(opening, closing, s). length s)") (auto dest: matchElement_shorter)

section \<open>The shared-string table\<close>

text \<open>
  \<^verbatim>\<open>
  const siRegex = /<si>([\s\S]*?)<\/si>/g;
  while ((match = siRegex.exec(xml)) !== null) { ... match[1] ... }\<close>
\<close>

function siMatches :: "jsstring \<Rightarrow> jsstring list" where
  "siMatches xml =
     (case splitOn (js ''<si>'') xml of
        None \<Rightarrow> []
      | Some (_, r) \<Rightarrow>
          (case splitOn (js ''</si>'') r of
             None \<Rightarrow> []
           | Some (siContent, rest) \<Rightarrow> siContent # siMatches rest))"
  by pat_completeness auto
termination
  by (relation "measure length") (auto dest!: splitOn_length)

text \<open>\<^verbatim>\<open>[...siContent.matchAll(/<t[^>]*>([\s\S]*?)<\/t>/g)]\<close>, the captured texts.\<close>

definition textRuns :: "jsstring \<Rightarrow> jsstring list" where
  "textRuns s = matchAllElements (js ''<t'') (js ''</t>'') s"

text \<open>
  \<^verbatim>\<open>
  function parseSharedStrings(zipData) {
    let xml;
    try {
      xml = extractZipEntry(zipData, 'xl/sharedStrings.xml').toString('utf8');
    } catch (error) {
      return [];
    }
    const strings = [];
    ... for every match of siRegex:
      const textMatches = [...siContent.matchAll(/<t[^>]*>([\s\S]*?)<\/t>/g)];
      const combined = textMatches.map(textMatch => decodeXmlEntities(textMatch[1])).join('');
      strings.push(combined);
    return strings;
  }\<close>
\<close>

definition combineRuns :: "jsstring \<Rightarrow> jsstring" where
  "combineRuns siContent = concat (map decodeXmlEntities (textRuns siContent))"

definition parseSharedStrings :: "runtime \<Rightarrow> zipData \<Rightarrow> error + jsstring list" where
  "parseSharedStrings R z =
     (case extractZipEntry R z (js ''xl/sharedStrings.xml'') of
        Inl e \<Rightarrow> Inr []
      | Inr bytes \<Rightarrow> Inr (map combineRuns (siMatches (utf8ToString R bytes))))"

section \<open>Cell values\<close>

text \<open>
  What \<^verbatim>\<open>parseCellValue\<close> returns is a \<open>cellvalue\<close>: a string, a number or a boolean.
\<close>

definition dquote :: jschar where
  "dquote = 0x22"

text \<open>
  \<^verbatim>\<open>cellXml.match(/t="([^"]+)"/)\<close>: the first place where \<^verbatim>\<open>t="\<close> is followed by a non-empty
  run without quotes and a closing quote; the result is the run.
\<close>

fun typeMatch :: "jsstring \<Rightarrow> jsstring option" where
  "typeMatch [] = None"
| "typeMatch (c # cs) =
     (if prefix (js ''t='' @ [dquote]) (c # cs)
         \<and> takeWhile (\<lambda>x. x \<noteq> dquote) (drop 3 (c # cs)) \<noteq> []
         \<and> prefix [dquote] (dropWhile (\<lambda>x. x \<noteq> dquote) (drop 3 (c # cs)))
      then Some (takeWhile (\<lambda>x. x \<noteq> dquote) (drop 3 (c # cs)))
      else typeMatch cs)"

text \<open>
  \<^verbatim>\<open>cellXml.match(/r="([A-Z]+)\d+"/)\<close>: the first place where \<^verbatim>\<open>r="\<close> is followed by a
  non-empty run of capital letters, a non-empty run of digits and a quote; the result is
  the letters.
\<close>

definition isUpper :: "jschar \<Rightarrow> bool" where
  "isUpper c \<longleftrightarrow> 65 \<le> c \<and> c \<le> 90"

fun refMatch :: "jsstring \<Rightarrow> jsstring option" where
  "refMatch [] = None"
| "refMatch (c # cs) =
     (if prefix (js ''r='' @ [dquote]) (c # cs)
         \<and> takeWhile isUpper (drop 3 (c # cs)) \<noteq> []
         \<and> takeWhile isDigit (dropWhile isUpper (drop 3 (c # cs))) \<noteq> []
         \<and> prefix [dquote] (dropWhile isDigit (dropWhile isUpper (drop 3 (c # cs))))
      then Some (takeWhile isUpper (drop 3 (c # cs)))
      else refMatch cs)"

text \<open>
  \<^verbatim>\<open>cellXml.match(/<is>[\s\S]*?<t[^>]*>([\s\S]*?)<\/t>[\s\S]*?<\/is>/)\<close>: after the first
  \<^verbatim>\<open><is>\<close>, the first text element, which must be followed by \<^verbatim>\<open></is>\<close> somewhere.
\<close>

definition inlineMatch :: "jsstring \<Rightarrow> jsstring option" where
  "inlineMatch cellXml =
     (case splitOn (js ''<is>'') cellXml of
        None \<Rightarrow> None
      | Some (_, r) \<Rightarrow>
          (case matchElement (js ''<t'') (js ''</t>'') r of
             None \<Rightarrow> None
           | Some (content, rest) \<Rightarrow>
               (case splitOn (js ''</is>'') rest of
                  None \<Rightarrow> None
                | Some _ \<Rightarrow> Some content)))"

text \<open>
  \<^verbatim>\<open>sharedStrings[n]\<close> for a number \<open>n\<close>: the element when \<open>n\<close> is an integer inside the
  array, \<^verbatim>\<open>undefined\<close> otherwise.
\<close>

definition isInteger :: "jsnumber \<Rightarrow> bool" where
  "isInteger n = (case n of Finite r \<Rightarrow> of_int \<lfloor>r\<rfloor> = r | _ \<Rightarrow> False)"

definition arrayGet :: "'a list \<Rightarrow> jsnumber \<Rightarrow> 'a option" where
  "arrayGet xs n =
     (case n of
        Finite r \<Rightarrow>
          if of_int \<lfloor>r\<rfloor> = r \<and> 0 \<le> r \<and> nat \<lfloor>r\<rfloor> < length xs then Some (xs ! nat \<lfloor>r\<rfloor>)
          else None
      | _ \<Rightarrow> None)"

text \<open>
  \<^verbatim>\<open>
  function parseCellValue(cellXml, sharedStrings) {
    const typeMatch = cellXml.match(/t="([^"]+)"/);
    const type = typeMatch ? typeMatch[1] : null;
    const valueMatch = cellXml.match(/<v[^>]*>([\s\S]*?)<\/v>/);
    if (type === 'inlineStr') {
      const inlineMatch = cellXml.match(...);
      return inlineMatch ? decodeXmlEntities(inlineMatch[1]) : '';
    }
    if (!valueMatch) return '';
    const rawValue = valueMatch[1];
    if (rawValue === '') return '';
    if (type === 's') return sharedStrings[Number(rawValue)] || '';
    if (type === 'b') return rawValue === '1';
    if (type === 'str') return decodeXmlEntities(rawValue);
    const numeric = Number(rawValue);
    if (!Number.isNaN(numeric)) return Number.isInteger(numeric) ? Number(rawValue) : numeric;
    return decodeXmlEntities(rawValue);
  }\<close>
\<close>

definition valueMatch :: "jsstring \<Rightarrow> jsstring option" where
  "valueMatch cellXml = map_option fst (matchElement (js ''<v'') (js ''</v>'') cellXml)"

definition parseCellValue :: "runtime \<Rightarrow> jsstring \<Rightarrow> jsstring list \<Rightarrow> cellvalue" where
  "parseCellValue R cellXml sharedStrings =
     (if typeMatch cellXml = Some (js ''inlineStr'') then
        (case inlineMatch cellXml of
           Some t \<Rightarrow> Text (decodeXmlEntities t)
         | None \<Rightarrow> Text [])
      else
        (case valueMatch cellXml of
           None \<Rightarrow> Text []
         | Some rawValue \<Rightarrow>
             if rawValue = [] then Text []
             else if typeMatch cellXml = Some (js ''s'') then
               (case arrayGet sharedStrings (toNumber R rawValue) of
                  None \<Rightarrow> Text []
                | Some s \<Rightarrow> Text s)
             else if typeMatch cellXml = Some (js ''b'') then Boolean (rawValue = js ''1'')
             else if typeMatch cellXml = Some (js ''str'') then Text (decodeXmlEntities rawValue)
             else
               (case toNumber R rawValue of
                  NaN \<Rightarrow> Text (decodeXmlEntities rawValue)
                | n \<Rightarrow> Number n)))"

section \<open>Rows and records\<close>

text \<open>
  The rows of a sheet, \<^verbatim>\<open>/<row[^>]*?>([\s\S]*?)<\/row>/g\<close>, and the cells of a row,
  \<^verbatim>\<open>/<c[^>]*?(?:\/>|>\s*[\s\S]*?<\/c>)/g\<close>. A cell match starts at \<^verbatim>\<open><c\<close> and runs to the
  first \<open>>\<close>: when a \<open>/\<close> stands right before that \<open>>\<close> the cell is self-closing and ends
  there, otherwise it ends with the first \<^verbatim>\<open></c>\<close> after it. Where neither is found the
  search goes on behind that \<^verbatim>\<open><c\<close>.
\<close>

definition rowMatches :: "jsstring \<Rightarrow> jsstring list" where
  "rowMatches sheetXml = matchAllElements (js ''<row'') (js ''</row>'') sheetXml"

definition matchCellTail :: "jsstring \<Rightarrow> (jsstring \<times> jsstring) option" where
  "matchCellTail r =
     (let attrs = takeWhile (\<lambda>x. x \<noteq> 0x3E) r;
          r1 = dropWhile (\<lambda>x. x \<noteq> 0x3E) r
      in if r1 = [] then None
         else if attrs \<noteq> [] \<and> last attrs = 0x2F then Some (attrs @ js ''>'', tl r1)
         else (case splitOn (js ''</c>'') (tl r1) of
                 None \<Rightarrow> None
               | Some (content, rest) \<Rightarrow> Some (attrs @ js ''>'' @ content @ js ''</c>'', rest)))"

lemma matchCellTail_shorter:
  "matchCellTail r = Some (t, rest) \<Longrightarrow> length rest < length r"
proof -
  assume m: "matchCellTail r = Some (t, rest)"
  let ?r1 = "dropWhile (\<lambda>x. x \<noteq> 0x3E) r"
  have ne: "?r1 \<noteq> []" using m by (auto simp: matchCellTail_def Let_def split: if_splits)
  have "length ?r1 \<le> length r" by (rule length_dropWhile_le)
  then have tl: "length (tl ?r1) < length r" using ne by (cases ?r1) auto
  have "length rest \<le> length (tl ?r1)"
    using m
    by (auto simp: matchCellTail_def Let_def split: if_splits option.splits dest!: splitOn_length)
  then show ?thesis using tl by simp
qed

function cellMatches :: "jsstring \<Rightarrow> jsstring list" where
  "cellMatches s =
     (case splitOn (js ''<c'') s of
        None \<Rightarrow> []
      | Some (_, r) \<Rightarrow>
          (case matchCellTail r of
             Some (t, rest) \<Rightarrow> (js ''<c'' @ t) # cellMatches rest
           | None \<Rightarrow> cellMatches r))"
  by pat_completeness auto
termination
  by (relation "measure length")
     (auto dest!: splitOn_length dest: matchCellTail_shorter)

text \<open>
  The \<^verbatim>\<open>Map\<close> of one row, from column index to value, in insertion order; a second cell
  with the same index replaces the value of the first:
  \<^verbatim>\<open>
  const refMatch = cellXml.match(/r="([A-Z]+)\d+"/);
  if (!refMatch) continue;
  const columnIndex = columnLettersToIndex(refMatch[1]);
  rowMap.set(columnIndex, parseCellValue(cellXml, sharedStrings));\<close>
  A key is the number that \<open>columnLettersToIndex\<close> returns.
\<close>

type_synonym rowMap = "(int \<times> cellvalue) list"

definition rowCells :: "runtime \<Rightarrow> jsstring list \<Rightarrow> jsstring \<Rightarrow> rowMap" where
  "rowCells R sharedStrings rowContent =
     foldl (\<lambda>m cellXml.
              case refMatch cellXml of
                None \<Rightarrow> m
              | Some letters \<Rightarrow>
                  AList.update (columnLettersToIndex R letters)
                    (parseCellValue R cellXml sharedStrings) m)
       [] (cellMatches rowContent)"

text \<open>
  The header row:
  \<^verbatim>\<open>
  headers = [];
  for (const key of Array.from(rowMap.keys()).sort((a, b) => a - b)) {
    headers.push(rowMap.get(key));
  }\<close>
\<close>

definition headerRow :: "rowMap \<Rightarrow> cellvalue list" where
  "headerRow m = map (\<lambda>k. the (map_of m k)) (sort (map fst m))"

text \<open>
  \<^verbatim>\<open>!header\<close> and \<^verbatim>\<open>String(header)\<close> on a cell value. A record is a plain object, modelled
  as the list of its own properties in insertion order (JavaScript enumerates the
  properties named by array indices before the others; the list does not show that).
  Assigning a string, number or boolean to \<^verbatim>\<open>__proto__\<close> of a plain object creates no
  property.
\<close>

definition truthy :: "cellvalue \<Rightarrow> bool" where
  "truthy v =
     (case v of
        Text s \<Rightarrow> s \<noteq> []
      | Number n \<Rightarrow> (case n of NaN \<Rightarrow> False | Finite r \<Rightarrow> r \<noteq> 0 | _ \<Rightarrow> True)
      | Boolean b \<Rightarrow> b)"

definition toString :: "runtime \<Rightarrow> cellvalue \<Rightarrow> jsstring" where
  "toString R v =
     (case v of
        Text s \<Rightarrow> s
      | Number n \<Rightarrow> numberToString R n
      | Boolean b \<Rightarrow> (if b then js ''true'' else js ''false''))"

definition setProperty :: "jsstring \<Rightarrow> cellvalue \<Rightarrow> rowData \<Rightarrow> rowData" where
  "setProperty k v obj = (if k = js ''__proto__'' then obj else AList.update k v obj)"

text \<open>
  \<^verbatim>\<open>
  const rowData = {};
  headers.forEach((header, index) => {
    if (!header) return;
    rowData[String(header)] = rowMap.get(index + 1) ?? '';
  });\<close>
  \<open>recordStep\<close> is the callback, applied to the record so far and one header with its
  position in \<open>headers\<close>.
\<close>

definition cellAt :: "rowMap \<Rightarrow> nat \<Rightarrow> cellvalue" where
  "cellAt m index = (case map_of m (int index + 1) of None \<Rightarrow> Text [] | Some v \<Rightarrow> v)"

definition recordStep :: "runtime \<Rightarrow> rowMap \<Rightarrow> rowData \<Rightarrow> cellvalue \<times> nat \<Rightarrow> rowData" where
  "recordStep R m rowData hi =
     (if \<not> truthy (fst hi) then rowData
      else setProperty (toString R (fst hi)) (cellAt m (snd hi)) rowData)"

definition rowRecord :: "runtime \<Rightarrow> cellvalue list \<Rightarrow> rowMap \<Rightarrow> rowData" where
  "rowRecord R headers m = foldl (recordStep R m) [] (zip headers [0..<length headers])"

text \<open>
  The loop over the rows of a sheet; \<open>headers\<close> is \<open>None\<close> until the first row is read:
  \<^verbatim>\<open>
  if (!headers) { headers = [...]; continue; }
  const rowData = ...;
  if (Object.keys(rowData).length) rows.push(rowData);\<close>
\<close>

fun decodeRows ::
  "runtime \<Rightarrow> jsstring list \<Rightarrow> cellvalue list option \<Rightarrow> jsstring list \<Rightarrow> rowData list"
where
  "decodeRows R sharedStrings headers [] = []"
| "decodeRows R sharedStrings None (rowContent # rest) =
     decodeRows R sharedStrings (Some (headerRow (rowCells R sharedStrings rowContent))) rest"
| "decodeRows R sharedStrings (Some headers) (rowContent # rest) =
     (if rowRecord R headers (rowCells R sharedStrings rowContent) \<noteq> []
      then rowRecord R headers (rowCells R sharedStrings rowContent)
             # decodeRows R sharedStrings (Some headers) rest
      else decodeRows R sharedStrings (Some headers) rest)"

definition sheetRows :: "runtime \<Rightarrow> jsstring list \<Rightarrow> jsstring \<Rightarrow> rowData list" where
  "sheetRows R sharedStrings sheetXml = decodeRows R sharedStrings None (rowMatches sheetXml)"

section \<open>The workbook manifest and the rows of a sheet\<close>

text \<open>
  \<^verbatim>\<open>/<sheet[^>]*?name="([^"]+)"[^>]*?r:id="([^"]+)"[^>]*?>/g\<close> and
  \<^verbatim>\<open>/<Relationship[^>]*?Id="([^"]+)"[^>]*?Target="([^"]+)"[^>]*?>/g\<close>. After the tag name
  the lazy \<^verbatim>\<open>[^>]*?\<close> may stop at every position up to the first \<open>>\<close>; \<open>lazySkips\<close> lists the
  rests of the text at these positions in the order the matcher tries them. \<open>quoted\<close> is
  an attribute introducer followed by a non-empty value without quotes and the closing
  quote. The match at a tag is the first combination, in that order, for which the whole
  expression matches; where there is none the search goes on behind the tag name.
\<close>

fun lazySkips :: "jsstring \<Rightarrow> jsstring list" where
  "lazySkips [] = [[]]"
| "lazySkips (c # cs) = (c # cs) # (if c = 0x3E then [] else lazySkips cs)"

fun firstSome :: "('a \<Rightarrow> 'b option) \<Rightarrow> 'a list \<Rightarrow> 'b option" where
  "firstSome f [] = None"
| "firstSome f (x # xs) = (case f x of Some y \<Rightarrow> Some y | None \<Rightarrow> firstSome f xs)"

definition quoted :: "jsstring \<Rightarrow> jsstring \<Rightarrow> (jsstring \<times> jsstring) option" where
  "quoted intro s =
     (if prefix intro s
         \<and> takeWhile (\<lambda>x. x \<noteq> dquote) (drop (length intro) s) \<noteq> []
         \<and> prefix [dquote] (dropWhile (\<lambda>x. x \<noteq> dquote) (drop (length intro) s))
      then Some (takeWhile (\<lambda>x. x \<noteq> dquote) (drop (length intro) s),
                 tl (dropWhile (\<lambda>x. x \<noteq> dquote) (drop (length intro) s)))
      else None)"

definition attrPairAt :: "jsstring \<Rightarrow> jsstring \<Rightarrow> jsstring \<Rightarrow> (jsstring \<times> jsstring \<times> jsstring) option" where
  "attrPairAt a1 a2 s =
     firstSome (\<lambda>s1.
         case quoted a1 s1 of
           None \<Rightarrow> None
         | Some (v1, r1) \<Rightarrow>
             firstSome (\<lambda>s2.
                 case quoted a2 s2 of
                   None \<Rightarrow> None
                 | Some (v2, r2) \<Rightarrow>
                     (case splitOn (js ''>'') r2 of
                        None \<Rightarrow> None
                      | Some (_, rest) \<Rightarrow> Some (v1, v2, rest)))
               (lazySkips r1))
       (lazySkips s)"

lemma firstSome_Some: "firstSome f xs = Some y \<Longrightarrow> \<exists>x \<in> set xs. f x = Some y"
  by (induction xs) (auto split: option.splits)

lemma lazySkips_length: "x \<in> set (lazySkips s) \<Longrightarrow> length x \<le> length s"
  by (induction s) (auto split: if_splits)

lemma quoted_length: "quoted intro s = Some (v, r) \<Longrightarrow> length r \<le> length s"
proof -
  assume "quoted intro s = Some (v, r)"
  then have r: "r = tl (dropWhile (\<lambda>x. x \<noteq> dquote) (drop (length intro) s))"
    by (auto simp: quoted_def split: if_splits)
  have "length (dropWhile (\<lambda>x. x \<noteq> dquote) (drop (length intro) s)) \<le> length (drop (length intro) s)"
    by (rule length_dropWhile_le)
  then show ?thesis unfolding r by simp
qed

lemma attrPairAt_shorter:
  assumes "attrPairAt a1 a2 s = Some (v1, v2, rest)"
  shows "length rest < length s"
proof -
  from firstSome_Some[OF assms[unfolded attrPairAt_def]]
  obtain s1 where s1: "s1 \<in> set (lazySkips s)"
    and f1: "(case quoted a1 s1 of
           None \<Rightarrow> None
         | Some (w1, r1) \<Rightarrow>
             firstSome (\<lambda>s2.
                 case quoted a2 s2 of
                   None \<Rightarrow> None
                 | Some (w2, r2) \<Rightarrow>
                     (case splitOn (js ''>'') r2 of
                        None \<Rightarrow> None
                      | Some (_, rest) \<Rightarrow> Some (w1, w2, rest)))
               (lazySkips r1)) = Some (v1, v2, rest)"
    by blast
  from f1 obtain w1 r1 where q1: "quoted a1 s1 = Some (w1, r1)"
    and f2: "firstSome (\<lambda>s2.
                 case quoted a2 s2 of
                   None \<Rightarrow> None
                 | Some (w2, r2) \<Rightarrow>
                     (case splitOn (js ''>'') r2 of
                        None \<Rightarrow> None
                      | Some (_, rest) \<Rightarrow> Some (w1, w2, rest)))
               (lazySkips r1) = Some (v1, v2, rest)"
    by (auto split: option.splits)
  from firstSome_Some[OF f2] obtain s2 where s2: "s2 \<in> set (lazySkips r1)"
    and f3: "(case quoted a2 s2 of
                   None \<Rightarrow> None
                 | Some (w2, r2) \<Rightarrow>
                     (case splitOn (js ''>'') r2 of
                        None \<Rightarrow> None
                      | Some (_, rest) \<Rightarrow> Some (w1, w2, rest))) = Some (v1, v2, rest)"
    by blast
  from f3 obtain w2 r2 b where q2: "quoted a2 s2 = Some (w2, r2)"
    and sp: "splitOn (js ''>'') r2 = Some (b, rest)"
    by (auto split: option.splits)
  have "length rest < length r2" using splitOn_length[OF sp] by simp
  also have "\<dots> \<le> length s2" using quoted_length[OF q2] .
  also have "\<dots> \<le> length r1" using lazySkips_length[OF s2] .
  also have "\<dots> \<le> length s1" using quoted_length[OF q1] .
  also have "\<dots> \<le> length s" using lazySkips_length[OF s1] .
  finally show ?thesis .
qed

function sheetMatches :: "jsstring \<Rightarrow> (jsstring \<times> jsstring) list" where
  "sheetMatches xml =
     (case splitOn (js ''<sheet'') xml of
        None \<Rightarrow> []
      | Some (_, r) \<Rightarrow>
          (case attrPairAt (js ''name='' @ [dquote]) (js ''r:id='' @ [dquote]) r of
             Some (name, relId, rest) \<Rightarrow> (name, relId) # sheetMatches rest
           | None \<Rightarrow> sheetMatches r))"
  by pat_completeness auto
termination
  by (relation "measure length") (auto dest!: splitOn_length attrPairAt_shorter)

function relationshipMatches :: "jsstring \<Rightarrow> (jsstring \<times> jsstring) list" where
  "relationshipMatches xml =
     (case splitOn (js ''<Relationship'') xml of
        None \<Rightarrow> []
      | Some (_, r) \<Rightarrow>
          (case attrPairAt (js ''Id='' @ [dquote]) (js ''Target='' @ [dquote]) r of
             Some (relId, target, rest) \<Rightarrow> (relId, target) # relationshipMatches rest
           | None \<Rightarrow> relationshipMatches r))"
  by pat_completeness auto
termination
  by (relation "measure length") (auto dest!: splitOn_length attrPairAt_shorter)



section \<open>Dates\<close>

text \<open>
  \<^verbatim>\<open>Number(v)\<close> on a cell value, and \<^verbatim>\<open>new Date(n)\<close> on a number: the time value is
  \<open>n\<close> cut to an integer, and the date is invalid when \<open>n\<close> is not finite or lies more
  than \<open>8.64e15\<close> milliseconds from the epoch.
\<close>

definition numberOf :: "runtime \<Rightarrow> cellvalue \<Rightarrow> jsnumber" where
  "numberOf R v =
     (case v of
        Text s \<Rightarrow> toNumber R s
      | Number n \<Rightarrow> n
      | Boolean b \<Rightarrow> Finite (if b then 1 else 0))"

definition truncate :: "rat \<Rightarrow> int" where
  "truncate r = (if 0 \<le> r then \<lfloor>r\<rfloor> else \<lceil>r\<rceil>)"

definition newDate :: "jsnumber \<Rightarrow> jsdate" where
  "newDate n =
     (case n of
        Finite r \<Rightarrow> if \<bar>r\<bar> > 8640000000000000 then InvalidDate else Date (truncate r)
      | _ \<Rightarrow> InvalidDate)"

text \<open>
  \<^verbatim>\<open>
  function excelSerialDateToJSDate(serial) {
    const serialNumber = Number(serial);
    if (Number.isNaN(serialNumber) || serialNumber <= 0) {
      if (typeof serial === 'string' && !Number.isNaN(Date.parse(serial))) {
        return new Date(serial);
      }
      return null;
    }
    const excelEpochOffsetDays = 25569;
    const daysInMilliseconds = (serialNumber - excelEpochOffsetDays) * 86400000;
    const jsDate = new Date(daysInMilliseconds);
    if (jsDate.getFullYear() < 1900 || jsDate.getFullYear() > 2100) {
      if (typeof serial === 'string' && !Number.isNaN(Date.parse(serial))) {
        return new Date(serial);
      }
      return null;
    }
    return jsDate;
  }\<close>
  \<open>None\<close> is \<^verbatim>\<open>null\<close>. \<^verbatim>\<open>getFullYear()\<close> of an invalid date is \<^verbatim>\<open>NaN\<close>, and both
  comparisons with \<^verbatim>\<open>NaN\<close> are false.
\<close>

definition stringFallback :: "runtime \<Rightarrow> cellvalue \<Rightarrow> jsdate option" where
  "stringFallback R serial =
     (case serial of
        Text s \<Rightarrow> (case dateParse R s of InvalidDate \<Rightarrow> None | Date t \<Rightarrow> Some (Date t))
      | _ \<Rightarrow> None)"

definition notPositive :: "jsnumber \<Rightarrow> bool" where
  "notPositive n = (case n of Finite r \<Rightarrow> r \<le> 0 | NegInfinity \<Rightarrow> True | _ \<Rightarrow> False)"

text \<open>
  \<^verbatim>\<open>(serialNumber - excelEpochOffsetDays) * 86400000\<close>: the difference is rounded to a
  double, then the product.
\<close>

definition daysInMilliseconds :: "jsnumber \<Rightarrow> jsnumber" where
  "daysInMilliseconds serialNumber =
     doubleOp (\<lambda>days. days * 86400000) (doubleOp (\<lambda>serial. serial - 25569) serialNumber)"

definition yearOutOfRange :: "runtime \<Rightarrow> jsdate \<Rightarrow> bool" where
  "yearOutOfRange R d =
     (case d of
        Date t \<Rightarrow> getFullYear R t < 1900 \<or> getFullYear R t > 2100
      | InvalidDate \<Rightarrow> False)"

definition excelSerialDateToJSDate :: "runtime \<Rightarrow> cellvalue \<Rightarrow> jsdate option" where
  "excelSerialDateToJSDate R serial =
     (let serialNumber = numberOf R serial in
      if serialNumber = NaN \<or> notPositive serialNumber then stringFallback R serial
      else
        let jsDate = newDate (daysInMilliseconds serialNumber) in
        if yearOutOfRange R jsDate then stringFallback R serial
        else Some jsDate)"

text \<open>
  \<^verbatim>\<open>
  function parseDate(value) {
    if (!value) return null;
    if (value instanceof Date) return value;
    if (typeof value === 'number') return excelSerialDateToJSDate(value);
    if (typeof value === 'string') {
      const parsed = new Date(value);
      return Number.isNaN(parsed.getTime()) ? null : parsed;
    }
    return null;
  }\<close>
  The argument is a property of a record: a cell value, or \<open>None\<close> for \<^verbatim>\<open>undefined\<close>.
\<close>

definition parseDate :: "runtime \<Rightarrow> cellvalue option \<Rightarrow> jsdate option" where
  "parseDate R v =
     (case v of
        None \<Rightarrow> None
      | Some x \<Rightarrow>
          if \<not> truthy x then None
          else
            (case x of
               Number n \<Rightarrow> excelSerialDateToJSDate R (Number n)
             | Text s \<Rightarrow> (case dateParse R s of InvalidDate \<Rightarrow> None | Date t \<Rightarrow> Some (Date t))
             | Boolean b \<Rightarrow> None))"

text \<open>
  \<^verbatim>\<open>
  function formatDate(value, timeZone) {
    if (!value) return '';
    let date = value;
    if (!(value instanceof Date)) {
      const parsed = parseDate(value);
      if (!parsed) return value;
      date = parsed;
    }
    if (timeZone) return formatDateInTimezone(date, timeZone);
    ... `${month}/${day}/${year} ${hours}:${minutes}:${seconds}` from the local getters
  }\<close>
  The result is a string, or the value itself when it does not parse as a date.
  \<^verbatim>\<open>Intl.DateTimeFormat\<close> throws a \<^verbatim>\<open>RangeError\<close> on an invalid date; the local getters
  of an invalid date return \<^verbatim>\<open>NaN\<close>.
\<close>

definition formatDate :: "runtime \<Rightarrow> cellvalue option \<Rightarrow> jsstring option \<Rightarrow> error + cellvalue" where
  "formatDate R v timeZone =
     (case v of
        None \<Rightarrow> Inr (Text [])
      | Some x \<Rightarrow>
          if \<not> truthy x then Inr (Text [])
          else
            (case parseDate R (Some x) of
               None \<Rightarrow> Inr x
             | Some d \<Rightarrow>
                 if timeZone \<noteq> None \<and> timeZone \<noteq> Some [] then
                   (case d of
                      Date t \<Rightarrow> Inr (Text (formatInTimeZone R t (the timeZone)))
                    | InvalidDate \<Rightarrow> Inl RangeError)
                 else
                   (case d of
                      Date t \<Rightarrow> Inr (Text (formatLocal R t))
                    | InvalidDate \<Rightarrow> Inr (Text (js ''NaN/NaN/NaN NaN:NaN:NaN'')))))"

section \<open>The latest row of every customer\<close>

text \<open>
  \<^verbatim>\<open>s.trim()\<close>: white space and line terminators are removed at both ends.
\<close>

definition isWhiteSpace :: "jschar \<Rightarrow> bool" where
  "isWhiteSpace c \<longleftrightarrow>
     (9 \<le> c \<and> c \<le> 13) \<or> c = 0x20 \<or> c = 0xA0 \<or> c = 0x1680 \<or> (0x2000 \<le> c \<and> c \<le> 0x200A) \<or>
     c = 0x2028 \<or> c = 0x2029 \<or> c = 0x202F \<or> c = 0x205F \<or> c = 0x3000 \<or> c = 0xFEFF"

definition trim :: "jsstring \<Rightarrow> jsstring" where
  "trim s = rev (dropWhile isWhiteSpace (rev (dropWhile isWhiteSpace s)))"

definition normalizeEmail :: "runtime \<Rightarrow> jsstring \<Rightarrow> jsstring" where
  "normalizeEmail R email = trim (toLowerCase R email)"

text \<open>
  \<^verbatim>\<open>
  function buildLatestRowMap(sheet1Rows) {
    const grouped = new Map();
    sheet1Rows.forEach(row => {
      const email = row['Stripe Customer Email'];
      if (!email || typeof email !== 'string') return;
      const normalized = email.toLowerCase().trim();
      const createDate = parseDate(row['Most Recent Create Date']);
      if (!grouped.has(normalized)) grouped.set(normalized, []);
      grouped.get(normalized).push({ row, createDate });
    });
    const latestMap = new Map();
    grouped.forEach((rows, email) => {
      rows.sort((a, b) => {
        if (!a.createDate && !b.createDate) return 0;
        if (!a.createDate) return 1;
        if (!b.createDate) return -1;
        return b.createDate.getTime() - a.createDate.getTime();
      });
      latestMap.set(email, rows[0].row);
    });
    return latestMap;
  }\<close>
  \<open>compareDated\<close> is the comparator: a row without a create date goes last, and two
  dates compare by their time values, later first. The time value of an invalid date is
  \<^verbatim>\<open>NaN\<close>, and so is the comparator's result. The sort itself is the runtime's; it
  rearranges the rows of a group, which has at least one, so that \<^verbatim>\<open>rows[0]\<close> exists.
\<close>

definition compareDated :: "dated \<Rightarrow> dated \<Rightarrow> jsnumber" where
  "compareDated a b =
     (case (snd a, snd b) of
        (None, None) \<Rightarrow> Finite 0
      | (None, Some _) \<Rightarrow> Finite 1
      | (Some _, None) \<Rightarrow> Finite (- 1)
      | (Some (Date ta), Some (Date tb)) \<Rightarrow> toDouble (of_int (tb - ta))
      | (Some _, Some _) \<Rightarrow> NaN)"

definition addToGroup ::
  "runtime \<Rightarrow> (jsstring \<times> dated list) list \<Rightarrow> rowData \<Rightarrow> (jsstring \<times> dated list) list" where
  "addToGroup R grouped row =
     (case map_of row (js ''Stripe Customer Email'') of
        Some (Text email) \<Rightarrow>
          if email = [] then grouped
          else
            AList.update (normalizeEmail R email)
              ((case map_of grouped (normalizeEmail R email) of None \<Rightarrow> [] | Some g \<Rightarrow> g)
                 @ [(row, parseDate R (map_of row (js ''Most Recent Create Date'')))])
              grouped
      | _ \<Rightarrow> grouped)"

definition buildLatestRowMap :: "runtime \<Rightarrow> rowData list \<Rightarrow> (jsstring \<times> rowData) list" where
  "buildLatestRowMap R sheet1Rows =
     concat (map (\<lambda>(email, rows).
                    case sortRows R compareDated rows of
                      [] \<Rightarrow> []
                    | first # _ \<Rightarrow> [(email, fst first)])
               (foldl (addToGroup R) [] sheet1Rows))"

section \<open>Inferring the time zone\<close>

text \<open>
  A sample is a pair of a source row and an output row. The samples are collected from
  the output rows, at most 100 of them:
  \<^verbatim>\<open>
  for (const outputRow of outputRows) {
    const email = outputRow.Email;
    if (!email || typeof email !== 'string') continue;
    const sourceRow = latestMap.get(email.toLowerCase().trim());
    if (!sourceRow) continue;
    const billingStart = sourceRow['Billing Start Date'];
    if (typeof billingStart === 'number') samples.push({ sourceRow, outputRow });
    if (samples.length >= 100) break;
  }\<close>
\<close>

type_synonym sample = "rowData \<times> rowData"

definition isNumber :: "cellvalue option \<Rightarrow> bool" where
  "isNumber v = (case v of Some (Number n) \<Rightarrow> True | _ \<Rightarrow> False)"

fun collectSamples ::
  "runtime \<Rightarrow> (jsstring \<times> rowData) list \<Rightarrow> sample list \<Rightarrow> rowData list \<Rightarrow> sample list" where
  "collectSamples R latestMap samples [] = samples"
| "collectSamples R latestMap samples (outputRow # rest) =
     (case map_of outputRow (js ''Email'') of
        Some (Text email) \<Rightarrow>
          if email = [] then collectSamples R latestMap samples rest
          else
            (case map_of latestMap (normalizeEmail R email) of
               None \<Rightarrow> collectSamples R latestMap samples rest
             | Some sourceRow \<Rightarrow>
                 if isNumber (map_of sourceRow (js ''Billing Start Date'')) then
                   (if length (samples @ [(sourceRow, outputRow)]) \<ge> 100
                    then samples @ [(sourceRow, outputRow)]
                    else collectSamples R latestMap (samples @ [(sourceRow, outputRow)]) rest)
                 else
                   (if length samples \<ge> 100 then samples
                    else collectSamples R latestMap samples rest))
      | _ \<Rightarrow> collectSamples R latestMap samples rest)"

text \<open>
  The score of one zone: over every sample and both date columns,
  \<^verbatim>\<open>
  const sourceValue = sample.sourceRow[column];
  if (typeof sourceValue !== 'number') continue;
  const expected = formatDate(sourceValue, timeZone);
  const actual = sample.outputRow[column];
  if (expected === actual) matches += 1;
  total += 1;\<close>
  \<open>datePairs\<close> lists the pairs of a numeric source value and the observed value in the
  order of the two loops; \<open>strictEquals\<close> is \<^verbatim>\<open>===\<close> between the rendering and the observed
  property (\<^verbatim>\<open>NaN\<close> is not equal to itself).
\<close>

definition dateColumns :: "jsstring list" where
  "dateColumns = [js ''Billing Start Date'', js ''Billing End Date'']"

definition datePairs :: "sample list \<Rightarrow> (cellvalue \<times> cellvalue option) list" where
  "datePairs samples =
     concat (map (\<lambda>(sourceRow, outputRow).
                    concat (map (\<lambda>column.
                                   if isNumber (map_of sourceRow column)
                                   then [(the (map_of sourceRow column), map_of outputRow column)]
                                   else [])
                              dateColumns))
               samples)"

definition strictEquals :: "cellvalue \<Rightarrow> cellvalue option \<Rightarrow> bool" where
  "strictEquals expected actual \<longleftrightarrow> actual = Some expected \<and> expected \<noteq> Number NaN"

fun countMatches ::
  "runtime \<Rightarrow> jsstring \<Rightarrow> nat \<times> nat \<Rightarrow> (cellvalue \<times> cellvalue option) list
     \<Rightarrow> error + (nat \<times> nat)" where
  "countMatches R timeZone (matches, totalCount) [] = Inr (matches, totalCount)"
| "countMatches R timeZone (matches, totalCount) ((sourceValue, actual) # rest) =
     bind (formatDate R (Some sourceValue) (Some timeZone)) (\<lambda>expected.
       countMatches R timeZone
         (if strictEquals expected actual then matches + 1 else matches, totalCount + 1) rest)"

text \<open>
  The loop over the candidate zones; the state is \<^verbatim>\<open>bestTimeZone\<close> and \<^verbatim>\<open>bestMatches\<close>:
  \<^verbatim>\<open>
  let bestTimeZone = null;
  let bestMatches = -1;
  for (const timeZone of candidates) {
    ... matches, total ...
    if (total === 0) continue;
    if (matches > bestMatches) { bestMatches = matches; bestTimeZone = timeZone; }
  }
  return bestTimeZone;\<close>
\<close>

fun selectZone ::
  "runtime \<Rightarrow> sample list \<Rightarrow> jsstring option \<times> int \<Rightarrow> jsstring list \<Rightarrow> error + jsstring option" where
  "selectZone R samples (bestTimeZone, bestMatches) [] = Inr bestTimeZone"
| "selectZone R samples (bestTimeZone, bestMatches) (timeZone # rest) =
     bind (countMatches R timeZone (0, 0) (datePairs samples)) (\<lambda>(matches, totalCount).
       if totalCount = 0 then selectZone R samples (bestTimeZone, bestMatches) rest
       else if int matches > bestMatches then selectZone R samples (Some timeZone, int matches) rest
       else selectZone R samples (bestTimeZone, bestMatches) rest)"

definition candidates :: "jsstring list" where
  "candidates = [js ''America/Chicago'', js ''America/New_York'', js ''America/Denver'',
                 js ''America/Los_Angeles'', js ''UTC'']"

text \<open>
  \<^verbatim>\<open>
  function detectTimezone(sheet1Rows, outputRows) {
    const candidates = [...];
    const latestMap = buildLatestRowMap(sheet1Rows);
    const samples = []; ...
    if (!samples.length) return null;
    ...
    return bestTimeZone;
  }\<close>
\<close>

definition detectTimezone :: "runtime \<Rightarrow> rowData list \<Rightarrow> rowData list \<Rightarrow> error + jsstring option" where
  "detectTimezone R sheet1Rows outputRows =
     (let samples = collectSamples R (buildLatestRowMap R sheet1Rows) [] outputRows in
      if samples = [] then Inr None
      else selectZone R samples (None, -1) candidates)"

text \<open>
  For the statement of what \<open>detectTimezone\<close> returns. A value is renderable when its
  date is not an invalid \<^verbatim>\<open>Date\<close>, so that rendering it in a zone does not throw;
  \<open>rendersAs\<close> says that the rendering of a source value in a zone is strictly equal to
  the observed property, and the score of a zone counts the date pairs for which it
  holds. \<open>firstMax\<close> is the selection loop on a score function: the best zone so far
  changes only for a strictly greater score.
\<close>

definition renderable :: "runtime \<Rightarrow> cellvalue \<Rightarrow> bool" where
  "renderable R v \<longleftrightarrow> parseDate R (Some v) \<noteq> Some InvalidDate"

definition rendersAs :: "runtime \<Rightarrow> jsstring \<Rightarrow> cellvalue \<times> cellvalue option \<Rightarrow> bool" where
  "rendersAs R timeZone p =
     (case formatDate R (Some (fst p)) (Some timeZone) of
        Inr expected \<Rightarrow> strictEquals expected (snd p)
      | Inl e \<Rightarrow> False)"

definition zoneScore :: "runtime \<Rightarrow> jsstring \<Rightarrow> sample list \<Rightarrow> nat" where
  "zoneScore R timeZone samples = length (filter (rendersAs R timeZone) (datePairs samples))"

fun firstMax :: "(jsstring \<Rightarrow> nat) \<Rightarrow> jsstring option \<times> int \<Rightarrow> jsstring list \<Rightarrow> jsstring option" where
  "firstMax score (best, bestScore) [] = best"
| "firstMax score (best, bestScore) (c # cs) =
     (if int (score c) > bestScore then firstMax score (Some c, int (score c)) cs
      else firstMax score (best, bestScore) cs)"

section \<open>Example inputs\<close>

text \<open>
  A runtime for running the model on concrete inputs; each function is the library
  function on a fragment of its inputs, and the examples stay inside these fragments.
  \<open>utf8Ascii\<close> is UTF-8 decoding on 7-bit input; \<open>inflateStored\<close> is raw inflate on a
  stream that consists of one final stored block (header byte 1, the length and its
  complement, the bytes); \<open>decimalToNumber\<close> is \<^verbatim>\<open>Number\<close> on decimal integer literals,
  \<open>integerToString\<close> is \<^verbatim>\<open>String\<close> on integers below \<open>10^20\<close>, \<open>asciiLower\<close> is
  \<^verbatim>\<open>toLowerCase\<close> on ASCII; no string parses as a date; the upper-case code of a
  character is that of a character without an upper-case form; \<open>insertionSort\<close> is
  \<^verbatim>\<open>Array.prototype.sort\<close>, a stable sort, on a comparator that is a consistent order.
  The decimal literals of the examples have at most 15 digits, so that they are doubles.
\<close>

definition inflateStored :: "byte list \<Rightarrow> byte list option" where
  "inflateStored bs =
     (case bs of
        b0 # l0 # l1 # n0 # n1 # d \<Rightarrow>
          if b0 = 1 \<and> n0 = NOT l0 \<and> n1 = NOT l1 \<and> length d = unat l0 + 256 * unat l1
          then Some d else None
      | _ \<Rightarrow> None)"

definition utf8Ascii :: "byte list \<Rightarrow> jsstring" where
  "utf8Ascii bs = map (\<lambda>b. if b < 0x80 then ucast b else 0xFFFD) bs"

definition decimalToNumber :: "jsstring \<Rightarrow> jsnumber" where
  "decimalToNumber s =
     (if s \<noteq> [] \<and> list_all isDigit s then Finite (of_nat (parseInt 10 s))
      else if prefix (js ''-'') s \<and> tl s \<noteq> [] \<and> list_all isDigit (tl s)
      then Finite (- of_nat (parseInt 10 (tl s)))
      else NaN)"

function decimalDigits :: "nat \<Rightarrow> jsstring" where
  "decimalDigits n =
     (if n < 10 then [of_nat (48 + n)]
      else decimalDigits (n div 10) @ [of_nat (48 + n mod 10)])"
  by pat_completeness auto
termination
  by (relation "measure id") auto

declare decimalDigits.simps [simp del]

definition integerToString :: "jsnumber \<Rightarrow> jsstring" where
  "integerToString n =
     (case n of
        Finite r \<Rightarrow>
          (if r < 0 then js ''-'' else []) @ decimalDigits (nat \<lfloor>\<bar>r\<bar>\<rfloor>)
      | NaN \<Rightarrow> js ''NaN''
      | PosInfinity \<Rightarrow> js ''Infinity''
      | NegInfinity \<Rightarrow> js ''-Infinity'')"

definition asciiLower :: "jsstring \<Rightarrow> jsstring" where
  "asciiLower s = map (\<lambda>c. if 65 \<le> c \<and> c \<le> 90 then c + 32 else c) s"

definition negative :: "jsnumber \<Rightarrow> bool" where
  "negative n = (case n of Finite r \<Rightarrow> r < 0 | NegInfinity \<Rightarrow> True | _ \<Rightarrow> False)"

fun insertSorted :: "(dated \<Rightarrow> dated \<Rightarrow> jsnumber) \<Rightarrow> dated \<Rightarrow> dated list \<Rightarrow> dated list" where
  "insertSorted cmp x [] = [x]"
| "insertSorted cmp x (y # ys) =
     (if negative (cmp x y) then x # y # ys else y # insertSorted cmp x ys)"

definition insertionSort :: "(dated \<Rightarrow> dated \<Rightarrow> jsnumber) \<Rightarrow> dated list \<Rightarrow> dated list" where
  "insertionSort cmp rows = foldl (\<lambda>sorted x. insertSorted cmp x sorted) [] rows"

text \<open>
  The dates of the example runtime: its local zone is UTC, and the named zones have
  their fixed standard-time offsets (which is what \<^verbatim>\<open>Intl.DateTimeFormat\<close> uses for dates
  in winter). \<open>civilFromDays\<close> is the Gregorian calendar date of a day number counted
  from 1970-01-01.
\<close>

definition civilFromDays :: "int \<Rightarrow> int \<times> int \<times> int" where
  "civilFromDays days =
     (let z = days + 719468;
          era = z div 146097;
          doe = z mod 146097;
          yoe = (doe - doe div 1460 + doe div 36524 - doe div 146096) div 365;
          doy = doe - (365 * yoe + yoe div 4 - yoe div 100);
          mp = (5 * doy + 2) div 153;
          d = doy - (153 * mp + 2) div 5 + 1;
          m = (if mp < 10 then mp + 3 else mp - 9)
      in (yoe + era * 400 + (if m \<le> 2 then 1 else 0), m, d))"

definition utcYear :: "int \<Rightarrow> int" where
  "utcYear t = fst (civilFromDays (t div 86400000))"

definition pad2 :: "int \<Rightarrow> jsstring" where
  "pad2 n = [of_int (48 + n div 10), of_int (48 + n mod 10)]"

definition formatUtc :: "int \<Rightarrow> jsstring" where
  "formatUtc t =
     (case civilFromDays (t div 86400000) of
        (y, m, d) \<Rightarrow>
          pad2 m @ js ''/'' @ pad2 d @ js ''/'' @ decimalDigits (nat y) @ js '' ''
          @ pad2 ((t mod 86400000) div 3600000) @ js '':''
          @ pad2 ((t mod 3600000) div 60000) @ js '':''
          @ pad2 ((t mod 60000) div 1000))"

definition zoneOffset :: "jsstring \<Rightarrow> int" where
  "zoneOffset zone =
     (if zone = js ''America/New_York'' then - 5 * 3600000
      else if zone = js ''America/Chicago'' then - 6 * 3600000
      else if zone = js ''America/Denver'' then - 7 * 3600000
      else if zone = js ''America/Los_Angeles'' then - 8 * 3600000
      else 0)"

definition exampleRuntime :: runtime where
  "exampleRuntime =
     \<lparr>utf8ToString = utf8Ascii, inflateRawSync = inflateStored,
      toNumber = decimalToNumber, numberToString = integerToString,
      toLowerCase = asciiLower, dateParse = (\<lambda>s. InvalidDate),
      getFullYear = utcYear,
      formatInTimeZone = (\<lambda>t zone. formatUtc (t + zoneOffset zone)),
      formatLocal = formatUtc,
      upperCharCode = (\<lambda>ch. case ch of [] \<Rightarrow> 0 | c # _ \<Rightarrow> unat c),
      sortRows = insertionSort\<rparr>"

definition localHeaderA :: "byte list" where
  "localHeaderA = [0x50, 0x4b, 0x03, 0x04, 0, 0, 0, 0, 0, 0, 0, 0, 0, 0, 0, 0, 0, 0, 0, 0,
                   0, 0, 0, 0, 0, 0, 1, 0, 0, 0, 0x61]"

definition exampleEntry :: "nat \<Rightarrow> nat \<Rightarrow> entry" where
  "exampleEntry method csize =
     \<lparr>compressionMethod = method, compressedSize = csize, uncompressedSize = 3,
      localHeaderOffset = 0\<rparr>"

definition exampleZip :: "byte list \<Rightarrow> nat \<Rightarrow> nat \<Rightarrow> zipData" where
  "exampleZip bytes method csize =
     \<lparr>buffer = bytes, entries = [js ''a'' \<mapsto> exampleEntry method csize]\<rparr>"

text \<open>
  An end-of-central-directory record alone that declares one entry and puts the central
  directory at offset 22, the end of the buffer.
\<close>

definition missingDirectoryArchive :: "byte list" where
  "missingDirectoryArchive =
     [0x50, 0x4b, 0x05, 0x06, 0, 0, 0, 0, 1, 0, 1, 0, 46, 0, 0, 0, 22, 0, 0, 0, 0, 0]"

definition exampleArchive :: "byte list" where
  "exampleArchive = localHeaderA @ [1, 2, 3] @
     [0x50, 0x4b, 0x01, 0x02, 0, 0, 0, 0, 0, 0, 0, 0, 0, 0, 0, 0, 0, 0, 0, 0,
      3, 0, 0, 0, 3, 0, 0, 0, 1, 0, 0, 0, 0, 0, 0, 0, 0, 0, 0, 0, 0, 0, 0, 0, 0, 0, 0x61] @
     [0x50, 0x4b, 0x05, 0x06, 0, 0, 0, 0, 1, 0, 1, 0, 47, 0, 0, 0, 34, 0, 0, 0, 0, 0]"

definition emptyArchive :: "byte list" where
  "emptyArchive = [0x50, 0x4b, 0x05, 0x06, 0, 0, 0, 0, 0, 0, 0, 0, 0, 0, 0, 0, 0, 0, 0, 0, 0, 0]"

definition sharedStringsZip :: "byte list \<Rightarrow> nat \<Rightarrow> nat \<Rightarrow> zipData" where
  "sharedStringsZip bytes method csize =
     \<lparr>buffer = bytes, entries = [js ''xl/sharedStrings.xml'' \<mapsto> exampleEntry method csize]\<rparr>"

definition sharedStringsXml :: "byte list" where
  "sharedStringsXml = map (\<lambda>c. of_nat (of_char c))
     ''<sst><si><t>a&amp;b</t></si><si><r><t>x</t></r><r><t xml:space=\"p\">y</t></r></si></sst>''"


definition falsyHeaderSheet :: jsstring where
  "falsyHeaderSheet = js ''<row><c r=\"A1\"><v>0</v></c><c r=\"B1\" t=\"b\"><v>0</v></c><c r=\"C1\" t=\"b\"><v>1</v></c></row><row><c r=\"A2\"><v>1</v></c><c r=\"B2\"><v>2</v></c><c r=\"C2\"><v>3</v></c></row>''"


text \<open>
  Three customers whose billing starts at the serial 44927, and an output sheet that
  shows each start as the instant rendered in Chicago.
\<close>

definition sourceRow :: "string \<Rightarrow> rowData" where
  "sourceRow email =
     [(js ''Stripe Customer Email'', Text (js email)),
      (js ''Billing Start Date'', Number (Finite 44927))]"

definition renderedRow :: "string \<Rightarrow> string \<Rightarrow> rowData" where
  "renderedRow email start =
     [(js ''Email'', Text (js email)), (js ''Billing Start Date'', Text (js start))]"

definition sourceRows :: "rowData list" where
  "sourceRows = [sourceRow ''a@x.com'', sourceRow ''b@x.com'', sourceRow ''c@x.com'']"

definition renderedRows :: "rowData list" where
  "renderedRows =
     [renderedRow '' A@x.com'' ''12/31/2022 18:00:00'',
      renderedRow ''b@x.com'' ''12/31/2022 18:00:00'',
      renderedRow ''C@X.COM '' ''12/31/2022 18:00:00'']"

definition exampleSamples :: "sample list" where
  "exampleSamples =
     [(sourceRow ''a@x.com'', renderedRow '' A@x.com'' ''12/31/2022 18:00:00''),
      (sourceRow ''b@x.com'', renderedRow ''b@x.com'' ''12/31/2022 18:00:00''),
      (sourceRow ''c@x.com'', renderedRow ''C@X.COM '' ''12/31/2022 18:00:00'')]"

text \<open>
  A customer whose billing starts at the serial 200000000, beside one whose start is
  44927 and is shown as rendered in Chicago.
\<close>

definition outOfRangeRow :: "string \<Rightarrow> rowData" where
  "outOfRangeRow email =
     [(js ''Stripe Customer Email'', Text (js email)),
      (js ''Billing Start Date'', Number (Finite 200000000))]"

definition outOfRangeRows :: "rowData list" where
  "outOfRangeRows = [sourceRow ''a@x.com'', outOfRangeRow ''d@x.com'']"

definition outOfRangeRendered :: "rowData list" where
  "outOfRangeRendered =
     [renderedRow ''a@x.com'' ''12/31/2022 18:00:00'',
      renderedRow ''d@x.com'' ''12/31/2022 18:00:00'']"
section \<open>Properties of the numbers\<close>

text \<open>
  An integer of at most 53 bits is not rounded. For evaluating the rounding on larger
  numerals, the floor of a quotient of numerals is their integer quotient.
\<close>

lemma toDouble_integer: "\<bar>n\<bar> \<le> 2 ^ 53 \<Longrightarrow> toDouble (of_int n) = Finite (of_int n)"
proof -
  assume "\<bar>n\<bar> \<le> 2 ^ 53"
  then have "\<bar>of_int n :: rat\<bar> \<le> 2 ^ 53"
    by (metis of_int_abs of_int_le_iff of_int_numeral of_int_power)
  then show ?thesis by (simp add: toDouble_def)
qed

lemma roundInteger_exact: "\<bar>n\<bar> \<le> 2 ^ 53 \<Longrightarrow> roundInteger n = n"
  by (simp add: roundInteger_def toDouble_integer)

lemma floor_rat_numeral: "\<lfloor>(numeral a :: rat) / numeral b\<rfloor> = numeral a div numeral b"
  using floor_divide_of_int_eq[of "numeral a" "numeral b", where ?'a = rat] by simp

section \<open>Properties of the column letters\<close>

lemma letterDigit_ascii: "c < 128 \<Longrightarrow> letterDigit R [c] = int (unat (toUpperCaseUnit c)) - 64"
  by (simp add: letterDigit_def upperCode_def)

lemma letterDigit_upper: "isUpper c \<Longrightarrow> 1 \<le> letterDigit R [c] \<and> letterDigit R [c] \<le> 26"
  unfolding isUpper_def letterDigit_def upperCode_def toUpperCaseUnit_def
  by (auto simp: word_le_def word_less_def)

lemma codePoints_units:
  "\<forall>c \<in> set letters. \<not> isHighSurrogate c \<Longrightarrow> codePoints letters = map (\<lambda>c. [c]) letters"
  by (induction letters rule: codePoints.induct) simp_all

lemma isUpper_unit: "isUpper c \<Longrightarrow> \<not> isHighSurrogate c"
  by (auto simp: isUpper_def isHighSurrogate_def word_le_def)

lemma columnLettersToIndex_units:
  "\<forall>c \<in> set letters. isUpper c \<Longrightarrow>
     columnLettersToIndex R letters =
       foldl (\<lambda>index c. roundInteger (roundInteger (index * 26) + letterDigit R [c])) 0 letters"
  using codePoints_units[of letters] isUpper_unit
  by (auto simp: columnLettersToIndex_def foldl_map)

lemma columnLettersToIndex_snoc:
  "\<forall>x \<in> set letters. isUpper x \<Longrightarrow> isUpper c \<Longrightarrow>
   columnLettersToIndex R (letters @ [c]) =
     roundInteger (roundInteger (columnLettersToIndex R letters * 26) + letterDigit R [c])"
  using columnLettersToIndex_units[of "letters @ [c]" R] columnLettersToIndex_units[of letters R]
  by simp

lemma columnLettersToIndex_exact:
  "(\<forall>c \<in> set letters. isUpper c) \<Longrightarrow> length letters \<le> 11 \<Longrightarrow>
     0 \<le> columnLettersToIndex R letters \<and> columnLettersToIndex R letters < 27 ^ length letters \<and>
     columnLettersToIndex R letters = foldl (\<lambda>index c. index * 26 + letterDigit R [c]) 0 letters"
proof (induction letters rule: rev_induct)
  case Nil
  then show ?case by (simp add: columnLettersToIndex_def)
next
  case (snoc c letters)
  then have ih: "0 \<le> columnLettersToIndex R letters"
      "columnLettersToIndex R letters < 27 ^ length letters"
      "columnLettersToIndex R letters = foldl (\<lambda>index c. index * 26 + letterDigit R [c]) 0 letters"
    and len: "length letters \<le> 10" and d: "1 \<le> letterDigit R [c]" "letterDigit R [c] \<le> 26"
    and up: "\<forall>x \<in> set letters. isUpper x" "isUpper c"
    using letterDigit_upper[of c R] by simp_all
  have "(27::int) ^ length letters \<le> 27 ^ 10"
    using len by (intro power_increasing) simp_all
  then have small: "columnLettersToIndex R letters < 27 ^ 10" using ih by simp
  have p: "roundInteger (columnLettersToIndex R letters * 26) = columnLettersToIndex R letters * 26"
    using ih small by (intro roundInteger_exact) simp
  have s: "roundInteger (columnLettersToIndex R letters * 26 + letterDigit R [c])
             = columnLettersToIndex R letters * 26 + letterDigit R [c]"
    using ih small d by (intro roundInteger_exact) simp
  have eq: "columnLettersToIndex R (letters @ [c])
      = columnLettersToIndex R letters * 26 + letterDigit R [c]"
    by (simp add: columnLettersToIndex_snoc[OF up] p s)
  show ?case using eq ih d by simp
qed

text \<open>
  Claim C5. Column-letter conversion is base 26 with the digits A=1 .. Z=26. The empty
  sequence has index 0. For letters A .. Z, the digit of a letter lies in 1 .. 26, and
  every further letter \<open>c\<close> turns the index \<open>i\<close> of the letters before it into
  \<open>i * 26 + digit c\<close> as the doubles compute it: the product is rounded, then the sum.
  Up to eleven letters nothing is rounded: the index is exactly \<open>i * 26 + digit c\<close> and
  stays below \<open>2^53\<close>. The digits of A .. Z are 1 .. 26, and A, Z, AA, AZ, BA have the
  indices 1, 26, 27, 52, 53.
\<close>

theorem columnLettersToIndex_base26:
  "columnLettersToIndex R [] = 0 \<and>
   ((\<forall>x \<in> set letters. isUpper x) \<and> isUpper c \<longrightarrow>
      1 \<le> letterDigit R [c] \<and> letterDigit R [c] \<le> 26 \<and>
      columnLettersToIndex R (letters @ [c]) =
        roundInteger (roundInteger (columnLettersToIndex R letters * 26) + letterDigit R [c]) \<and>
      (length letters < 11 \<longrightarrow>
         columnLettersToIndex R (letters @ [c])
           = columnLettersToIndex R letters * 26 + letterDigit R [c] \<and>
         columnLettersToIndex R (letters @ [c]) < 2 ^ 53)) \<and>
   map (\<lambda>c. letterDigit R [c]) (js ''ABCDEFGHIJKLMNOPQRSTUVWXYZ'') = [1..26] \<and>
   columnLettersToIndex R (js ''A'') = 1 \<and>
   columnLettersToIndex R (js ''Z'') = 26 \<and>
   columnLettersToIndex R (js ''AA'') = 27 \<and>
   columnLettersToIndex R (js ''AZ'') = 52 \<and>
   columnLettersToIndex R (js ''BA'') = 53"
proof -
  have digits: "map (\<lambda>c. letterDigit R [c]) (js ''ABCDEFGHIJKLMNOPQRSTUVWXYZ'') = [1..26]"
    by (simp add: letterDigit_ascii toUpperCaseUnit_def upto.simps)
  have examples: "columnLettersToIndex R (js ''A'') = 1" "columnLettersToIndex R (js ''Z'') = 26"
    "columnLettersToIndex R (js ''AA'') = 27" "columnLettersToIndex R (js ''AZ'') = 52"
    "columnLettersToIndex R (js ''BA'') = 53"
    by (simp_all add: columnLettersToIndex_def isHighSurrogate_def letterDigit_ascii
        toUpperCaseUnit_def roundInteger_exact)
  have step: "columnLettersToIndex R (letters @ [c])
        = columnLettersToIndex R letters * 26 + letterDigit R [c]
      \<and> columnLettersToIndex R (letters @ [c]) < 2 ^ 53"
    if h: "\<forall>x \<in> set letters. isUpper x" "isUpper c" "length letters < 11"
  proof -
    have all: "\<forall>x \<in> set (letters @ [c]). isUpper x" "length (letters @ [c]) \<le> 11"
      using h by simp_all
    have before: "\<forall>x \<in> set letters. isUpper x" "length letters \<le> 11" using h by simp_all
    from columnLettersToIndex_exact[OF all, of R] columnLettersToIndex_exact[OF before, of R]
    have eq: "columnLettersToIndex R (letters @ [c])
        = columnLettersToIndex R letters * 26 + letterDigit R [c]"
      and less: "columnLettersToIndex R (letters @ [c]) < 27 ^ length (letters @ [c])"
      by simp_all
    have "(27::int) ^ length (letters @ [c]) \<le> 27 ^ 11"
      using all(2) by (intro power_increasing) simp_all
    then have "columnLettersToIndex R (letters @ [c]) < 2 ^ 53" using less by simp
    then show ?thesis using eq by simp
  qed
  have empty: "columnLettersToIndex R [] = 0" by (simp add: columnLettersToIndex_def)
  show ?thesis
    using empty digits examples step letterDigit_upper[of c R]
      columnLettersToIndex_snoc[of letters c R]
    by blast
qed

theorem columnLettersToIndex_base26_witness:
  "columnLettersToIndex exampleRuntime (js ''AZ'')
     = columnLettersToIndex exampleRuntime (js ''A'') * 26 + letterDigit exampleRuntime [0x5A] \<and>
   letterDigit exampleRuntime [0x5A] = 26 \<and>
   columnLettersToIndex exampleRuntime (js ''A'') = 1 \<and>
   columnLettersToIndex exampleRuntime (js ''AZ'') = 52"
proof -
  have d: "letterDigit exampleRuntime [0x5A] = 26"
    by (simp add: letterDigit_ascii toUpperCaseUnit_def)
  show ?thesis
    using columnLettersToIndex_base26[of exampleRuntime "js ''A''" "0x5A"] d
    by (simp add: isUpper_def roundInteger_exact)
qed

text \<open>
  From twelve letters on the index can exceed \<open>2^53\<close> and is rounded: twelve times Z is
  99246114928149462 in base 26 and 99246114928149472 as the doubles compute it.
\<close>

lemma roundInteger_twelve:
  "roundInteger 99246114928149436 = 99246114928149440"
  "roundInteger 99246114928149466 = 99246114928149472"
proof -
  have b: "bitLength 99246114928149436 = 57" "bitLength 99246114928149466 = 57"
    by (simp_all add: bitLength.simps)
  have e: "doubleExponent 99246114928149436 = 56" "doubleExponent 99246114928149466 = 56"
    unfolding doubleExponent_def floorLog2_def using b by simp_all
  have m: "doubleMantissa 99246114928149436 = 6202882183009340"
    "doubleMantissa 99246114928149466 = 6202882183009342"
    unfolding doubleMantissa_def e by (simp_all add: pow2_def roundHalfEven_def floor_rat_numeral)
  have "toDouble 99246114928149436 = Finite 99246114928149440"
    "toDouble 99246114928149466 = Finite 99246114928149472"
    unfolding toDouble_def e m by (simp_all add: pow2_def)
  then show "roundInteger 99246114928149436 = 99246114928149440"
    "roundInteger 99246114928149466 = 99246114928149472"
    by (simp_all add: roundInteger_def)
qed

lemma columnLettersToIndex_twelve:
  "columnLettersToIndex R (js ''ZZZZZZZZZZZZ'') = 99246114928149472 \<and>
   foldl (\<lambda>index c. index * 26 + letterDigit R [c]) 0 (js ''ZZZZZZZZZZZZ'') = 99246114928149462"
proof -
  have eleven: "columnLettersToIndex R (js ''ZZZZZZZZZZZ'') = 3817158266467286"
    using columnLettersToIndex_exact[of "js ''ZZZZZZZZZZZ''" R]
    by (simp add: isUpper_def letterDigit_ascii toUpperCaseUnit_def)
  have "columnLettersToIndex R (js ''ZZZZZZZZZZZ'' @ [0x5A]) = 99246114928149472"
    using columnLettersToIndex_snoc[of "js ''ZZZZZZZZZZZ''" "0x5A" R] eleven roundInteger_twelve
    by (simp add: isUpper_def letterDigit_ascii toUpperCaseUnit_def)
  then show ?thesis by (simp add: letterDigit_ascii toUpperCaseUnit_def)
qed

section \<open>Properties of the archive reader\<close>

declare scanEocd.simps [simp del]

lemma exampleRuntime_sel [simp]:
  "utf8ToString exampleRuntime = utf8Ascii"
  "inflateRawSync exampleRuntime = inflateStored"
  "toNumber exampleRuntime = decimalToNumber"
  "numberToString exampleRuntime = integerToString"
  "toLowerCase exampleRuntime = asciiLower"
  "dateParse exampleRuntime = (\<lambda>s. InvalidDate)"
  "getFullYear exampleRuntime = utcYear"
  "formatInTimeZone exampleRuntime = (\<lambda>t zone. formatUtc (t + zoneOffset zone))"
  "formatLocal exampleRuntime = formatUtc"
  "upperCharCode exampleRuntime = (\<lambda>ch. case ch of [] \<Rightarrow> 0 | c # _ \<Rightarrow> unat c)"
  "sortRows exampleRuntime = insertionSort"
  by (simp_all add: exampleRuntime_def)

lemma bind_Inr [simp]: "bind (Inr x) f = f x" by (simp add: bind_def)
lemma bind_Inl [simp]: "bind (Inl e) f = Inl e" by (simp add: bind_def)

lemma take4_drop:
  "off + 4 \<le> length buf \<Longrightarrow>
   take 4 (drop off buf) = [buf ! off, buf ! (off + 1), buf ! (off + 2), buf ! (off + 3)]"
  by (auto simp: list_eq_iff_nth_eq nth_Cons' less_Suc_eq numeral_eq_Suc add.commute)

lemma base256_2:
  fixes a b a' b' :: nat
  assumes "a < 256" "a' < 256" "a + 256 * b = a' + 256 * b'"
  shows "a = a' \<and> b = b'"
proof -
  have "(a + 256 * b) mod 256 = (a' + 256 * b') mod 256"
    using assms(3) by simp
  then have "a = a'" using assms(1,2) by simp
  then show ?thesis using assms(3) by simp
qed

lemma base256_4:
  fixes a b c d a' b' c' d' :: nat
  assumes "a < 256" "b < 256" "c < 256" "d < 256" "a' < 256" "b' < 256" "c' < 256" "d' < 256"
  shows "a + 256 * b + 65536 * c + 16777216 * d = a' + 256 * b' + 65536 * c' + 16777216 * d'
     \<longleftrightarrow> a = a' \<and> b = b' \<and> c = c' \<and> d = d'"
proof
  assume eq: "a + 256 * b + 65536 * c + 16777216 * d = a' + 256 * b' + 65536 * c' + 16777216 * d'"
  then have "a + 256 * (b + 256 * (c + 256 * d)) = a' + 256 * (b' + 256 * (c' + 256 * d'))"
    by simp
  from base256_2[OF assms(1) assms(5) this]
  have a: "a = a'" and r1: "b + 256 * (c + 256 * d) = b' + 256 * (c' + 256 * d')" by simp_all
  from base256_2[OF assms(2) assms(6) r1]
  have b: "b = b'" and r2: "c + 256 * d = c' + 256 * d'" by simp_all
  from base256_2[OF assms(3) assms(7) r2]
  show "a = a' \<and> b = b' \<and> c = c' \<and> d = d'" using a b by simp
qed simp

lemma byte_less: "unat (w::byte) < 256"
  using unsigned_less[of w, where 'a=nat] by simp

lemma le32_bytes:
  "le32 buf off = unat a + 256 * unat b + 65536 * unat c + 16777216 * unat d \<longleftrightarrow>
   buf ! off = a \<and> buf ! (off + 1) = b \<and> buf ! (off + 2) = c \<and> buf ! (off + 3) = (d::byte)"
  unfolding le32_def
  by (subst base256_4) (simp_all add: byte_less word_unat_eq_iff)

lemma sig_local: "off + 4 \<le> length buf \<Longrightarrow>
  le32 buf off = 0x04034b50 \<longleftrightarrow> take 4 (drop off buf) = [0x50, 0x4b, 0x03, 0x04]"
  using le32_bytes[of buf off "0x50" "0x4b" "0x03" "0x04"]
  by (simp add: take4_drop)

text \<open>
  Claim C6, as amended. \<open>extractZipEntry\<close> fails with \<open>EntryNotFound\<close> when the name is
  not in the index. When the four bytes at the recorded offset lie inside the buffer and
  are not \<open>50 4b 03 04\<close> (the signature 0x04034b50, little-endian), it fails with
  \<open>LocalHeaderError\<close>. When these four bytes do not lie inside the buffer, or the header
  has the signature and its 30 fixed bytes do not lie inside the buffer, the read fails
  with \<open>RangeError\<close>. For a header with the signature inside the buffer, the payload is
  the slice of at most \<open>compressedSize\<close> bytes that starts 30 bytes plus the header's own
  name and extra-field lengths after the offset: it has \<open>compressedSize\<close> bytes when the
  buffer holds them and otherwise the bytes that the buffer still holds. Method 0
  returns the payload unchanged, method 8 returns what raw inflate makes of it, any
  other method fails with \<open>UnsupportedCompression\<close>.
\<close>

theorem extractZipEntry_contract:
  "(entries z name = None \<longrightarrow> extractZipEntry R z name = Inl EntryNotFound) \<and>
   (entries z name = Some e \<and> localHeaderOffset e + 4 \<le> length (buffer z) \<and>
    take 4 (drop (localHeaderOffset e) (buffer z)) \<noteq> [0x50, 0x4b, 0x03, 0x04]
      \<longrightarrow> extractZipEntry R z name = Inl LocalHeaderError) \<and>
   (entries z name = Some e \<and> localHeaderOffset e + 30 \<le> length (buffer z) \<and>
    take 4 (drop (localHeaderOffset e) (buffer z)) = [0x50, 0x4b, 0x03, 0x04] \<and>
    nameLength = unat (buffer z ! (localHeaderOffset e + 26))
                 + 256 * unat (buffer z ! (localHeaderOffset e + 27)) \<and>
    extraLength = unat (buffer z ! (localHeaderOffset e + 28))
                 + 256 * unat (buffer z ! (localHeaderOffset e + 29)) \<and>
    payload = take (compressedSize e)
                (drop (localHeaderOffset e + 30 + nameLength + extraLength) (buffer z))
      \<longrightarrow> (compressionMethod e = 0 \<longrightarrow> extractZipEntry R z name = Inr payload) \<and>
          (compressionMethod e = 8 \<longrightarrow>
             extractZipEntry R z name =
               (case inflateRawSync R payload of None \<Rightarrow> Inl InflateError | Some d \<Rightarrow> Inr d)) \<and>
          (compressionMethod e \<noteq> 0 \<and> compressionMethod e \<noteq> 8 \<longrightarrow>
             extractZipEntry R z name = Inl UnsupportedCompression) \<and>
          (localHeaderOffset e + 30 + nameLength + extraLength + compressedSize e
             \<le> length (buffer z) \<longrightarrow> length payload = compressedSize e) \<and>
          length payload =
            min (compressedSize e)
              (length (buffer z) - (localHeaderOffset e + 30 + nameLength + extraLength))) \<and>
   (entries z name = Some e \<and> length (buffer z) < localHeaderOffset e + 4
      \<longrightarrow> extractZipEntry R z name = Inl RangeError) \<and>
   (entries z name = Some e \<and> localHeaderOffset e + 4 \<le> length (buffer z) \<and>
    take 4 (drop (localHeaderOffset e) (buffer z)) = [0x50, 0x4b, 0x03, 0x04] \<and>
    length (buffer z) < localHeaderOffset e + 30
      \<longrightarrow> extractZipEntry R z name = Inl RangeError)"
proof (intro conjI impI)
  assume "entries z name = None"
  then show "extractZipEntry R z name = Inl EntryNotFound"
    by (simp add: extractZipEntry_def)
next
  assume "entries z name = Some e \<and> localHeaderOffset e + 4 \<le> length (buffer z) \<and>
    take 4 (drop (localHeaderOffset e) (buffer z)) \<noteq> [0x50, 0x4b, 0x03, 0x04]"
  then show "extractZipEntry R z name = Inl LocalHeaderError"
    using sig_local[of "localHeaderOffset e" "buffer z"]
    by (simp add: extractZipEntry_def readUInt32LE_def)
next
  assume h: "entries z name = Some e \<and> localHeaderOffset e + 30 \<le> length (buffer z) \<and>
    take 4 (drop (localHeaderOffset e) (buffer z)) = [0x50, 0x4b, 0x03, 0x04] \<and>
    nameLength = unat (buffer z ! (localHeaderOffset e + 26))
                 + 256 * unat (buffer z ! (localHeaderOffset e + 27)) \<and>
    extraLength = unat (buffer z ! (localHeaderOffset e + 28))
                 + 256 * unat (buffer z ! (localHeaderOffset e + 29)) \<and>
    payload = take (compressedSize e)
                (drop (localHeaderOffset e + 30 + nameLength + extraLength) (buffer z))"
  then have sig: "le32 (buffer z) (localHeaderOffset e) = 0x04034b50"
    using sig_local[of "localHeaderOffset e" "buffer z"] by simp
  have run: "extractZipEntry R z name =
      (if compressionMethod e = 0 then Inr payload
       else if compressionMethod e = 8 then
         (case inflateRawSync R payload of None \<Rightarrow> Inl InflateError | Some d \<Rightarrow> Inr d)
       else Inl UnsupportedCompression)"
  proof -
    have n: "le16 (buffer z) (localHeaderOffset e + 26) = nameLength"
      and x: "le16 (buffer z) (localHeaderOffset e + 28) = extraLength"
      using h by (simp_all add: le16_def add.commute[of 27] add.commute[of 29])
    show ?thesis
      using h sig n x
      by (simp add: extractZipEntry_def readUInt32LE_def readUInt16LE_def slice_def Let_def)
  qed
  {
    assume "compressionMethod e = 0"
    then show "extractZipEntry R z name = Inr payload" using run by simp
  next
    assume "compressionMethod e = 8"
    then show "extractZipEntry R z name =
       (case inflateRawSync R payload of None \<Rightarrow> Inl InflateError | Some d \<Rightarrow> Inr d)"
      using run by simp
  next
    assume "compressionMethod e \<noteq> 0 \<and> compressionMethod e \<noteq> 8"
    then show "extractZipEntry R z name = Inl UnsupportedCompression" using run by simp
  next
    assume "localHeaderOffset e + 30 + nameLength + extraLength + compressedSize e
             \<le> length (buffer z)"
    then show "length payload = compressedSize e" using h by simp
  next
    show "length payload =
            min (compressedSize e)
              (length (buffer z) - (localHeaderOffset e + 30 + nameLength + extraLength))"
      using h by simp
  }
next
  assume "entries z name = Some e \<and> length (buffer z) < localHeaderOffset e + 4"
  then show "extractZipEntry R z name = Inl RangeError"
    by (simp add: extractZipEntry_def readUInt32LE_def)
next
  assume h: "entries z name = Some e \<and> localHeaderOffset e + 4 \<le> length (buffer z) \<and>
    take 4 (drop (localHeaderOffset e) (buffer z)) = [0x50, 0x4b, 0x03, 0x04] \<and>
    length (buffer z) < localHeaderOffset e + 30"
  then have sig: "le32 (buffer z) (localHeaderOffset e) = 0x04034b50"
    using sig_local[of "localHeaderOffset e" "buffer z"] by simp
  show "extractZipEntry R z name = Inl RangeError"
    using h sig
    by (simp add: extractZipEntry_def readUInt32LE_def readUInt16LE_def Let_def)
qed

theorem extractZipEntry_contract_witness:
  "extractZipEntry exampleRuntime (exampleZip (localHeaderA @ [1, 2, 3]) 0 3) (js ''b'')
     = Inl EntryNotFound \<and>
   extractZipEntry exampleRuntime (exampleZip (0 # localHeaderA @ [1, 2, 3]) 0 3) (js ''a'')
     = Inl LocalHeaderError \<and>
   extractZipEntry exampleRuntime (exampleZip (localHeaderA @ [1, 2, 3]) 0 3) (js ''a'')
     = Inr [1, 2, 3] \<and>
   extractZipEntry exampleRuntime
     (exampleZip (localHeaderA @ [1, 3, 0, 0xFC, 0xFF, 7, 8, 9]) 8 8) (js ''a'')
     = Inr [7, 8, 9] \<and>
   extractZipEntry exampleRuntime (exampleZip (localHeaderA @ [1, 2, 3]) 99 3) (js ''a'')
     = Inl UnsupportedCompression \<and>
   extractZipEntry exampleRuntime (exampleZip [0x50, 0x4b, 0x03] 0 3) (js ''a'')
     = Inl RangeError \<and>
   extractZipEntry exampleRuntime (exampleZip (take 27 localHeaderA) 0 3) (js ''a'')
     = Inl RangeError"
proof -
  have 1: "extractZipEntry exampleRuntime (exampleZip (localHeaderA @ [1, 2, 3]) 0 3) (js ''b'')
     = Inl EntryNotFound"
    using extractZipEntry_contract[of "exampleZip (localHeaderA @ [1, 2, 3]) 0 3" "js ''b''"
        exampleRuntime]
    by (simp add: exampleZip_def)
  have 2: "extractZipEntry exampleRuntime (exampleZip (0 # localHeaderA @ [1, 2, 3]) 0 3) (js ''a'')
     = Inl LocalHeaderError"
    using extractZipEntry_contract[of "exampleZip (0 # localHeaderA @ [1, 2, 3]) 0 3" "js ''a''"
        exampleRuntime "exampleEntry 0 3"]
    by (simp add: exampleZip_def exampleEntry_def localHeaderA_def)
  have 3: "extractZipEntry exampleRuntime (exampleZip (localHeaderA @ [1, 2, 3]) 0 3) (js ''a'')
     = Inr [1, 2, 3]"
    using extractZipEntry_contract[of "exampleZip (localHeaderA @ [1, 2, 3]) 0 3" "js ''a''"
        exampleRuntime "exampleEntry 0 3" 1 0 "[1, 2, 3]"]
    by (simp add: exampleZip_def exampleEntry_def localHeaderA_def)
  have 4: "extractZipEntry exampleRuntime
     (exampleZip (localHeaderA @ [1, 3, 0, 0xFC, 0xFF, 7, 8, 9]) 8 8) (js ''a'')
     = Inr [7, 8, 9]"
    using extractZipEntry_contract[of "exampleZip (localHeaderA @ [1, 3, 0, 0xFC, 0xFF, 7, 8, 9]) 8 8"
        "js ''a''" exampleRuntime "exampleEntry 8 8" 1 0 "[1, 3, 0, 0xFC, 0xFF, 7, 8, 9]"]
    by (simp add: exampleZip_def exampleEntry_def localHeaderA_def inflateStored_def)
  have 5: "extractZipEntry exampleRuntime (exampleZip (localHeaderA @ [1, 2, 3]) 99 3) (js ''a'')
     = Inl UnsupportedCompression"
    using extractZipEntry_contract[of "exampleZip (localHeaderA @ [1, 2, 3]) 99 3" "js ''a''"
        exampleRuntime "exampleEntry 99 3" 1 0 "[1, 2, 3]"]
    by (simp add: exampleZip_def exampleEntry_def localHeaderA_def)
  have 6: "extractZipEntry exampleRuntime (exampleZip [0x50, 0x4b, 0x03] 0 3) (js ''a'')
     = Inl RangeError"
    using extractZipEntry_contract[where z = "exampleZip [0x50, 0x4b, 0x03] 0 3"
        and name = "js ''a''" and R = exampleRuntime and e = "exampleEntry 0 3"]
    by (simp add: exampleZip_def exampleEntry_def)
  have 7: "extractZipEntry exampleRuntime (exampleZip (take 27 localHeaderA) 0 3) (js ''a'')
     = Inl RangeError"
    using extractZipEntry_contract[where z = "exampleZip (take 27 localHeaderA) 0 3"
        and name = "js ''a''" and R = exampleRuntime and e = "exampleEntry 0 3"]
    by (simp add: exampleZip_def exampleEntry_def localHeaderA_def)
  show ?thesis using 1 2 3 4 5 6 7 by simp
qed

text \<open>
  The claim C6 as stated gives \<open>LocalHeaderError\<close> for every header without the signature,
  \<open>UnsupportedCompression\<close> for every method other than 0 and 8, and a payload of exactly
  \<open>compressedSize\<close> bytes. A buffer of three bytes has no signature at offset 0, and the
  result is \<open>RangeError\<close>; the header \<open>localHeaderA\<close> cut to 27 bytes with method 99 gives
  \<open>RangeError\<close> as well; and with two bytes after the header where \<open>compressedSize\<close> is 3,
  the stored entry is returned with these two bytes.
\<close>

theorem extractZipEntry_bounds_counterexample:
  "extractZipEntry exampleRuntime (exampleZip [1, 2, 3] 0 3) (js ''a'') = Inl RangeError \<and>
   extractZipEntry exampleRuntime (exampleZip (take 27 localHeaderA) 99 3) (js ''a'')
     = Inl RangeError \<and>
   extractZipEntry exampleRuntime (exampleZip (localHeaderA @ [1, 2]) 0 3) (js ''a'')
     = Inr [1, 2] \<and>
   compressedSize (exampleEntry 0 3) = 3"
  by (simp add: extractZipEntry_def exampleZip_def exampleEntry_def localHeaderA_def
      readUInt32LE_def readUInt16LE_def le32_def le16_def slice_def)

lemma sig_eocd: "off + 4 \<le> length buf \<Longrightarrow>
  le32 buf off = 0x06054b50 \<longleftrightarrow> take 4 (drop off buf) = [0x50, 0x4b, 0x05, 0x06]"
  using le32_bytes[of buf off "0x50" "0x4b" "0x05" "0x06"]
  by (simp add: take4_drop)

lemma sig_central: "off + 4 \<le> length buf \<Longrightarrow>
  le32 buf off = 0x02014b50 \<longleftrightarrow> take 4 (drop off buf) = [0x50, 0x4b, 0x01, 0x02]"
  using le32_bytes[of buf off "0x50" "0x4b" "0x01" "0x02"]
  by (simp add: take4_drop)

lemma scanEocd_Some:
  "i + 4 \<le> length buf \<Longrightarrow> scanEocd buf i = Inr (Some k) \<longleftrightarrow>
     k \<le> i \<and> le32 buf k = 0x06054b50 \<and> (\<forall>j. k < j \<and> j \<le> i \<longrightarrow> le32 buf j \<noteq> 0x06054b50)"
proof (induction i)
  case 0
  then show ?case
    by (subst scanEocd.simps) (auto simp: readUInt32LE_def)
next
  case (Suc i)
  have ih: "scanEocd buf i = Inr (Some k) \<longleftrightarrow>
     k \<le> i \<and> le32 buf k = 0x06054b50 \<and> (\<forall>j. k < j \<and> j \<le> i \<longrightarrow> le32 buf j \<noteq> 0x06054b50)"
    using Suc by simp
  show ?case
  proof (cases "le32 buf (Suc i) = 0x06054b50")
    case True
    have "scanEocd buf (Suc i) = Inr (Some (Suc i))"
      using True Suc.prems by (subst scanEocd.simps) (simp add: readUInt32LE_def)
    moreover have "(k \<le> Suc i \<and> le32 buf k = 0x06054b50 \<and>
        (\<forall>j. k < j \<and> j \<le> Suc i \<longrightarrow> le32 buf j \<noteq> 0x06054b50)) \<longleftrightarrow> k = Suc i"
      using True by (auto simp: le_Suc_eq)
    ultimately show ?thesis by auto
  next
    case False
    have "scanEocd buf (Suc i) = scanEocd buf i"
      using False Suc.prems by (subst scanEocd.simps) (simp add: readUInt32LE_def)
    moreover have "(k \<le> Suc i \<and> le32 buf k = 0x06054b50 \<and>
        (\<forall>j. k < j \<and> j \<le> Suc i \<longrightarrow> le32 buf j \<noteq> 0x06054b50)) \<longleftrightarrow>
      (k \<le> i \<and> le32 buf k = 0x06054b50 \<and> (\<forall>j. k < j \<and> j \<le> i \<longrightarrow> le32 buf j \<noteq> 0x06054b50))"
      using False by (auto simp: le_Suc_eq)
    ultimately show ?thesis using ih by simp
  qed
qed

lemma scanEocd_None:
  "i + 4 \<le> length buf \<Longrightarrow> scanEocd buf i = Inr None \<longleftrightarrow> (\<forall>j \<le> i. le32 buf j \<noteq> 0x06054b50)"
proof (induction i)
  case 0
  then show ?case
    by (subst scanEocd.simps) (auto simp: readUInt32LE_def)
next
  case (Suc i)
  then show ?case
    by (subst scanEocd.simps) (auto simp: readUInt32LE_def le_Suc_eq)
qed

lemma scanEocd_total:
  "i + 4 \<le> length buf \<Longrightarrow> \<exists>r. scanEocd buf i = Inr r"
proof (induction i)
  case 0
  then show ?case
    by (subst scanEocd.simps) (auto simp: readUInt32LE_def)
next
  case (Suc i)
  then show ?case
    by (subst scanEocd.simps) (auto simp: readUInt32LE_def)
qed


lemma locateEocd_Some:
  "locateEocd buf = Inr (Some k) \<longleftrightarrow>
     k + 22 \<le> length buf \<and> take 4 (drop k buf) = [0x50, 0x4b, 0x05, 0x06] \<and>
     (\<forall>j. k < j \<and> j + 22 \<le> length buf \<longrightarrow> take 4 (drop j buf) \<noteq> [0x50, 0x4b, 0x05, 0x06])"
proof (cases "length buf < 22")
  case True
  then show ?thesis by (simp add: locateEocd_def)
next
  case False
  then have r: "length buf - 22 + 4 \<le> length buf" by simp
  have eq: "\<And>j. j \<le> length buf - 22 \<longleftrightarrow> j + 22 \<le> length buf" using False by auto
  have s: "\<And>j. j + 22 \<le> length buf \<Longrightarrow>
      le32 buf j = 0x06054b50 \<longleftrightarrow> take 4 (drop j buf) = [0x50, 0x4b, 0x05, 0x06]"
    by (rule sig_eocd) simp
  show ?thesis
    using False scanEocd_Some[OF r, of k] s
    by (auto simp: locateEocd_def eq)
qed

lemma locateEocd_None:
  "locateEocd buf = Inr None \<longleftrightarrow>
     (\<forall>j. j + 22 \<le> length buf \<longrightarrow> take 4 (drop j buf) \<noteq> [0x50, 0x4b, 0x05, 0x06])"
proof (cases "length buf < 22")
  case True
  then show ?thesis by (simp add: locateEocd_def)
next
  case False
  then have r: "length buf - 22 + 4 \<le> length buf" by simp
  have eq: "\<And>j. j \<le> length buf - 22 \<longleftrightarrow> j + 22 \<le> length buf" using False by auto
  have s: "\<And>j. j + 22 \<le> length buf \<Longrightarrow>
      le32 buf j = 0x06054b50 \<longleftrightarrow> take 4 (drop j buf) = [0x50, 0x4b, 0x05, 0x06]"
    by (rule sig_eocd) simp
  show ?thesis
    using False scanEocd_None[OF r] s
    by (auto simp: locateEocd_def eq)
qed

lemma locateEocd_total: "\<exists>r. locateEocd buf = Inr r"
proof (cases "length buf < 22")
  case True
  then show ?thesis by (simp add: locateEocd_def)
next
  case False
  then have "length buf - 22 + 4 \<le> length buf" by simp
  from scanEocd_total[OF this] show ?thesis using False by (simp add: locateEocd_def)
qed

lemma readCentralDirectory_step:
  assumes "off + 46 \<le> length buf" "le32 buf off = 0x02014b50"
  shows "readCentralDirectory R buf off (Suc n) es =
           readCentralDirectory R buf
             (off + (46 + le16 buf (off + 28) + le16 buf (off + 30) + le16 buf (off + 32))) n
             (es(centralHeaderName R buf off \<mapsto>
                \<lparr>compressionMethod = le16 buf (off + 10), compressedSize = le32 buf (off + 20),
                 uncompressedSize = le32 buf (off + 24), localHeaderOffset = le32 buf (off + 42)\<rparr>))"
  using assms
  by (simp add: readUInt32LE_def readUInt16LE_def centralHeaderName_def slice_def Let_def)

lemma readCentralDirectory_bad:
  assumes "off + 4 \<le> length buf" "le32 buf off \<noteq> 0x02014b50"
  shows "readCentralDirectory R buf off (Suc n) es = Inl CentralDirectoryError"
  using assms by (simp add: readUInt32LE_def)

lemma readCentralDirectory_Inr_head:
  assumes "readCentralDirectory R buf off (Suc n) es = Inr es'"
  shows "off + 46 \<le> length buf \<and> le32 buf off = 0x02014b50"
  using assms
  by (auto simp: readUInt32LE_def readUInt16LE_def bind_def split: if_splits sum.splits)

lemma readCentralDirectory_errors:
  "readCentralDirectory R buf off n es = Inl e \<Longrightarrow> e = RangeError \<or> e = CentralDirectoryError"
proof (induction n arbitrary: off es)
  case 0
  then show ?case by simp
next
  case (Suc n)
  show ?case
  proof (cases "off + 46 \<le> length buf \<and> le32 buf off = 0x02014b50")
    case True
    then show ?thesis using Suc readCentralDirectory_step[of off buf R n es] by auto
  next
    case False
    then show ?thesis using Suc.prems
      by (auto simp: readUInt32LE_def readUInt16LE_def bind_def split: if_splits sum.splits)
  qed
qed

lemma readCentralDirectory_complete:
  "readCentralDirectory R buf off n es = Inr es' \<Longrightarrow>
     length (centralHeaderOffsets buf off n) = n \<and>
     (\<forall>h \<in> set (centralHeaderOffsets buf off n).
        h + 46 \<le> length buf \<and> take 4 (drop h buf) = [0x50, 0x4b, 0x01, 0x02]) \<and>
     dom es' = dom es \<union> centralHeaderName R buf ` set (centralHeaderOffsets buf off n)"
proof (induction n arbitrary: off es)
  case 0
  then show ?case by simp
next
  case (Suc n)
  from readCentralDirectory_Inr_head[OF Suc.prems]
  have h: "off + 46 \<le> length buf" "le32 buf off = 0x02014b50" by simp_all
  then have sig: "take 4 (drop off buf) = [0x50, 0x4b, 0x01, 0x02]"
    using sig_central[of off buf] by simp
  from Suc.prems have "readCentralDirectory R buf
             (off + (46 + le16 buf (off + 28) + le16 buf (off + 30) + le16 buf (off + 32))) n
             (es(centralHeaderName R buf off \<mapsto>
                \<lparr>compressionMethod = le16 buf (off + 10), compressedSize = le32 buf (off + 20),
                 uncompressedSize = le32 buf (off + 24), localHeaderOffset = le32 buf (off + 42)\<rparr>))
           = Inr es'"
    by (simp only: readCentralDirectory_step[OF h])
  from Suc.IH[OF this] show ?case using h sig by auto
qed

lemma readCentralDirectory_first_bad:
  "i < length (centralHeaderOffsets buf off n) \<Longrightarrow>
   centralHeaderOffsets buf off n ! i + 4 \<le> length buf \<Longrightarrow>
   take 4 (drop (centralHeaderOffsets buf off n ! i) buf) \<noteq> [0x50, 0x4b, 0x01, 0x02] \<Longrightarrow>
   (\<forall>h \<in> set (take i (centralHeaderOffsets buf off n)).
      take 4 (drop h buf) = [0x50, 0x4b, 0x01, 0x02]) \<Longrightarrow>
   readCentralDirectory R buf off n es = Inl CentralDirectoryError"
proof (induction n arbitrary: off es i)
  case 0
  then show ?case by simp
next
  case (Suc n)
  show ?case
  proof (cases i)
    case 0
    then show ?thesis
      using Suc.prems sig_central[of off buf] readCentralDirectory_bad[of off buf R n es]
      by simp
  next
    case (Suc j)
    then have range: "off + 46 \<le> length buf"
      using Suc.prems(1) by (auto split: if_splits)
    have "take 4 (drop off buf) = [0x50, 0x4b, 0x01, 0x02]"
      using Suc.prems(4) Suc by simp
    then have sig: "le32 buf off = 0x02014b50"
      using sig_central[of off buf] range by simp
    have "readCentralDirectory R buf
             (off + (46 + le16 buf (off + 28) + le16 buf (off + 30) + le16 buf (off + 32))) n
             (es(centralHeaderName R buf off \<mapsto>
                \<lparr>compressionMethod = le16 buf (off + 10), compressedSize = le32 buf (off + 20),
                 uncompressedSize = le32 buf (off + 24), localHeaderOffset = le32 buf (off + 42)\<rparr>))
          = Inl CentralDirectoryError"
      using Suc.prems Suc range by (intro Suc.IH[of j]) auto
    then show ?thesis by (simp only: readCentralDirectory_step[OF range sig])
  qed
qed

lemma readCentralDirectory_succeeds:
  "length (centralHeaderOffsets buf off n) = n \<Longrightarrow>
   (\<forall>h \<in> set (centralHeaderOffsets buf off n).
      h + 46 \<le> length buf \<and> take 4 (drop h buf) = [0x50, 0x4b, 0x01, 0x02]) \<Longrightarrow>
   \<exists>es'. readCentralDirectory R buf off n es = Inr es'"
proof (induction n arbitrary: off es)
  case 0
  then show ?case by simp
next
  case (Suc n)
  from Suc.prems(2) have range: "off + 46 \<le> length buf"
    and "take 4 (drop off buf) = [0x50, 0x4b, 0x01, 0x02]" by simp_all
  then have sig: "le32 buf off = 0x02014b50"
    using sig_central[of off buf] by simp
  show ?case
    using Suc.prems range
    by (simp only: readCentralDirectory_step[OF range sig]) (intro Suc.IH, auto)
qed

lemma readCentralDirectory_outside:
  assumes "length buf < off + 4"
  shows "readCentralDirectory R buf off (Suc n) es = Inl RangeError"
  using assms by (simp add: readUInt32LE_def)

lemma readCentralDirectory_cut:
  assumes "off + 4 \<le> length buf" "le32 buf off = 0x02014b50" "length buf < off + 46"
  shows "readCentralDirectory R buf off (Suc n) es = Inl RangeError"
  using assms by (simp add: readUInt32LE_def readUInt16LE_def)

lemma readCentralDirectory_first_outside:
  "i < length (centralHeaderOffsets buf off n) \<Longrightarrow>
   length buf < centralHeaderOffsets buf off n ! i + 4 \<or>
   (centralHeaderOffsets buf off n ! i + 4 \<le> length buf \<and>
    take 4 (drop (centralHeaderOffsets buf off n ! i) buf) = [0x50, 0x4b, 0x01, 0x02] \<and>
    length buf < centralHeaderOffsets buf off n ! i + 46) \<Longrightarrow>
   (\<forall>h \<in> set (take i (centralHeaderOffsets buf off n)).
      take 4 (drop h buf) = [0x50, 0x4b, 0x01, 0x02]) \<Longrightarrow>
   readCentralDirectory R buf off n es = Inl RangeError"
proof (induction n arbitrary: off es i)
  case 0
  then show ?case by simp
next
  case (Suc n)
  show ?case
  proof (cases i)
    case 0
    then show ?thesis
      using Suc.prems sig_central[of off buf] readCentralDirectory_outside[of buf off R n es]
        readCentralDirectory_cut[of off buf R n es]
      by auto
  next
    case (Suc j)
    then have range: "off + 46 \<le> length buf"
      using Suc.prems(1) by (auto split: if_splits)
    have "take 4 (drop off buf) = [0x50, 0x4b, 0x01, 0x02]"
      using Suc.prems(3) Suc by simp
    then have sig: "le32 buf off = 0x02014b50"
      using sig_central[of off buf] range by simp
    have "readCentralDirectory R buf
             (off + (46 + le16 buf (off + 28) + le16 buf (off + 30) + le16 buf (off + 32))) n
             (es(centralHeaderName R buf off \<mapsto>
                \<lparr>compressionMethod = le16 buf (off + 10), compressedSize = le32 buf (off + 20),
                 uncompressedSize = le32 buf (off + 24), localHeaderOffset = le32 buf (off + 42)\<rparr>))
          = Inl RangeError"
      using Suc.prems Suc range by (intro Suc.IH[of j]) auto
    then show ?thesis by (simp only: readCentralDirectory_step[OF range sig])
  qed
qed

text \<open>
  Claim C7, as amended. The scan for the end-of-central-directory record goes backward
  from offset \<open>length - 22\<close>, the last offset at which the 22-byte record fits: the match
  nearest the end is taken, and the result is \<open>ArchiveFormatError\<close> exactly when no such
  offset carries the signature \<open>50 4b 05 06\<close> (in particular when the buffer has no
  signature at all). An entry count of zero gives the empty index. When the loop over
  the central directory returns an index, it has visited all \<open>n\<close> headers, each inside the
  buffer and starting with \<open>50 4b 01 02\<close>, and the index holds the name of each; and it
  returns an index whenever all \<open>n\<close> headers are so. The
  first header that is not so decides the failure, and no index is returned: four bytes
  inside the buffer that are not the signature give \<open>CentralDirectoryError\<close>, and a header
  that does not lie inside the buffer (its first four bytes, or the 46 fixed bytes of a
  header that has the signature) gives \<open>RangeError\<close>.
\<close>

theorem readZipEntries_index:
  "(readZipEntries R buf = Inl ArchiveFormatError \<longleftrightarrow>
      (\<forall>j. j + 22 \<le> length buf \<longrightarrow> take 4 (drop j buf) \<noteq> [0x50, 0x4b, 0x05, 0x06])) \<and>
   ((\<forall>j. take 4 (drop j buf) \<noteq> [0x50, 0x4b, 0x05, 0x06]) \<longrightarrow>
      readZipEntries R buf = Inl ArchiveFormatError) \<and>
   (k + 22 \<le> length buf \<and> take 4 (drop k buf) = [0x50, 0x4b, 0x05, 0x06] \<and>
    (\<forall>j. k < j \<and> j + 22 \<le> length buf \<longrightarrow> take 4 (drop j buf) \<noteq> [0x50, 0x4b, 0x05, 0x06])
      \<longrightarrow> readZipEntries R buf =
            bind (readCentralDirectory R buf (le32 buf (k + 16)) (le16 buf (k + 10)) Map.empty)
              (\<lambda>es. Inr \<lparr>buffer = buf, entries = es\<rparr>) \<and>
          (le16 buf (k + 10) = 0 \<longrightarrow>
             readZipEntries R buf = Inr \<lparr>buffer = buf, entries = Map.empty\<rparr>)) \<and>
   (readCentralDirectory R buf off n es = Inr es' \<longrightarrow>
      length (centralHeaderOffsets buf off n) = n \<and>
      (\<forall>h \<in> set (centralHeaderOffsets buf off n).
         h + 46 \<le> length buf \<and> take 4 (drop h buf) = [0x50, 0x4b, 0x01, 0x02]) \<and>
      dom es' = dom es \<union> centralHeaderName R buf ` set (centralHeaderOffsets buf off n)) \<and>
   (i < length (centralHeaderOffsets buf off n) \<and>
    centralHeaderOffsets buf off n ! i + 4 \<le> length buf \<and>
    take 4 (drop (centralHeaderOffsets buf off n ! i) buf) \<noteq> [0x50, 0x4b, 0x01, 0x02] \<and>
    (\<forall>h \<in> set (take i (centralHeaderOffsets buf off n)).
       take 4 (drop h buf) = [0x50, 0x4b, 0x01, 0x02])
      \<longrightarrow> readCentralDirectory R buf off n es = Inl CentralDirectoryError) \<and>
   (i < length (centralHeaderOffsets buf off n) \<and>
    length buf < centralHeaderOffsets buf off n ! i + 4 \<and>
    (\<forall>h \<in> set (take i (centralHeaderOffsets buf off n)).
       take 4 (drop h buf) = [0x50, 0x4b, 0x01, 0x02])
      \<longrightarrow> readCentralDirectory R buf off n es = Inl RangeError) \<and>
   (i < length (centralHeaderOffsets buf off n) \<and>
    centralHeaderOffsets buf off n ! i + 4 \<le> length buf \<and>
    take 4 (drop (centralHeaderOffsets buf off n ! i) buf) = [0x50, 0x4b, 0x01, 0x02] \<and>
    length buf < centralHeaderOffsets buf off n ! i + 46 \<and>
    (\<forall>h \<in> set (take i (centralHeaderOffsets buf off n)).
       take 4 (drop h buf) = [0x50, 0x4b, 0x01, 0x02])
      \<longrightarrow> readCentralDirectory R buf off n es = Inl RangeError) \<and>
   (readCentralDirectory R buf off n es = Inl err
      \<longrightarrow> err = CentralDirectoryError \<or> err = RangeError) \<and>
   (length (centralHeaderOffsets buf off n) = n \<and>
    (\<forall>h \<in> set (centralHeaderOffsets buf off n).
       h + 46 \<le> length buf \<and> take 4 (drop h buf) = [0x50, 0x4b, 0x01, 0x02])
      \<longrightarrow> (\<exists>index. readCentralDirectory R buf off n es = Inr index))"
proof -
  have none: "readZipEntries R buf = Inl ArchiveFormatError \<longleftrightarrow>
      (\<forall>j. j + 22 \<le> length buf \<longrightarrow> take 4 (drop j buf) \<noteq> [0x50, 0x4b, 0x05, 0x06])"
  proof
    assume l: "readZipEntries R buf = Inl ArchiveFormatError"
    obtain r where r: "locateEocd buf = Inr r" using locateEocd_total by blast
    have "r = None"
    proof (cases r)
      case None
      then show ?thesis .
    next
      case (Some q)
      then have q: "q + 22 \<le> length buf" using r locateEocd_Some[of buf q] by simp
      have "readCentralDirectory R buf (le32 buf (q + 16)) (le16 buf (q + 10)) Map.empty
              = Inl ArchiveFormatError"
        using l r Some q
        by (auto simp: readZipEntries_def readUInt32LE_def readUInt16LE_def bind_def
            split: sum.splits)
      from readCentralDirectory_errors[OF this] show ?thesis by simp
    qed
    then show "\<forall>j. j + 22 \<le> length buf \<longrightarrow> take 4 (drop j buf) \<noteq> [0x50, 0x4b, 0x05, 0x06]"
      using r locateEocd_None[of buf] by simp
  next
    assume "\<forall>j. j + 22 \<le> length buf \<longrightarrow> take 4 (drop j buf) \<noteq> [0x50, 0x4b, 0x05, 0x06]"
    then have "locateEocd buf = Inr None" using locateEocd_None[of buf] by simp
    then show "readZipEntries R buf = Inl ArchiveFormatError"
      by (simp add: readZipEntries_def)
  qed
  have found: "readZipEntries R buf =
            bind (readCentralDirectory R buf (le32 buf (k + 16)) (le16 buf (k + 10)) Map.empty)
              (\<lambda>es. Inr \<lparr>buffer = buf, entries = es\<rparr>) \<and>
          (le16 buf (k + 10) = 0 \<longrightarrow>
             readZipEntries R buf = Inr \<lparr>buffer = buf, entries = Map.empty\<rparr>)"
    if h: "k + 22 \<le> length buf \<and> take 4 (drop k buf) = [0x50, 0x4b, 0x05, 0x06] \<and>
      (\<forall>j. k < j \<and> j + 22 \<le> length buf \<longrightarrow> take 4 (drop j buf) \<noteq> [0x50, 0x4b, 0x05, 0x06])"
  proof -
    have "locateEocd buf = Inr (Some k)" using h locateEocd_Some[of buf k] by simp
    then have "readZipEntries R buf =
            bind (readCentralDirectory R buf (le32 buf (k + 16)) (le16 buf (k + 10)) Map.empty)
              (\<lambda>es. Inr \<lparr>buffer = buf, entries = es\<rparr>)"
      using h by (simp add: readZipEntries_def readUInt32LE_def readUInt16LE_def)
    then show ?thesis by simp
  qed
  have outside: "readCentralDirectory R buf off n es = Inl RangeError"
    if "i < length (centralHeaderOffsets buf off n) \<and>
      length buf < centralHeaderOffsets buf off n ! i + 4 \<and>
      (\<forall>h \<in> set (take i (centralHeaderOffsets buf off n)).
         take 4 (drop h buf) = [0x50, 0x4b, 0x01, 0x02])"
    using that readCentralDirectory_first_outside[of i buf off n R es] by blast
  have cut: "readCentralDirectory R buf off n es = Inl RangeError"
    if "i < length (centralHeaderOffsets buf off n) \<and>
      centralHeaderOffsets buf off n ! i + 4 \<le> length buf \<and>
      take 4 (drop (centralHeaderOffsets buf off n ! i) buf) = [0x50, 0x4b, 0x01, 0x02] \<and>
      length buf < centralHeaderOffsets buf off n ! i + 46 \<and>
      (\<forall>h \<in> set (take i (centralHeaderOffsets buf off n)).
         take 4 (drop h buf) = [0x50, 0x4b, 0x01, 0x02])"
    using that readCentralDirectory_first_outside[of i buf off n R es] by blast
  have errors: "readCentralDirectory R buf off n es = Inl err
      \<longrightarrow> err = CentralDirectoryError \<or> err = RangeError"
    using readCentralDirectory_errors[of R buf off n es err] by blast
  have bad: "readCentralDirectory R buf off n es = Inl CentralDirectoryError"
    if "i < length (centralHeaderOffsets buf off n) \<and>
      centralHeaderOffsets buf off n ! i + 4 \<le> length buf \<and>
      take 4 (drop (centralHeaderOffsets buf off n ! i) buf) \<noteq> [0x50, 0x4b, 0x01, 0x02] \<and>
      (\<forall>h \<in> set (take i (centralHeaderOffsets buf off n)).
         take 4 (drop h buf) = [0x50, 0x4b, 0x01, 0x02])"
    using that readCentralDirectory_first_bad[of i buf off n R es] by blast
  have complete: "readCentralDirectory R buf off n es = Inr es' \<longrightarrow>
      length (centralHeaderOffsets buf off n) = n \<and>
      (\<forall>h \<in> set (centralHeaderOffsets buf off n).
         h + 46 \<le> length buf \<and> take 4 (drop h buf) = [0x50, 0x4b, 0x01, 0x02]) \<and>
      dom es' = dom es \<union> centralHeaderName R buf ` set (centralHeaderOffsets buf off n)"
    using readCentralDirectory_complete[of R buf off n es es'] by blast
  have succeeds: "\<exists>index. readCentralDirectory R buf off n es = Inr index"
    if "length (centralHeaderOffsets buf off n) = n \<and>
      (\<forall>h \<in> set (centralHeaderOffsets buf off n).
         h + 46 \<le> length buf \<and> take 4 (drop h buf) = [0x50, 0x4b, 0x01, 0x02])"
    using that readCentralDirectory_succeeds[of buf off n R es] by blast
  have nosig: "(\<forall>j. take 4 (drop j buf) \<noteq> [0x50, 0x4b, 0x05, 0x06]) \<longrightarrow>
      readZipEntries R buf = Inl ArchiveFormatError"
    using none by blast
  show ?thesis
    apply (intro conjI)
            apply (rule none)
           apply (rule nosig)
          apply (rule impI, erule found)
         apply (rule complete)
        apply (rule impI, erule bad)
       apply (rule impI, erule outside)
      apply (rule impI, erule cut)
     apply (rule errors)
    apply (rule impI, erule succeeds)
    done
qed

theorem readZipEntries_index_witness:
  "readZipEntries exampleRuntime [1, 2, 3] = Inl ArchiveFormatError \<and>
   readZipEntries exampleRuntime emptyArchive
     = Inr \<lparr>buffer = emptyArchive, entries = Map.empty\<rparr> \<and>
   readZipEntries exampleRuntime exampleArchive
     = Inr \<lparr>buffer = exampleArchive, entries = [js ''a'' \<mapsto> exampleEntry 0 3]\<rparr> \<and>
   readCentralDirectory exampleRuntime (exampleArchive[35 := 0]) 34 1 Map.empty
     = Inl CentralDirectoryError \<and>
   readCentralDirectory exampleRuntime missingDirectoryArchive 22 1 Map.empty
     = Inl RangeError \<and>
   readCentralDirectory exampleRuntime (take 60 exampleArchive) 34 1 Map.empty
     = Inl RangeError \<and>
   (\<exists>index. readCentralDirectory exampleRuntime exampleArchive 34 1 Map.empty = Inr index)"
proof -
  note idx = readZipEntries_index
  have 1: "readZipEntries exampleRuntime [1, 2, 3] = Inl ArchiveFormatError"
    using idx[of exampleRuntime "[1, 2, 3]", THEN conjunct1] by simp
  have 2: "readZipEntries exampleRuntime emptyArchive
     = Inr \<lparr>buffer = emptyArchive, entries = Map.empty\<rparr>"
    using idx[of exampleRuntime emptyArchive 0, THEN conjunct2, THEN conjunct2, THEN conjunct1]
    by (auto simp add: emptyArchive_def le16_def)
  have 3: "readZipEntries exampleRuntime exampleArchive
     = Inr \<lparr>buffer = exampleArchive, entries = [js ''a'' \<mapsto> exampleEntry 0 3]\<rparr>"
    using idx[of exampleRuntime exampleArchive 81, THEN conjunct2, THEN conjunct2, THEN conjunct1]
    by (auto simp add: exampleArchive_def localHeaderA_def le16_def le32_def readUInt32LE_def
        readUInt16LE_def slice_def utf8Ascii_def exampleEntry_def)
  have 4: "readCentralDirectory exampleRuntime (exampleArchive[35 := 0]) 34 1 Map.empty
     = Inl CentralDirectoryError"
    using idx[where R = exampleRuntime and buf = "exampleArchive[35 := 0]" and off = 34 and n = 1
          and es = Map.empty and i = 0,
        THEN conjunct2, THEN conjunct2, THEN conjunct2, THEN conjunct2, THEN conjunct1]
    by (simp add: exampleArchive_def localHeaderA_def)
  have 5: "readCentralDirectory exampleRuntime missingDirectoryArchive 22 1 Map.empty
     = Inl RangeError"
    using idx[where R = exampleRuntime and buf = missingDirectoryArchive and off = 22 and n = 1
          and es = Map.empty and i = 0,
        THEN conjunct2, THEN conjunct2, THEN conjunct2, THEN conjunct2, THEN conjunct2,
        THEN conjunct1]
    by (simp add: missingDirectoryArchive_def)
  have 6: "readCentralDirectory exampleRuntime (take 60 exampleArchive) 34 1 Map.empty
     = Inl RangeError"
    using idx[where R = exampleRuntime and buf = "take 60 exampleArchive" and off = 34 and n = 1
          and es = Map.empty and i = 0,
        THEN conjunct2, THEN conjunct2, THEN conjunct2, THEN conjunct2, THEN conjunct2,
        THEN conjunct2, THEN conjunct1]
    by (simp add: exampleArchive_def localHeaderA_def)
  have 7: "\<exists>index. readCentralDirectory exampleRuntime exampleArchive 34 1 Map.empty = Inr index"
    using idx[where R = exampleRuntime and buf = exampleArchive and off = 34 and n = 1
          and es = Map.empty,
        THEN conjunct2, THEN conjunct2, THEN conjunct2, THEN conjunct2, THEN conjunct2,
        THEN conjunct2, THEN conjunct2, THEN conjunct2]
    by (simp add: exampleArchive_def localHeaderA_def)
  show ?thesis using 1 2 3 4 5 6 7 by simp
qed

text \<open>
  The claim C7 as stated gives \<open>CentralDirectoryError\<close> whenever a central-directory
  header does not begin with the signature. In \<open>missingDirectoryArchive\<close> the record
  declares one entry and a central directory at offset 22, where the buffer ends: no
  header begins there, and the result is \<open>RangeError\<close>.
\<close>

theorem central_directory_outside_counterexample:
  "take 4 (drop 22 missingDirectoryArchive) \<noteq> [0x50, 0x4b, 0x01, 0x02] \<and>
   locateEocd missingDirectoryArchive = Inr (Some 0) \<and>
   readZipEntries exampleRuntime missingDirectoryArchive = Inl RangeError"
  by (simp add: missingDirectoryArchive_def locateEocd_def scanEocd.simps readZipEntries_def
      readUInt32LE_def readUInt16LE_def le32_def le16_def)
section \<open>Properties of the text decoders\<close>

text \<open>
  Claim C3 says that every occurrence of an entity in the source text is decoded at
  most once, so that \<^verbatim>\<open>&amp;lt;\<close> yields the literal \<^verbatim>\<open>&lt;\<close>. The program replaces
  \<^verbatim>\<open>&amp;\<close> first and \<^verbatim>\<open>&lt;\<close> afterwards, over the result of the first replacement:
  \<open>decodeXmlEntities\<close> turns \<^verbatim>\<open>&amp;lt;\<close> into \<open><\<close>, and \<^verbatim>\<open>&amp;#65;\<close> into \<open>A\<close>.
\<close>

theorem decodeXmlEntities_decodes_twice:
  "decodeXmlEntities (js ''&amp;lt;'') = js ''<'' \<and>
   decodeXmlEntities (js ''&amp;lt;'') \<noteq> js ''&lt;'' \<and>
   decodeXmlEntities (js ''&amp;#65;'') = js ''A''"
  by (simp add: decodeXmlEntities_def isDigit_def isHexDigit_def parseInt_def digitValue_def
      fromCharCode_def entityDigits_def entityRest_def)

text \<open>
  The other parts of the claim hold: entities of each kind are decoded, an unrecognised
  entity passes through, and the runs of one entry are concatenated in document order.
\<close>

lemma decodeXmlEntities_examples:
  "decodeXmlEntities (js ''a&#65;&#x42;&lt;&gt;&amp;&foo;&#;'') = js ''aAB<>&&foo;&#;'' \<and>
   decodeXmlEntities (js ''&quot;&apos;'') = js [CHR 0x22, CHR 0x27]"
  by (simp add: decodeXmlEntities_def isDigit_def isHexDigit_def parseInt_def digitValue_def
      fromCharCode_def entityDigits_def entityRest_def)

lemma combineRuns_concat:
  "textRuns siContent = runs \<Longrightarrow> combineRuns siContent = concat (map decodeXmlEntities runs)"
  by (simp add: combineRuns_def)

text \<open>
  Claim C1, as amended. \<open>parseSharedStrings\<close> never fails. It returns the empty
  sequence when the shared-string part is absent, and also when extracting the part
  fails in any other way (a corrupt local header, an unsupported compression method, a
  read outside the buffer, a failed inflate): the \<^verbatim>\<open>catch\<close> of the source takes every
  error. When the part is extracted, the result has one string for every \<^verbatim>\<open><si>\<close>
  element of its text.
\<close>

theorem parseSharedStrings_total:
  "(\<exists>strings. parseSharedStrings R z = Inr strings) \<and>
   (entries z (js ''xl/sharedStrings.xml'') = None \<longrightarrow> parseSharedStrings R z = Inr []) \<and>
   (extractZipEntry R z (js ''xl/sharedStrings.xml'') = Inl e \<longrightarrow>
      parseSharedStrings R z = Inr []) \<and>
   (extractZipEntry R z (js ''xl/sharedStrings.xml'') = Inr bytes \<longrightarrow>
      parseSharedStrings R z = Inr (map combineRuns (siMatches (utf8ToString R bytes))))"
  by (auto simp: parseSharedStrings_def extractZipEntry_def split: sum.splits)

theorem parseSharedStrings_total_witness:
  "parseSharedStrings exampleRuntime (exampleZip (localHeaderA @ [1, 2, 3]) 0 3) = Inr [] \<and>
   parseSharedStrings exampleRuntime (sharedStringsZip (localHeaderA @ [1, 2, 3]) 99 3) = Inr [] \<and>
   parseSharedStrings exampleRuntime
     (sharedStringsZip (localHeaderA @ sharedStringsXml) 0 87)
     = Inr [js ''a&b'', js ''xy'']"
proof -
  note total = parseSharedStrings_total
  have 1: "parseSharedStrings exampleRuntime (exampleZip (localHeaderA @ [1, 2, 3]) 0 3) = Inr []"
    using total[where z = "exampleZip (localHeaderA @ [1, 2, 3]) 0 3" and R = exampleRuntime,
        THEN conjunct2, THEN conjunct1]
    by (simp add: exampleZip_def)
  have "extractZipEntry exampleRuntime (sharedStringsZip (localHeaderA @ [1, 2, 3]) 99 3)
          (js ''xl/sharedStrings.xml'') = Inl UnsupportedCompression"
    by (simp add: sharedStringsZip_def extractZipEntry_def exampleEntry_def localHeaderA_def
        readUInt32LE_def readUInt16LE_def le32_def le16_def)
  then have 2: "parseSharedStrings exampleRuntime (sharedStringsZip (localHeaderA @ [1, 2, 3]) 99 3)
      = Inr []"
    using total[where z = "sharedStringsZip (localHeaderA @ [1, 2, 3]) 99 3"
        and R = exampleRuntime and e = UnsupportedCompression,
        THEN conjunct2, THEN conjunct2, THEN conjunct1]
    by simp
  have len: "length sharedStringsXml = 87"
    by (simp add: sharedStringsXml_def)
  have "extractZipEntry exampleRuntime
          (sharedStringsZip (localHeaderA @ sharedStringsXml) 0 87)
          (js ''xl/sharedStrings.xml'') = Inr sharedStringsXml"
    using len
    by (simp add: sharedStringsZip_def extractZipEntry_def exampleEntry_def localHeaderA_def
        readUInt32LE_def readUInt16LE_def le32_def le16_def slice_def)
  then have 3: "parseSharedStrings exampleRuntime
     (sharedStringsZip (localHeaderA @ sharedStringsXml) 0 87)
     = Inr [js ''a&b'', js ''xy'']"
    using total[where z = "sharedStringsZip (localHeaderA @ sharedStringsXml) 0
          87" and R = exampleRuntime and bytes = sharedStringsXml,
        THEN conjunct2, THEN conjunct2, THEN conjunct2]
    by (simp add: sharedStringsXml_def utf8Ascii_def combineRuns_def textRuns_def
        matchElement_def decodeXmlEntities_def)
  show ?thesis using 1 2 3 by simp
qed

text \<open>
  The claim C1 as stated has the parse fail with \<open>UnsupportedCompression\<close> or
  \<open>LocalHeaderError\<close> when the part is present with such an entry. In both archives
  below the part is present and extracting it fails with that error; the parse returns
  the empty table.
\<close>

theorem parseSharedStrings_swallows_errors_counterexample:
  "extractZipEntry exampleRuntime (sharedStringsZip (localHeaderA @ [1, 2, 3]) 99 3)
     (js ''xl/sharedStrings.xml'') = Inl UnsupportedCompression \<and>
   parseSharedStrings exampleRuntime (sharedStringsZip (localHeaderA @ [1, 2, 3]) 99 3)
     = Inr [] \<and>
   extractZipEntry exampleRuntime (sharedStringsZip (0 # localHeaderA @ [1, 2, 3]) 0 3)
     (js ''xl/sharedStrings.xml'') = Inl LocalHeaderError \<and>
   parseSharedStrings exampleRuntime (sharedStringsZip (0 # localHeaderA @ [1, 2, 3]) 0 3)
     = Inr []"
  by (simp add: parseSharedStrings_def sharedStringsZip_def extractZipEntry_def exampleEntry_def
      localHeaderA_def readUInt32LE_def readUInt16LE_def le32_def le16_def)

section \<open>Properties of cells, rows and records\<close>

lemmas evalSheet = sheetRows_def rowMatches_def matchElement_def rowCells_def matchCellTail_def
  dquote_def isUpper_def isDigit_def parseCellValue_def valueMatch_def inlineMatch_def
  arrayGet_def decimalToNumber_def parseInt_def digitValue_def decodeXmlEntities_def
  headerRow_def rowRecord_def recordStep_def truthy_def toString_def setProperty_def cellAt_def
  columnLettersToIndex_def isHighSurrogate_def letterDigit_ascii toUpperCaseUnit_def
  roundInteger_exact entityDigits_def entityRest_def isHexDigit_def


lemma in_zip_upt: "(h, i) \<in> set (zip xs [0..<length xs]) \<longleftrightarrow> i < length xs \<and> h = xs ! i"
  by (auto simp: set_zip)

lemma rowRecord_foldl:
  "rowRecord R headers m = foldl (recordStep R m) [] (zip headers [0..<length headers])"
  by (simp add: rowRecord_def)

lemma keys_foldl:
  "fst ` set (foldl (recordStep R m) acc zs) =
     fst ` set acc \<union> {toString R h | h i. (h, i) \<in> set zs \<and> truthy h \<and> toString R h \<noteq> js ''__proto__''}"
proof (induction zs arbitrary: acc)
  case Nil
  then show ?case by simp
next
  case (Cons z zs)
  obtain h i where z: "z = (h, i)" by (cases z)
  have "fst ` set (recordStep R m acc z) =
      fst ` set acc \<union> (if truthy h \<and> toString R h \<noteq> js ''__proto__'' then {toString R h} else {})"
    unfolding z by (simp add: recordStep_def setProperty_def dom_update del: js_Cons)
  then show ?case using Cons.IH[of "recordStep R m acc z"] unfolding z
    by (simp del: js_Cons) blast
qed


lemma rowRecord_keys:
  "fst ` set (rowRecord R headers m) =
     {toString R h | h. h \<in> set headers \<and> truthy h \<and> toString R h \<noteq> js ''__proto__''}"
proof -
  have "(\<exists>i. (h, i) \<in> set (zip headers [0..<length headers])) \<longleftrightarrow> h \<in> set headers" for h
  proof -
    have "(\<exists>i. (h, i) \<in> set (zip headers [0..<length headers])) \<longleftrightarrow>
          (\<exists>i. i < length headers \<and> h = headers ! i)"
      by (simp only: in_zip_upt)
    also have "\<dots> \<longleftrightarrow> h \<in> set headers"
      by (auto simp: in_set_conv_nth)
    finally show ?thesis .
  qed
  then show ?thesis
    unfolding rowRecord_foldl keys_foldl by (simp del: js_Cons)
qed



lemma rowRecord_filter:
  "rowRecord R headers m =
     foldl (recordStep R m) []
       (filter (\<lambda>(header, index). truthy header) (zip headers [0..<length headers]))"
proof -
  have "foldl (recordStep R m) acc zs =
     foldl (recordStep R m) acc (filter (\<lambda>(header, index). truthy header) zs)" for acc zs
    by (induction zs arbitrary: acc) (auto simp: recordStep_def)
  then show ?thesis unfolding rowRecord_foldl by simp
qed



lemma workbook_examples:
  "sheetMatches (js ''<sheets><sheet name=\"S 1\" sheetId=\"1\" r:id=\"rId1\"/><sheet r:id=\"x\" name=\"B\" r:id=\"rId2\"/></sheets>'')
     = [(js ''S 1'', js ''rId1''), (js ''B'', js ''rId2'')]"
  "relationshipMatches (js ''<Relationships><Relationship Id=\"rId1\" Type=\"t\" Target=\"worksheets/sheet1.xml\"/></Relationships>'')
     = [(js ''rId1'', js ''worksheets/sheet1.xml'')]"
  by (simp_all add: attrPairAt_def quoted_def dquote_def)



lemma arrayGet_index:
  "i < length xs \<Longrightarrow> arrayGet xs (Finite (of_nat i)) = Some (xs ! i)"
  by (simp add: arrayGet_def)

lemma arrayGet_out_of_range:
  assumes "\<forall>i < length xs. n \<noteq> Finite (of_nat i)"
  shows "arrayGet xs n = None"
proof (cases n)
  case (Finite r)
  show ?thesis
  proof (rule ccontr)
    assume "arrayGet xs n \<noteq> None"
    then have h: "of_int \<lfloor>r\<rfloor> = r" "0 \<le> r" "nat \<lfloor>r\<rfloor> < length xs"
      using Finite by (auto simp: arrayGet_def split: if_splits)
    then have "0 \<le> \<lfloor>r\<rfloor>" by simp
    then have "r = of_nat (nat \<lfloor>r\<rfloor>)" using h(1) by (metis of_int_of_nat_eq of_nat_nat)
    then show False using assms h(3) Finite by blast
  qed
qed (simp_all add: arrayGet_def)

text \<open>
  Claim C8. For a cell whose declared type is \<open>s\<close>, the content of the value node is
  read as a number and used as an index into the shared-string table: an index inside
  the table gives that entry; every other number (an index beyond the table such as 500
  into three entries, a negative or fractional number, \<^verbatim>\<open>NaN\<close>) gives empty text, and so
  does an empty value node. A cell with no value node at all gives empty text (unless it
  is an inline string, which has its text elsewhere). The result is always a text: the
  function has no failing branch.
\<close>

theorem parseCellValue_shared_string:
  "(typeMatch cellXml = Some (js ''s'') \<and> valueMatch cellXml = Some rawValue \<and> rawValue \<noteq> [] \<and>
    toNumber R rawValue = Finite (of_nat i) \<and> i < length sharedStrings
      \<longrightarrow> parseCellValue R cellXml sharedStrings = Text (sharedStrings ! i)) \<and>
   (typeMatch cellXml = Some (js ''s'') \<and> valueMatch cellXml = Some rawValue \<and>
    (\<forall>i < length sharedStrings. toNumber R rawValue \<noteq> Finite (of_nat i))
      \<longrightarrow> parseCellValue R cellXml sharedStrings = Text []) \<and>
   (typeMatch cellXml = Some (js ''s'') \<and> valueMatch cellXml = Some []
      \<longrightarrow> parseCellValue R cellXml sharedStrings = Text []) \<and>
   (typeMatch cellXml \<noteq> Some (js ''inlineStr'') \<and> valueMatch cellXml = None
      \<longrightarrow> parseCellValue R cellXml sharedStrings = Text []) \<and>
   (typeMatch cellXml = Some (js ''s'')
      \<longrightarrow> (\<exists>s. parseCellValue R cellXml sharedStrings = Text s))"
proof (intro conjI impI)
  assume "typeMatch cellXml = Some (js ''s'') \<and> valueMatch cellXml = Some rawValue \<and>
    rawValue \<noteq> [] \<and> toNumber R rawValue = Finite (of_nat i) \<and> i < length sharedStrings"
  then show "parseCellValue R cellXml sharedStrings = Text (sharedStrings ! i)"
    using arrayGet_index[of i sharedStrings] by (simp add: parseCellValue_def)
next
  assume "typeMatch cellXml = Some (js ''s'') \<and> valueMatch cellXml = Some rawValue \<and>
    (\<forall>i < length sharedStrings. toNumber R rawValue \<noteq> Finite (of_nat i))"
  then show "parseCellValue R cellXml sharedStrings = Text []"
    using arrayGet_out_of_range[of sharedStrings "toNumber R rawValue"]
    by (simp add: parseCellValue_def)
next
  assume "typeMatch cellXml = Some (js ''s'') \<and> valueMatch cellXml = Some []"
  then show "parseCellValue R cellXml sharedStrings = Text []"
    by (simp add: parseCellValue_def)
next
  assume "typeMatch cellXml \<noteq> Some (js ''inlineStr'') \<and> valueMatch cellXml = None"
  then show "parseCellValue R cellXml sharedStrings = Text []"
    by (simp add: parseCellValue_def)
next
  assume "typeMatch cellXml = Some (js ''s'')"
  then show "\<exists>s. parseCellValue R cellXml sharedStrings = Text s"
    by (simp add: parseCellValue_def split: option.splits)
qed

theorem parseCellValue_shared_string_witness:
  "parseCellValue exampleRuntime (js ''<c r=\"A1\" t=\"s\"><v>1</v></c>'')
     [js ''a'', js ''b'', js ''c''] = Text (js ''b'') \<and>
   parseCellValue exampleRuntime (js ''<c r=\"A1\" t=\"s\"><v>500</v></c>'')
     [js ''a'', js ''b'', js ''c''] = Text [] \<and>
   parseCellValue exampleRuntime (js ''<c r=\"A1\" t=\"s\"><v></v></c>'')
     [js ''a'', js ''b'', js ''c''] = Text [] \<and>
   parseCellValue exampleRuntime (js ''<c r=\"A1\" t=\"s\"/>'')
     [js ''a'', js ''b'', js ''c''] = Text []"
proof -
  note shared = parseCellValue_shared_string
  let ?ss = "[js ''a'', js ''b'', js ''c'']"
  have 1: "parseCellValue exampleRuntime (js ''<c r=\"A1\" t=\"s\"><v>1</v></c>'') ?ss
      = Text (js ''b'')"
    using shared[where cellXml = "js ''<c r=\"A1\" t=\"s\"><v>1</v></c>''" and rawValue = "js ''1''"
        and R = exampleRuntime and i = 1 and sharedStrings = ?ss, THEN conjunct1]
    by (simp add: valueMatch_def matchElement_def dquote_def decimalToNumber_def isDigit_def
        parseInt_def digitValue_def)
  have 2: "parseCellValue exampleRuntime (js ''<c r=\"A1\" t=\"s\"><v>500</v></c>'') ?ss = Text []"
    using shared[where cellXml = "js ''<c r=\"A1\" t=\"s\"><v>500</v></c>''"
        and rawValue = "js ''500''" and R = exampleRuntime and sharedStrings = ?ss,
        THEN conjunct2, THEN conjunct1]
    by (simp add: valueMatch_def matchElement_def dquote_def decimalToNumber_def isDigit_def
        parseInt_def digitValue_def)
  have 3: "parseCellValue exampleRuntime (js ''<c r=\"A1\" t=\"s\"><v></v></c>'') ?ss = Text []"
    using shared[where cellXml = "js ''<c r=\"A1\" t=\"s\"><v></v></c>''"
        and R = exampleRuntime and sharedStrings = ?ss,
        THEN conjunct2, THEN conjunct2, THEN conjunct1]
    by (simp add: valueMatch_def matchElement_def dquote_def)
  have 4: "parseCellValue exampleRuntime (js ''<c r=\"A1\" t=\"s\"/>'') ?ss = Text []"
    using shared[where cellXml = "js ''<c r=\"A1\" t=\"s\"/>''"
        and R = exampleRuntime and sharedStrings = ?ss,
        THEN conjunct2, THEN conjunct2, THEN conjunct2, THEN conjunct1]
    by (simp add: valueMatch_def matchElement_def dquote_def)
  show ?thesis using 1 2 3 4 by simp
qed

text \<open>
  Claim C10. The callback that builds a record returns at once for a falsy header:
  empty text, the number 0 and the boolean false are all falsy, so the record is built
  from the truthy headers alone and its field names are the string forms of the truthy
  headers (\<^verbatim>\<open>String(header)\<close>: the text itself, the runtime's rendering of a number,
  \<open>true\<close> for the boolean). A first-row cell of type \<open>b\<close> whose value is not \<open>1\<close> decodes
  to false, and an untyped one whose value reads as the number 0 decodes to 0.
\<close>

theorem rowRecord_skips_falsy_headers:
  "\<not> truthy (Text []) \<and> \<not> truthy (Number (Finite 0)) \<and> \<not> truthy (Boolean False) \<and>
   (\<not> truthy header \<longrightarrow> recordStep R m rowData (header, index) = rowData) \<and>
   rowRecord R headers m =
     foldl (recordStep R m) []
       (filter (\<lambda>(header, index). truthy header) (zip headers [0..<length headers])) \<and>
   fst ` set (rowRecord R headers m) =
     {toString R h | h. h \<in> set headers \<and> truthy h \<and> toString R h \<noteq> js ''__proto__''} \<and>
   toString R (Text s) = s \<and> toString R (Number n) = numberToString R n \<and>
   toString R (Boolean True) = js ''true'' \<and>
   (typeMatch cellXml = None \<and> valueMatch cellXml = Some rawValue \<and> rawValue \<noteq> [] \<and>
    toNumber R rawValue = Finite 0
      \<longrightarrow> parseCellValue R cellXml sharedStrings = Number (Finite 0)) \<and>
   (typeMatch cellXml = Some (js ''b'') \<and> valueMatch cellXml = Some rawValue \<and>
    rawValue \<noteq> [] \<and> rawValue \<noteq> js ''1''
      \<longrightarrow> parseCellValue R cellXml sharedStrings = Boolean False)"
proof -
  have falsy: "\<not> truthy (Text [])" "\<not> truthy (Number (Finite 0))" "\<not> truthy (Boolean False)"
    by (simp_all add: truthy_def)
  have step: "\<not> truthy header \<longrightarrow> recordStep R m rowData (header, index) = rowData"
    by (simp add: recordStep_def)
  have names: "toString R (Text s) = s" "toString R (Number n) = numberToString R n"
    "toString R (Boolean True) = js ''true''"
    by (simp_all add: toString_def)
  have zero: "typeMatch cellXml = None \<and> valueMatch cellXml = Some rawValue \<and> rawValue \<noteq> [] \<and>
    toNumber R rawValue = Finite 0 \<longrightarrow> parseCellValue R cellXml sharedStrings = Number (Finite 0)"
    by (simp add: parseCellValue_def)
  have false: "typeMatch cellXml = Some (js ''b'') \<and> valueMatch cellXml = Some rawValue \<and>
    rawValue \<noteq> [] \<and> rawValue \<noteq> js ''1''
      \<longrightarrow> parseCellValue R cellXml sharedStrings = Boolean False"
    by (simp add: parseCellValue_def)
  show ?thesis
    using falsy step names zero false rowRecord_filter[of R headers m] rowRecord_keys[of R headers m]
    by (simp only: simp_thms)
qed

theorem rowRecord_skips_falsy_headers_witness:
  "parseCellValue exampleRuntime (js ''<c r=\"A1\"><v>0</v></c>'') [] = Number (Finite 0) \<and>
   parseCellValue exampleRuntime (js ''<c r=\"B1\" t=\"b\"><v>0</v></c>'') [] = Boolean False \<and>
   recordStep exampleRuntime [] [] (Number (Finite 0), 0) = [] \<and>
   sheetRows exampleRuntime [] falsyHeaderSheet = [[(js ''true'', Number (Finite 3))]]"
proof -
  note skips = rowRecord_skips_falsy_headers
  have 1: "parseCellValue exampleRuntime (js ''<c r=\"A1\"><v>0</v></c>'') [] = Number (Finite 0)"
    using skips[where cellXml = "js ''<c r=\"A1\"><v>0</v></c>''" and rawValue = "js ''0''"
        and R = exampleRuntime and sharedStrings = "[]"]
    by (simp add: valueMatch_def matchElement_def dquote_def decimalToNumber_def isDigit_def
        parseInt_def digitValue_def)
  have 2: "parseCellValue exampleRuntime (js ''<c r=\"B1\" t=\"b\"><v>0</v></c>'') [] = Boolean False"
    using skips[where cellXml = "js ''<c r=\"B1\" t=\"b\"><v>0</v></c>''" and rawValue = "js ''0''"
        and R = exampleRuntime and sharedStrings = "[]"]
    by (simp add: valueMatch_def matchElement_def dquote_def)
  have 3: "recordStep exampleRuntime [] [] (Number (Finite 0), 0) = []"
    using skips[where header = "Number (Finite 0)" and R = exampleRuntime and m = "[]"
        and rowData = "[]" and index = 0]
    by simp
  have 4: "sheetRows exampleRuntime [] falsyHeaderSheet = [[(js ''true'', Number (Finite 3))]]"
    by (simp add: evalSheet falsyHeaderSheet_def)
  show ?thesis using 1 2 3 4 by simp
qed




section \<open>Properties of the date conversion\<close>

text \<open>
  The instant of an integer serial number is exact as long as it stays below \<open>2^53\<close>
  milliseconds; 200000000 gives the product 17277790838400000, which has 54 bits and is
  a double as well.
\<close>

lemma daysInMilliseconds_integer:
  assumes "\<bar>(n - 25569) * 86400000\<bar> \<le> 2 ^ 53"
  shows "daysInMilliseconds (Finite (of_int n)) = Finite (of_int ((n - 25569) * 86400000))"
proof -
  have "\<bar>n - 25569\<bar> \<le> \<bar>(n - 25569) * 86400000\<bar>"
    by (simp add: abs_mult mult_le_cancel_left1)
  then have small: "\<bar>n - 25569\<bar> \<le> 2 ^ 53" using assms by linarith
  have 1: "toDouble (of_int n - 25569) = Finite (of_int (n - 25569))"
    using toDouble_integer[OF small] by simp
  have 2: "toDouble (of_int (n - 25569) * 86400000) = Finite (of_int ((n - 25569) * 86400000))"
    using toDouble_integer[OF assms] by simp
  show ?thesis
    by (simp only: daysInMilliseconds_def doubleOp_def jsnumber.case 1 2)
qed

lemma daysInMilliseconds_44927: "daysInMilliseconds (Finite 44927) = Finite 1672531200000"
  using daysInMilliseconds_integer[of 44927] by simp

lemma daysInMilliseconds_200000000:
  "daysInMilliseconds (Finite 200000000) = Finite 17277790838400000"
proof -
  have b: "bitLength 17277790838400000 = 54" by (simp add: bitLength.simps)
  have e: "doubleExponent 17277790838400000 = 53"
    unfolding doubleExponent_def floorLog2_def using b by simp
  have m: "doubleMantissa 17277790838400000 = 8638895419200000"
    unfolding doubleMantissa_def e by (simp add: pow2_def roundHalfEven_def floor_rat_numeral)
  have 2: "toDouble 17277790838400000 = Finite 17277790838400000"
    unfolding toDouble_def e m by (simp add: pow2_def)
  have 1: "toDouble (200000000 - 25569) = Finite 199974431"
    using toDouble_integer[of 199974431] by simp
  show ?thesis
    using 1 2 by (simp add: daysInMilliseconds_def doubleOp_def)
qed

text \<open>
  What holds of claim C4. A positive serial number whose instant \<open>ms\<close> lies in the range
  of \<^verbatim>\<open>Date\<close> is accepted when the year of the instant is within 1900 to 2100 and
  rejected otherwise; 44927 is the instant 1672531200000, the first of January 2023; a
  number that is 0 or negative is no date, and a text that reads as such a number falls
  back to the calendar-string parse.
\<close>

lemma excelSerialDateToJSDate_in_range:
  assumes "0 < r" "daysInMilliseconds (Finite r) = Finite ms" "\<bar>ms\<bar> \<le> 8640000000000000"
  shows "excelSerialDateToJSDate R (Number (Finite r)) =
           (if 1900 \<le> getFullYear R (truncate ms) \<and> getFullYear R (truncate ms) \<le> 2100
            then Some (Date (truncate ms))
            else None)"
  using assms
  by (auto simp: excelSerialDateToJSDate_def numberOf_def notPositive_def
      newDate_def yearOutOfRange_def stringFallback_def)

lemma civil_19358: "civilFromDays 19358 = (2023, 1, 1)"
  unfolding civilFromDays_def Let_def by simp

lemma civil_19357: "civilFromDays 19357 = (2022, 12, 31)"
  unfolding civilFromDays_def Let_def by simp

lemma zoneOffset_candidates:
  "zoneOffset (js ''America/Chicago'') = - 21600000"
  "zoneOffset (js ''America/New_York'') = - 18000000"
  "zoneOffset (js ''America/Denver'') = - 25200000"
  "zoneOffset (js ''America/Los_Angeles'') = - 28800000"
  "zoneOffset (js ''UTC'') = 0"
  by (simp_all add: zoneOffset_def)

lemma formatUtc_examples:
  "formatUtc 1672531200000 = js ''01/01/2023 00:00:00''"
  "formatUtc 1672509600000 = js ''12/31/2022 18:00:00''"
  "formatUtc 1672513200000 = js ''12/31/2022 19:00:00''"
  "formatUtc 1672506000000 = js ''12/31/2022 17:00:00''"
  "formatUtc 1672502400000 = js ''12/31/2022 16:00:00''"
  using civil_19358 civil_19357
  by (simp_all add: formatUtc_def pad2_def decimalDigits.simps)

lemma parseDate_44927:
  "parseDate exampleRuntime (Some (Number (Finite 44927))) = Some (Date 1672531200000)"
  using civil_19358
  by (simp add: parseDate_def truthy_def excelSerialDateToJSDate_def numberOf_def notPositive_def
      daysInMilliseconds_44927 newDate_def yearOutOfRange_def truncate_def utcYear_def)

lemma excelSerialDateToJSDate_44927:
  "excelSerialDateToJSDate exampleRuntime (Number (Finite 44927)) = Some (Date 1672531200000) \<and>
   civilFromDays (1672531200000 div 86400000) = (2023, 1, 1) \<and>
   formatLocal exampleRuntime 1672531200000 = js ''01/01/2023 00:00:00''"
  using civil_19358 formatUtc_examples(1)
  by (simp add: excelSerialDateToJSDate_def numberOf_def notPositive_def daysInMilliseconds_44927
      newDate_def yearOutOfRange_def truncate_def utcYear_def)

lemma excelSerialDateToJSDate_not_positive:
  "r \<le> 0 \<Longrightarrow> excelSerialDateToJSDate R (Number (Finite r)) = None"
  "toNumber R s = Finite r \<Longrightarrow> r \<le> 0 \<Longrightarrow>
     excelSerialDateToJSDate R (Text s) =
       (case dateParse R s of InvalidDate \<Rightarrow> None | Date t \<Rightarrow> Some (Date t))"
  "parseDate R (Some (Number (Finite 0))) = None"
  "r < 0 \<Longrightarrow> parseDate R (Some (Number (Finite r))) = None"
  by (simp_all add: excelSerialDateToJSDate_def numberOf_def notPositive_def stringFallback_def
      parseDate_def truthy_def)

text \<open>
  Claim C4 says that a number is accepted as a date only if the resulting calendar year
  is within 1900 to 2100. For the serial number 200000000 the instant lies beyond the
  range of \<^verbatim>\<open>Date\<close>: \<^verbatim>\<open>new Date\<close> is invalid, its year is \<^verbatim>\<open>NaN\<close>, neither comparison of
  the range check holds, and the invalid date is returned as the date of the value.
  Rendering it in a time zone then throws.
\<close>

theorem excelSerialDateToJSDate_accepts_invalid:
  "excelSerialDateToJSDate R (Number (Finite 200000000)) = Some InvalidDate \<and>
   parseDate R (Some (Number (Finite 200000000))) = Some InvalidDate \<and>
   formatDate R (Some (Number (Finite 200000000))) (Some (js ''UTC'')) = Inl RangeError"
  by (simp add: excelSerialDateToJSDate_def numberOf_def notPositive_def
      daysInMilliseconds_200000000 newDate_def yearOutOfRange_def parseDate_def truthy_def
      formatDate_def)

section \<open>Properties of the time-zone inference\<close>

lemma formatDate_renderable:
  "timeZone \<noteq> [] \<Longrightarrow> renderable R v \<Longrightarrow> \<exists>e. formatDate R (Some v) (Some timeZone) = Inr e"
  by (auto simp: formatDate_def renderable_def split: option.splits jsdate.splits)

lemma parseDate_falsy: "\<not> truthy v \<Longrightarrow> parseDate R (Some v) = None"
  by (simp add: parseDate_def)

lemma formatDate_not_renderable:
  assumes "timeZone \<noteq> []" "\<not> renderable R v"
  shows "formatDate R (Some v) (Some timeZone) = Inl RangeError"
proof -
  have p: "parseDate R (Some v) = Some InvalidDate" using assms(2) by (simp add: renderable_def)
  then have "truthy v" using parseDate_falsy[of v R] by auto
  then show ?thesis using p assms(1) by (simp add: formatDate_def)
qed

lemma countMatches_renderable:
  "timeZone \<noteq> [] \<Longrightarrow> \<forall>p \<in> set ps. renderable R (fst p) \<Longrightarrow>
   countMatches R timeZone (m, t) ps =
     Inr (m + length (filter (rendersAs R timeZone) ps), t + length ps)"
proof (induction ps arbitrary: m t)
  case Nil
  then show ?case by simp
next
  case (Cons p ps)
  obtain v actual where p: "p = (v, actual)" by (cases p)
  from Cons.prems p obtain e where e: "formatDate R (Some v) (Some timeZone) = Inr e"
    using formatDate_renderable[of timeZone R v] by auto
  have r: "rendersAs R timeZone (v, actual) \<longleftrightarrow> strictEquals e actual"
    by (simp add: rendersAs_def e)
  show ?case
    using Cons.IH[of "if strictEquals e actual then m + 1 else m" "t + 1"] Cons.prems
    by (simp add: p e r)
qed

lemma countMatches_not_renderable:
  "timeZone \<noteq> [] \<Longrightarrow> \<exists>p \<in> set ps. \<not> renderable R (fst p) \<Longrightarrow>
   countMatches R timeZone (m, t) ps = Inl RangeError"
proof (induction ps arbitrary: m t)
  case Nil
  then show ?case by simp
next
  case (Cons p ps)
  obtain v actual where p: "p = (v, actual)" by (cases p)
  show ?case
  proof (cases "renderable R v")
    case True
    then obtain e where e: "formatDate R (Some v) (Some timeZone) = Inr e"
      using formatDate_renderable[of timeZone R v] Cons.prems(1) by auto
    have "\<exists>p \<in> set ps. \<not> renderable R (fst p)" using Cons.prems(2) True p by auto
    from Cons.IH[OF Cons.prems(1) this] show ?thesis by (simp add: p e)
  next
    case False
    then show ?thesis
      using formatDate_not_renderable[of timeZone R v] Cons.prems(1) by (simp add: p bind_def)
  qed
qed

lemma selectZone_firstMax:
  assumes "\<forall>c \<in> set cs. c \<noteq> []" "\<forall>p \<in> set (datePairs samples). renderable R (fst p)"
    "datePairs samples \<noteq> []"
  shows "selectZone R samples (best, bestScore) cs
           = Inr (firstMax (\<lambda>c. zoneScore R c samples) (best, bestScore) cs)"
  using assms(1)
proof (induction cs arbitrary: best bestScore)
  case Nil
  then show ?case by simp
next
  case (Cons c cs)
  have c: "countMatches R c (0, 0) (datePairs samples)
      = Inr (zoneScore R c samples, length (datePairs samples))"
    using countMatches_renderable[of c "datePairs samples" R 0 0] Cons.prems assms(2)
    by (simp add: zoneScore_def)
  have n: "length (datePairs samples) \<noteq> 0" using assms(3) by simp
  show ?case using Cons c n by simp
qed

lemma selectZone_fails:
  assumes "c \<noteq> []" "\<exists>p \<in> set (datePairs samples). \<not> renderable R (fst p)"
  shows "selectZone R samples (best, bestScore) (c # cs) = Inl RangeError"
  using countMatches_not_renderable[OF assms(1), of "datePairs samples" R 0 0] assms(2)
  by (simp add: bind_def)

lemma firstMax_keeps:
  "\<forall>c \<in> set cs. int (score c) \<le> bestScore \<Longrightarrow> firstMax score (best, bestScore) cs = best"
  by (induction cs) auto

lemma firstMax_first:
  "\<exists>c \<in> set cs. int (score c) > bestScore \<Longrightarrow>
   \<exists>i < length cs. firstMax score (best, bestScore) cs = Some (cs ! i) \<and>
      int (score (cs ! i)) > bestScore \<and>
      (\<forall>j < length cs. score (cs ! j) \<le> score (cs ! i)) \<and>
      (\<forall>j < i. score (cs ! j) < score (cs ! i))"
proof (induction cs arbitrary: best bestScore)
  case Nil
  then show ?case by simp
next
  case (Cons c cs)
  show ?case
  proof (cases "int (score c) > bestScore")
    case True
    show ?thesis
    proof (cases "\<exists>d \<in> set cs. int (score d) > int (score c)")
      case True': True
      from Cons.IH[OF True', of "Some c"] obtain i where i: "i < length cs"
        "firstMax score (Some c, int (score c)) cs = Some (cs ! i)"
        "int (score (cs ! i)) > int (score c)"
        "\<forall>j < length cs. score (cs ! j) \<le> score (cs ! i)"
        "\<forall>j < i. score (cs ! j) < score (cs ! i)"
        by blast
      have "Suc i < length (c # cs)" using i(1) by simp
      moreover have "firstMax score (best, bestScore) (c # cs) = Some ((c # cs) ! Suc i)"
        using True i(2) by simp
      moreover have "int (score ((c # cs) ! Suc i)) > bestScore" using True i(3) by simp
      moreover have "\<forall>j < length (c # cs). score ((c # cs) ! j) \<le> score ((c # cs) ! Suc i)"
        using i(3,4) by (auto simp: nth_Cons')
      moreover have "\<forall>j < Suc i. score ((c # cs) ! j) < score ((c # cs) ! Suc i)"
        using i(3,5) by (auto simp: nth_Cons' less_Suc_eq_0_disj)
      ultimately show ?thesis by blast
    next
      case False
      then have le: "\<forall>d \<in> set cs. int (score d) \<le> int (score c)" by auto
      then have "firstMax score (Some c, int (score c)) cs = Some c" by (rule firstMax_keeps)
      then have "firstMax score (best, bestScore) (c # cs) = Some ((c # cs) ! 0)"
        using True by simp
      moreover have "\<forall>j < length (c # cs). score ((c # cs) ! j) \<le> score ((c # cs) ! 0)"
        using le by (auto simp: nth_Cons')
      ultimately show ?thesis using True by (intro exI[of _ 0]) simp
    qed
  next
    case False
    then have ex: "\<exists>d \<in> set cs. int (score d) > bestScore" using Cons.prems by auto
    from Cons.IH[OF ex, of best] obtain i where i: "i < length cs"
        "firstMax score (best, bestScore) cs = Some (cs ! i)"
        "int (score (cs ! i)) > bestScore"
        "\<forall>j < length cs. score (cs ! j) \<le> score (cs ! i)"
        "\<forall>j < i. score (cs ! j) < score (cs ! i)"
      by blast
    have "Suc i < length (c # cs)" using i(1) by simp
    moreover have "firstMax score (best, bestScore) (c # cs) = Some ((c # cs) ! Suc i)"
      using False i(2) by simp
    moreover have "int (score ((c # cs) ! Suc i)) > bestScore" using i(3) by simp
    moreover have "\<forall>j < length (c # cs). score ((c # cs) ! j) \<le> score ((c # cs) ! Suc i)"
      using i(3,4) False by (auto simp: nth_Cons')
    moreover have "\<forall>j < Suc i. score ((c # cs) ! j) < score ((c # cs) ! Suc i)"
      using i(3,5) False by (auto simp: nth_Cons' less_Suc_eq_0_disj)
    ultimately show ?thesis by blast
  qed
qed

lemma collectSamples_step:
  obtains
    (skip) "collectSamples R latestMap samples (outputRow # rest)
              = collectSamples R latestMap samples rest"
  | (stop) "length samples \<ge> 100"
      "collectSamples R latestMap samples (outputRow # rest) = samples"
  | (last) sourceRow where "isNumber (map_of sourceRow (js ''Billing Start Date''))"
      "length samples + 1 \<ge> 100"
      "collectSamples R latestMap samples (outputRow # rest) = samples @ [(sourceRow, outputRow)]"
  | (push) sourceRow where "isNumber (map_of sourceRow (js ''Billing Start Date''))"
      "length samples + 1 < 100"
      "collectSamples R latestMap samples (outputRow # rest)
         = collectSamples R latestMap (samples @ [(sourceRow, outputRow)]) rest"
proof (cases "map_of outputRow (js ''Email'')")
  case None
  then show ?thesis using skip by (simp del: js_Cons)
next
  case (Some v)
  show ?thesis
  proof (cases v)
    case (Text email)
    show ?thesis
    proof (cases "email = []")
      case True
      then show ?thesis using skip Some Text by (simp del: js_Cons)
    next
      case False
      show ?thesis
      proof (cases "map_of latestMap (normalizeEmail R email)")
        case None
        then show ?thesis using skip Some Text False by (simp del: js_Cons)
      next
        case src: (Some sourceRow)
        show ?thesis
        proof (cases "isNumber (map_of sourceRow (js ''Billing Start Date''))")
          case True
          show ?thesis
          proof (cases "length samples + 1 \<ge> 100")
            case ge: True
            then show ?thesis using last[of sourceRow] Some Text False src True
              by (simp del: js_Cons)
          next
            case lt: False
            then show ?thesis using push[of sourceRow] Some Text False src True
              by (simp del: js_Cons)
          qed
        next
          case nn: False
          show ?thesis
          proof (cases "length samples \<ge> 100")
            case True
            then show ?thesis using stop Some Text False src nn by (simp del: js_Cons)
          next
            case False
            then show ?thesis using skip Some Text \<open>email \<noteq> []\<close> src nn by (simp del: js_Cons)
          qed
        qed
      qed
    qed
  next
    case (Number n)
    then show ?thesis using skip Some by (simp del: js_Cons)
  next
    case (Boolean b)
    then show ?thesis using skip Some by (simp del: js_Cons)
  qed
qed

lemma collectSamples_length:
  "length samples < 100 \<Longrightarrow> length (collectSamples R latestMap samples rows) \<le> 100"
proof (induction rows arbitrary: samples)
  case Nil
  then show ?case by simp
next
  case (Cons outputRow rest)
  show ?case
  proof (cases rule: collectSamples_step[of R latestMap samples outputRow rest])
    case skip
    then show ?thesis using Cons.IH[OF Cons.prems] by simp
  next
    case stop
    then show ?thesis using Cons.prems by simp
  next
    case (last sourceRow)
    then show ?thesis using Cons.prems by simp
  next
    case (push sourceRow)
    then show ?thesis using Cons.IH[of "samples @ [(sourceRow, outputRow)]"] by simp
  qed
qed

lemma collectSamples_numeric:
  "\<forall>s \<in> set samples. isNumber (map_of (fst s) (js ''Billing Start Date'')) \<Longrightarrow>
   \<forall>s \<in> set (collectSamples R latestMap samples rows).
      isNumber (map_of (fst s) (js ''Billing Start Date''))"
proof (induction rows arbitrary: samples)
  case Nil
  then show ?case by simp
next
  case (Cons outputRow rest)
  show ?case
  proof (cases rule: collectSamples_step[of R latestMap samples outputRow rest])
    case skip
    then show ?thesis using Cons.IH[OF Cons.prems] by (simp del: js_Cons)
  next
    case stop
    then show ?thesis using Cons.prems by (simp del: js_Cons)
  next
    case (last sourceRow)
    then show ?thesis using Cons.prems by (simp del: js_Cons)
  next
    case (push sourceRow)
    have "\<forall>s \<in> set (samples @ [(sourceRow, outputRow)]).
        isNumber (map_of (fst s) (js ''Billing Start Date''))"
      using Cons.prems push(1) by (simp del: js_Cons)
    from Cons.IH[OF this] show ?thesis using push(3) by (simp del: js_Cons)
  qed
qed

lemma datePairs_nonempty:
  assumes "samples \<noteq> []"
    "\<forall>s \<in> set samples. isNumber (map_of (fst s) (js ''Billing Start Date''))"
  shows "datePairs samples \<noteq> []"
proof -
  obtain sourceRow outputRow rest where s: "samples = (sourceRow, outputRow) # rest"
    using assms(1) by (cases samples) auto
  then have "isNumber (map_of sourceRow (js ''Billing Start Date''))" using assms(2) by simp
  then show ?thesis by (simp add: datePairs_def dateColumns_def s del: js_Cons)
qed

lemma candidates_nonempty: "\<forall>c \<in> set candidates. c \<noteq> []"
  by (simp add: candidates_def)

lemma formatDate_44927:
  "formatDate exampleRuntime (Some (Number (Finite 44927))) (Some (js ''America/Chicago''))
     = Inr (Text (js ''12/31/2022 18:00:00''))"
  "formatDate exampleRuntime (Some (Number (Finite 44927))) (Some (js ''America/New_York''))
     = Inr (Text (js ''12/31/2022 19:00:00''))"
  "formatDate exampleRuntime (Some (Number (Finite 44927))) (Some (js ''America/Denver''))
     = Inr (Text (js ''12/31/2022 17:00:00''))"
  "formatDate exampleRuntime (Some (Number (Finite 44927))) (Some (js ''America/Los_Angeles''))
     = Inr (Text (js ''12/31/2022 16:00:00''))"
  "formatDate exampleRuntime (Some (Number (Finite 44927))) (Some (js ''UTC''))
     = Inr (Text (js ''01/01/2023 00:00:00''))"
  using parseDate_44927 formatUtc_examples zoneOffset_candidates
  by (simp_all add: formatDate_def truthy_def)

lemma example_latest:
  "buildLatestRowMap exampleRuntime sourceRows =
     [(js ''a@x.com'', sourceRow ''a@x.com''), (js ''b@x.com'', sourceRow ''b@x.com''),
      (js ''c@x.com'', sourceRow ''c@x.com'')]"
  by (simp add: buildLatestRowMap_def sourceRows_def sourceRow_def addToGroup_def
      normalizeEmail_def asciiLower_def trim_def isWhiteSpace_def parseDate_def insertionSort_def)

lemma example_samples:
  "collectSamples exampleRuntime (buildLatestRowMap exampleRuntime sourceRows) [] renderedRows =
     [(sourceRow ''a@x.com'', renderedRow '' A@x.com'' ''12/31/2022 18:00:00''),
      (sourceRow ''b@x.com'', renderedRow ''b@x.com'' ''12/31/2022 18:00:00''),
      (sourceRow ''c@x.com'', renderedRow ''C@X.COM '' ''12/31/2022 18:00:00'')]"
  unfolding example_latest
  by (simp add: renderedRows_def renderedRow_def sourceRow_def normalizeEmail_def asciiLower_def
      trim_def isWhiteSpace_def isNumber_def)

lemma example_pairs:
  "datePairs [(sourceRow ''a@x.com'', renderedRow '' A@x.com'' ''12/31/2022 18:00:00''),
      (sourceRow ''b@x.com'', renderedRow ''b@x.com'' ''12/31/2022 18:00:00''),
      (sourceRow ''c@x.com'', renderedRow ''C@X.COM '' ''12/31/2022 18:00:00'')]
   = [(Number (Finite 44927), Some (Text (js ''12/31/2022 18:00:00''))),
      (Number (Finite 44927), Some (Text (js ''12/31/2022 18:00:00''))),
      (Number (Finite 44927), Some (Text (js ''12/31/2022 18:00:00'')))]"
  by (simp add: datePairs_def dateColumns_def renderedRow_def sourceRow_def isNumber_def)

lemma example_scores:
  "zoneScore exampleRuntime (js ''America/Chicago'') exampleSamples = 3"
  "zoneScore exampleRuntime (js ''America/New_York'') exampleSamples = 0"
  "zoneScore exampleRuntime (js ''America/Denver'') exampleSamples = 0"
  "zoneScore exampleRuntime (js ''America/Los_Angeles'') exampleSamples = 0"
  "zoneScore exampleRuntime (js ''UTC'') exampleSamples = 0"
  unfolding zoneScore_def exampleSamples_def example_pairs
  using formatDate_44927
  by (simp_all add: rendersAs_def strictEquals_def)

text \<open>
  What holds of claim C9. The samples are at most 100. \<open>detectTimezone\<close> returns \<^verbatim>\<open>null\<close>
  exactly when there is no sample, that is no output row whose customer has a numeric
  billing start. Otherwise, when every numeric date value of the samples is renderable,
  it returns the candidate zone with the highest score, the earliest listed among those
  of the highest score; the score of a zone is the number of numeric date fields of the
  samples whose rendering in that zone (\<open>formatDate\<close>) is strictly equal to the observed
  property of the output row. When a date value is not renderable, rendering throws and
  so does the inference.
\<close>

lemma detectTimezone_selects_best:
  "length (collectSamples R (buildLatestRowMap R sheet1Rows) [] outputRows) \<le> 100 \<and>
   (detectTimezone R sheet1Rows outputRows = Inr None \<longleftrightarrow>
      collectSamples R (buildLatestRowMap R sheet1Rows) [] outputRows = []) \<and>
   (samples = collectSamples R (buildLatestRowMap R sheet1Rows) [] outputRows \<and> samples \<noteq> [] \<and>
    (\<forall>p \<in> set (datePairs samples). renderable R (fst p))
      \<longrightarrow> (\<exists>i < length candidates.
             detectTimezone R sheet1Rows outputRows = Inr (Some (candidates ! i)) \<and>
             (\<forall>j < length candidates.
                zoneScore R (candidates ! j) samples \<le> zoneScore R (candidates ! i) samples) \<and>
             (\<forall>j < i. zoneScore R (candidates ! j) samples < zoneScore R (candidates ! i) samples))) \<and>
   (samples = collectSamples R (buildLatestRowMap R sheet1Rows) [] outputRows \<and>
    (\<exists>p \<in> set (datePairs samples). \<not> renderable R (fst p))
      \<longrightarrow> detectTimezone R sheet1Rows outputRows = Inl RangeError)"
proof -
  define found where "found = collectSamples R (buildLatestRowMap R sheet1Rows) [] outputRows"
  have det: "detectTimezone R sheet1Rows outputRows =
      (if found = [] then Inr None else selectZone R found (None, -1) candidates)"
    by (simp add: detectTimezone_def found_def Let_def)
  have cap: "length found \<le> 100"
    unfolding found_def by (rule collectSamples_length) simp
  have numeric: "\<forall>s \<in> set found. isNumber (map_of (fst s) (js ''Billing Start Date''))"
    unfolding found_def by (rule collectSamples_numeric) simp
  have cands: "candidates = js ''America/Chicago'' # tl candidates" "js ''America/Chicago'' \<noteq> []"
    by (simp_all add: candidates_def)
  have bad: "detectTimezone R sheet1Rows outputRows = Inl RangeError"
    if "\<exists>p \<in> set (datePairs found). \<not> renderable R (fst p)"
  proof -
    from that have "found \<noteq> []" by (auto simp: datePairs_def)
    moreover have "selectZone R found (None, -1) candidates = Inl RangeError"
      by (subst cands(1)) (rule selectZone_fails[OF cands(2) that])
    ultimately show ?thesis by (simp add: det)
  qed
  have good: "\<exists>i < length candidates.
             detectTimezone R sheet1Rows outputRows = Inr (Some (candidates ! i)) \<and>
             (\<forall>j < length candidates.
                zoneScore R (candidates ! j) found \<le> zoneScore R (candidates ! i) found) \<and>
             (\<forall>j < i. zoneScore R (candidates ! j) found < zoneScore R (candidates ! i) found)"
    if ne: "found \<noteq> []" and ok: "\<forall>p \<in> set (datePairs found). renderable R (fst p)"
  proof -
    have pairs: "datePairs found \<noteq> []" using datePairs_nonempty[OF ne numeric] .
    have sel: "selectZone R found (None, -1) candidates
        = Inr (firstMax (\<lambda>c. zoneScore R c found) (None, -1) candidates)"
      by (rule selectZone_firstMax[OF candidates_nonempty ok pairs])
    have "js ''America/Chicago'' \<in> set candidates" by (simp add: candidates_def)
    then have "\<exists>c \<in> set candidates. int (zoneScore R c found) > -1"
      by (intro bexI[of _ "js ''America/Chicago''"]) simp_all
    from firstMax_first[OF this, of None] obtain i where i: "i < length candidates"
      "firstMax (\<lambda>c. zoneScore R c found) (None, -1) candidates = Some (candidates ! i)"
      "\<forall>j < length candidates. zoneScore R (candidates ! j) found \<le> zoneScore R (candidates ! i) found"
      "\<forall>j < i. zoneScore R (candidates ! j) found < zoneScore R (candidates ! i) found"
      by blast
    have "detectTimezone R sheet1Rows outputRows = Inr (Some (candidates ! i))"
      using ne sel i(2) by (simp add: det)
    then show ?thesis using i(1,3,4) by blast
  qed
  have null: "detectTimezone R sheet1Rows outputRows = Inr None \<longleftrightarrow> found = []"
  proof
    assume n: "detectTimezone R sheet1Rows outputRows = Inr None"
    show "found = []"
    proof (rule ccontr)
      assume ne: "found \<noteq> []"
      show False
      proof (cases "\<forall>p \<in> set (datePairs found). renderable R (fst p)")
        case True
        from good[OF ne True] n show False by auto
      next
        case False
        then have "detectTimezone R sheet1Rows outputRows = Inl RangeError" using bad by blast
        then show False using n by simp
      qed
    qed
  next
    assume "found = []"
    then show "detectTimezone R sheet1Rows outputRows = Inr None" by (simp add: det)
  qed
  show ?thesis
    using cap null good bad unfolding found_def by blast
qed

lemma detectTimezone_selects_best_example:
  "detectTimezone exampleRuntime [] [] = Inr None \<and>
   collectSamples exampleRuntime (buildLatestRowMap exampleRuntime sourceRows) [] renderedRows
     = exampleSamples \<and>
   zoneScore exampleRuntime (js ''America/Chicago'') exampleSamples = 3 \<and>
   zoneScore exampleRuntime (js ''America/New_York'') exampleSamples = 0 \<and>
   zoneScore exampleRuntime (js ''America/Denver'') exampleSamples = 0 \<and>
   zoneScore exampleRuntime (js ''America/Los_Angeles'') exampleSamples = 0 \<and>
   zoneScore exampleRuntime (js ''UTC'') exampleSamples = 0 \<and>
   detectTimezone exampleRuntime sourceRows renderedRows = Inr (Some (js ''America/Chicago''))"
proof -
  note best = detectTimezone_selects_best
  have 1: "detectTimezone exampleRuntime [] [] = Inr None"
    using best[where R = exampleRuntime and sheet1Rows = "[]" and outputRows = "[]",
        THEN conjunct2, THEN conjunct1]
    by simp
  have samples: "collectSamples exampleRuntime (buildLatestRowMap exampleRuntime sourceRows) []
      renderedRows = exampleSamples"
    by (simp only: example_samples exampleSamples_def)
  have ne: "exampleSamples \<noteq> []" by (simp add: exampleSamples_def)
  have ok: "\<forall>p \<in> set (datePairs exampleSamples). renderable exampleRuntime (fst p)"
    unfolding exampleSamples_def example_pairs
    using formatDate_44927(1) by (auto simp: renderable_def formatDate_def truthy_def split: option.splits jsdate.splits)
  from best[where R = exampleRuntime and sheet1Rows = sourceRows and outputRows = renderedRows
      and samples = exampleSamples, THEN conjunct2, THEN conjunct2, THEN conjunct1]
    samples[symmetric] ne ok
  obtain i where i: "i < length candidates"
    "detectTimezone exampleRuntime sourceRows renderedRows = Inr (Some (candidates ! i))"
    "\<forall>j < length candidates.
        zoneScore exampleRuntime (candidates ! j) exampleSamples
          \<le> zoneScore exampleRuntime (candidates ! i) exampleSamples"
    by blast
  have len: "length candidates = 5" by (simp add: candidates_def)
  have c0: "candidates ! 0 = js ''America/Chicago''" by (simp add: candidates_def)
  from i(3) len have three: "3 \<le> zoneScore exampleRuntime (candidates ! i) exampleSamples"
    using example_scores(1) c0 by (metis zero_less_numeral)
  have "i = 0 \<or> i = 1 \<or> i = 2 \<or> i = 3 \<or> i = 4" using i(1) len by auto
  then have "i = 0"
    using three example_scores(2-5) by (auto simp: candidates_def)
  then have 2: "detectTimezone exampleRuntime sourceRows renderedRows
      = Inr (Some (js ''America/Chicago''))"
    using i(2) c0 by simp
  show ?thesis using 1 2 samples example_scores by simp
qed

lemma formatDate_200000000:
  "timeZone \<noteq> [] \<Longrightarrow>
     formatDate R (Some (Number (Finite 200000000))) (Some timeZone) = Inl RangeError"
  by (simp add: excelSerialDateToJSDate_def numberOf_def notPositive_def
      daysInMilliseconds_200000000 newDate_def yearOutOfRange_def parseDate_def truthy_def
      formatDate_def)

lemma outOfRange_latest:
  "buildLatestRowMap exampleRuntime outOfRangeRows =
     [(js ''a@x.com'', sourceRow ''a@x.com''), (js ''d@x.com'', outOfRangeRow ''d@x.com'')]"
  "buildLatestRowMap exampleRuntime [sourceRow ''a@x.com''] =
     [(js ''a@x.com'', sourceRow ''a@x.com'')]"
  by (simp_all add: buildLatestRowMap_def outOfRangeRows_def outOfRangeRow_def sourceRow_def
      addToGroup_def normalizeEmail_def asciiLower_def trim_def isWhiteSpace_def parseDate_def
      insertionSort_def)

lemma outOfRange_samples:
  "collectSamples exampleRuntime (buildLatestRowMap exampleRuntime outOfRangeRows) []
     outOfRangeRendered =
     [(sourceRow ''a@x.com'', renderedRow ''a@x.com'' ''12/31/2022 18:00:00''),
      (outOfRangeRow ''d@x.com'', renderedRow ''d@x.com'' ''12/31/2022 18:00:00'')]"
  "collectSamples exampleRuntime (buildLatestRowMap exampleRuntime [sourceRow ''a@x.com'']) []
     [renderedRow ''a@x.com'' ''12/31/2022 18:00:00''] =
     [(sourceRow ''a@x.com'', renderedRow ''a@x.com'' ''12/31/2022 18:00:00'')]"
  unfolding outOfRange_latest
  by (simp_all add: outOfRangeRendered_def renderedRow_def sourceRow_def outOfRangeRow_def
      normalizeEmail_def asciiLower_def trim_def isWhiteSpace_def isNumber_def)

lemma outOfRange_pairs:
  "datePairs [(sourceRow ''a@x.com'', renderedRow ''a@x.com'' ''12/31/2022 18:00:00''),
      (outOfRangeRow ''d@x.com'', renderedRow ''d@x.com'' ''12/31/2022 18:00:00'')]
   = [(Number (Finite 44927), Some (Text (js ''12/31/2022 18:00:00''))),
      (Number (Finite 200000000), Some (Text (js ''12/31/2022 18:00:00'')))]"
  "datePairs [(sourceRow ''a@x.com'', renderedRow ''a@x.com'' ''12/31/2022 18:00:00'')]
   = [(Number (Finite 44927), Some (Text (js ''12/31/2022 18:00:00'')))]"
  by (simp_all add: datePairs_def dateColumns_def renderedRow_def sourceRow_def outOfRangeRow_def
      isNumber_def)

text \<open>
  Claim C9 says that the inference selects the zone with the highest match count. One
  customer whose billing start 44927 is shown as rendered in Chicago gives
  \<^verbatim>\<open>America/Chicago\<close>. With a second customer whose billing start is the serial
  200000000, the conversion returns an invalid date for that value (the defect of
  claim C4), rendering it in the first candidate zone throws, and the inference throws
  instead of returning the zone.
\<close>

theorem detectTimezone_throws_on_invalid_date:
  "detectTimezone exampleRuntime [sourceRow ''a@x.com'']
     [renderedRow ''a@x.com'' ''12/31/2022 18:00:00''] = Inr (Some (js ''America/Chicago'')) \<and>
   detectTimezone exampleRuntime outOfRangeRows outOfRangeRendered = Inl RangeError"
proof -
  have 1: "detectTimezone exampleRuntime [sourceRow ''a@x.com'']
     [renderedRow ''a@x.com'' ''12/31/2022 18:00:00''] = Inr (Some (js ''America/Chicago''))"
    unfolding detectTimezone_def outOfRange_samples Let_def candidates_def
    using formatDate_44927
    by (simp add: outOfRange_pairs strictEquals_def)
  have 2: "detectTimezone exampleRuntime outOfRangeRows outOfRangeRendered = Inl RangeError"
    unfolding detectTimezone_def outOfRange_samples Let_def candidates_def
    using formatDate_44927(1) formatDate_200000000[of "js ''America/Chicago''" exampleRuntime]
    by (simp add: outOfRange_pairs strictEquals_def)
  show ?thesis using 1 2 by simp
qed
end
